(* ===== verification/Prelude.thy ===== *)
theory Prelude
  imports Main "HOL-Library.Word"
begin

text \<open>
  What every component of the model shares: bytes and Go strings, the outcome of a Go call
  (a value, a returned error, or a panic), computations that thread a state and stop at the
  first error or panic, slices and index expressions with their bounds checks, the big-endian
  codec of the standard library's \<open>encoding/binary\<close>, and the decimal rendering that \<open>fmt\<close> uses
  for integers.  The collections below gather the facts that the component proofs rewrite with.
\<close>

named_theorems step_simps \<open>unfolding of the state-threading combinators\<close>
named_theorems frame_simps \<open>what an operation leaves unchanged\<close>

section \<open>Bytes, words and strings\<close>

type_synonym byte = "8 word"
type_synonym bytes = "8 word list"
type_synonym u32 = "32 word"
type_synonym u64 = "64 word"

text \<open>A Go string is a byte sequence, and so is a HOL string: its characters are bytes.\<close>

definition string_bytes :: "string \<Rightarrow> bytes" where
  "string_bytes s = map (\<lambda>c. word_of_nat (of_char c)) s"

definition bytes_string :: "bytes \<Rightarrow> string" where
  "bytes_string bs = map (\<lambda>b. char_of (unat b)) bs"

lemma length_string_bytes [simp]: "length (string_bytes s) = length s"
  by (simp add: string_bytes_def)

lemma bytes_string_inverse [simp]: "bytes_string (string_bytes s) = s"
proof -
  have "char_of (unat (word_of_nat (of_char c) :: byte)) = c" for c :: char
  proof -
    have "unat (word_of_nat (of_char c) :: byte) = of_char c mod 256"
      by (simp add: unat_of_nat)
    then show ?thesis by simp
  qed
  then show ?thesis
    by (simp add: string_bytes_def bytes_string_def comp_def)
qed

lemma string_bytes_inject: "string_bytes s = string_bytes t \<longleftrightarrow> s = t"
  by (metis bytes_string_inverse)

section \<open>Outcomes\<close>

text \<open>
  An error value: a registered error of this module (its name), a sentinel of another package
  (its Go name), an error made by \<open>fmt.Errorf\<close> or by code outside the module, or one of these
  wrapped with a text.  Only the constant part of a text is kept; the formatted arguments are not.
\<close>

datatype err =
    Registered string nat string
  | Sentinel string
  | Errorf string
  | Wrapped err string

primrec root_err :: "err \<Rightarrow> err" where
  "root_err (Registered m c d) = Registered m c d"
| "root_err (Sentinel n) = Sentinel n"
| "root_err (Errorf t) = Errorf t"
| "root_err (Wrapped e t) = root_err e"

text \<open>The text of an error: a wrapped error prints the added text in front.\<close>

primrec err_text :: "err \<Rightarrow> string" where
  "err_text (Registered m c d) = d"
| "err_text (Sentinel n) = n"
| "err_text (Errorf t) = t"
| "err_text (Wrapped e t) = t @ '': '' @ err_text e"

datatype 'a res = Ok 'a | Err err | Panic string

definition is_ok :: "'a res \<Rightarrow> bool" where
  "is_ok r = (case r of Ok _ \<Rightarrow> True | _ \<Rightarrow> False)"

lemma is_ok_simps [simp]:
  "is_ok (Ok x)" "\<not> is_ok (Err e)" "\<not> is_ok (Panic p)"
  by (simp_all add: is_ok_def)

lemma is_ok_iff: "is_ok r \<longleftrightarrow> (\<exists>x. r = Ok x)"
  by (cases r) auto

text \<open>The error a Go caller sees for a call that has returned.\<close>

definition err_of :: "'a res \<Rightarrow> err option" where
  "err_of r = (case r of Err e \<Rightarrow> Some e | _ \<Rightarrow> None)"

lemma err_of_simps [simp]:
  "err_of (Ok x) = None" "err_of (Err e) = Some e" "err_of (Panic p) = None"
  by (simp_all add: err_of_def)

section \<open>Pure calls in sequence\<close>

definition bindR :: "'a res \<Rightarrow> ('a \<Rightarrow> 'b res) \<Rightarrow> 'b res" where
  "bindR r f = (case r of Ok x \<Rightarrow> f x | Err e \<Rightarrow> Err e | Panic p \<Rightarrow> Panic p)"

lemma bindR_simps [simp]:
  "bindR (Ok x) f = f x" "bindR (Err e) f = Err e" "bindR (Panic p) f = Panic p"
  by (simp_all add: bindR_def)

lemma bindR_eq_Ok: "bindR r f = Ok y \<longleftrightarrow> (\<exists>x. r = Ok x \<and> f x = Ok y)"
  by (cases r) auto

lemma bindR_assoc: "bindR (bindR r f) g = bindR r (\<lambda>x. bindR (f x) g)"
  by (cases r) simp_all

section \<open>Calls that thread a state\<close>

text \<open>
  A Go function that reads and writes state is a function from the state to its outcome and the
  state it leaves, also when it fails: Go undoes nothing by itself.
\<close>

type_synonym ('s, 'a) call = "'s \<Rightarrow> 'a res \<times> 's"

definition ret :: "'a \<Rightarrow> ('s, 'a) call" where
  "ret x = (\<lambda>s. (Ok x, s))"

definition fail :: "err \<Rightarrow> ('s, 'a) call" where
  "fail e = (\<lambda>s. (Err e, s))"

definition panic :: "string \<Rightarrow> ('s, 'a) call" where
  "panic p = (\<lambda>s. (Panic p, s))"

definition bind :: "('s, 'a) call \<Rightarrow> ('a \<Rightarrow> ('s, 'b) call) \<Rightarrow> ('s, 'b) call" where
  "bind m f = (\<lambda>s. case m s of
     (Ok x, s') \<Rightarrow> f x s' | (Err e, s') \<Rightarrow> (Err e, s') | (Panic p, s') \<Rightarrow> (Panic p, s'))"

text \<open>A read of the state whose outcome is pure.\<close>

definition reading :: "('s \<Rightarrow> 'a res) \<Rightarrow> ('s, 'a) call" where
  "reading f = (\<lambda>s. (f s, s))"

definition update_state :: "('s \<Rightarrow> 's) \<Rightarrow> ('s, unit) call" where
  "update_state f = (\<lambda>s. (Ok (), f s))"

text \<open>A call whose error the caller inspects instead of returning it; a panic still unwinds.\<close>

definition attempt :: "('s, 'a) call \<Rightarrow> ('s, 'a res) call" where
  "attempt m = (\<lambda>s. case m s of
     (Ok x, s') \<Rightarrow> (Ok (Ok x), s') | (Err e, s') \<Rightarrow> (Ok (Err e), s') | (Panic p, s') \<Rightarrow> (Panic p, s'))"

lemma ret_apply [simp, step_simps]: "ret x s = (Ok x, s)"
  by (simp add: ret_def)

lemma fail_apply [simp, step_simps]: "fail e s = (Err e, s)"
  by (simp add: fail_def)

lemma panic_apply [simp, step_simps]: "panic p s = (Panic p, s)"
  by (simp add: panic_def)

lemma reading_apply [simp, step_simps]: "reading f s = (f s, s)"
  by (simp add: reading_def)

lemma update_state_apply [simp, step_simps]: "update_state f s = (Ok (), f s)"
  by (simp add: update_state_def)

lemma bind_apply [step_simps]: "bind m f s = (case m s of
     (Ok x, s') \<Rightarrow> f x s' | (Err e, s') \<Rightarrow> (Err e, s') | (Panic p, s') \<Rightarrow> (Panic p, s'))"
  by (simp add: bind_def)

lemma attempt_apply [step_simps]: "attempt m s = (case m s of
     (Ok x, s') \<Rightarrow> (Ok (Ok x), s') | (Err e, s') \<Rightarrow> (Ok (Err e), s') | (Panic p, s') \<Rightarrow> (Panic p, s'))"
  by (simp add: attempt_def)

lemma bind_Ok: "m s = (Ok x, s') \<Longrightarrow> bind m f s = f x s'"
  by (simp add: bind_apply)

lemma bind_eq_Ok:
  "bind m f s = (Ok y, t) \<longleftrightarrow> (\<exists>x s'. m s = (Ok x, s') \<and> f x s' = (Ok y, t))"
  by (auto simp: bind_apply split: prod.splits res.splits)

lemma bind_assoc: "bind (bind m f) g = bind m (\<lambda>x. bind (f x) g)"
  by (rule ext) (simp add: bind_apply split: prod.split res.split)

text \<open>
  A property of states that a computation keeps: the form in which the frame lemmas of the
  components are stated, so that a sequence keeps what its parts keep.
\<close>

definition keeps :: "('s \<Rightarrow> 'b) \<Rightarrow> ('s, 'a) call \<Rightarrow> bool" where
  "keeps f m \<longleftrightarrow> (\<forall>s. f (snd (m s)) = f s)"

lemma keepsD: "keeps f m \<Longrightarrow> m s = (r, t) \<Longrightarrow> f t = f s"
  by (metis keeps_def snd_conv)

lemma keeps_ret [intro]: "keeps f (ret x)"
  and keeps_fail [intro]: "keeps f (fail e)"
  and keeps_panic [intro]: "keeps f (panic p)"
  and keeps_reading [intro]: "keeps f (reading g)"
  by (simp_all add: keeps_def)

lemma keeps_update_state: "(\<And>s. f (g s) = f s) \<Longrightarrow> keeps f (update_state g)"
  by (simp add: keeps_def)

lemma keeps_bind [intro]:
  assumes "keeps f m" and "\<And>x. keeps f (g x)"
  shows "keeps f (bind m g)"
  using assms by (auto simp: keeps_def bind_apply split: prod.split res.split) (metis snd_conv)+

lemma keeps_attempt [intro]: "keeps f m \<Longrightarrow> keeps f (attempt m)"
  by (auto simp: keeps_def attempt_apply split: prod.split res.split) (metis snd_conv)+

end
