(* ===== verification/GoBytes.thy ===== *)
theory GoBytes
  imports Prelude
begin

text \<open>
  The parts of Go and its standard library that the module's key layout and codecs use: index
  and slice expressions with their bounds checks, \<open>make\<close>, the built-in \<open>copy\<close>, an assignment to
  an element, \<open>binary.BigEndian\<close> and the decimal form of an unsigned integer.
\<close>

section \<open>Slices\<close>

definition go_index :: "'a list \<Rightarrow> nat \<Rightarrow> 'a res" where
  "go_index xs i = (if i < length xs then Ok (xs ! i) else Panic ''index out of range'')"

text \<open>\<open>xs[a:b]\<close>, where the capacity of \<open>xs\<close> is its length.\<close>

definition go_slice :: "'a list \<Rightarrow> nat \<Rightarrow> nat \<Rightarrow> 'a list res" where
  "go_slice xs a b =
     (if a \<le> b \<and> b \<le> length xs then Ok (take (b - a) (drop a xs))
      else Panic ''slice bounds out of range'')"

text \<open>\<open>xs[a:]\<close>.\<close>

definition go_slice_from :: "'a list \<Rightarrow> nat \<Rightarrow> 'a list res" where
  "go_slice_from xs a = go_slice xs a (length xs)"

text \<open>\<open>copy(dst[at:], src)\<close>: as many elements as fit.\<close>

definition go_copy_at :: "'a list \<Rightarrow> nat \<Rightarrow> 'a list \<Rightarrow> 'a list res" where
  "go_copy_at dst at src =
     (if at \<le> length dst
      then Ok (take at dst @ take (length dst - at) src @ drop (at + length src) dst)
      else Panic ''slice bounds out of range'')"

text \<open>\<open>dst[i] = x\<close>.\<close>

definition go_assign :: "'a list \<Rightarrow> nat \<Rightarrow> 'a \<Rightarrow> 'a list res" where
  "go_assign dst i x =
     (if i < length dst then Ok (dst[i := x]) else Panic ''index out of range'')"

definition go_make :: "nat \<Rightarrow> bytes" where
  "go_make n = replicate n 0"

lemma length_go_make [simp]: "length (go_make n) = n"
  by (simp add: go_make_def)

lemma go_slice_middle [simp]:
  "go_slice (xs @ ys @ zs) (length xs) (length xs + length ys) = Ok ys"
  by (simp add: go_slice_def)

lemma go_slice_is:
  "a = length xs \<Longrightarrow> b = length xs + length ys \<Longrightarrow> go_slice (xs @ ys @ zs) a b = Ok ys"
  by simp

lemma go_slice_from_is: "a = length xs \<Longrightarrow> go_slice_from (xs @ ys) a = Ok ys"
  by (simp add: go_slice_from_def go_slice_def)

lemma go_index_is: "i = length xs \<Longrightarrow> go_index (xs @ y # ys) i = Ok y"
  by (simp add: go_index_def)

lemma go_slice_not_Err [simp]: "go_slice xs a b \<noteq> Err e"
  by (simp add: go_slice_def)

text \<open>Writes into a buffer that is a known prefix followed by room enough.\<close>

lemma go_copy_at_is:
  assumes "at = length xs" and "length ys = length src"
  shows "go_copy_at (xs @ ys @ zs) at src = Ok (xs @ src @ zs)"
  using assms by (simp add: go_copy_at_def)

lemma go_assign_is: "i = length xs \<Longrightarrow> go_assign (xs @ y # ys) i x = Ok (xs @ x # ys)"
  by (simp add: go_assign_def)

section \<open>Big-endian integers\<close>

lemma unat_byte_less: "unat (b :: byte) < 256"
  using unsigned_less [of b, where 'a = nat] by simp

lemma unat_u64_less: "unat (w :: u64) < 2 ^ 64"
  using unsigned_less [of w, where 'a = nat] by simp

text \<open>\<open>binary.BigEndian.PutUint64\<close> into an eight byte buffer, most significant byte first.\<close>

definition put_uint64 :: "u64 \<Rightarrow> bytes" where
  "put_uint64 w = map (\<lambda>k. ucast (drop_bit (8 * k) w)) [7, 6, 5, 4, 3, 2, 1, 0]"

definition get_uint64 :: "bytes \<Rightarrow> u64" where
  "get_uint64 bs = fold (\<lambda>b w. push_bit 8 w + ucast b) bs 0"

lemma length_put_uint64 [simp]: "length (put_uint64 w) = 8"
  by (simp add: put_uint64_def)

text \<open>The number that a byte string spells in base 256, its first byte the most significant.\<close>

primrec be_value :: "bytes \<Rightarrow> nat" where
  "be_value [] = 0"
| "be_value (b # bs) = unat b * 256 ^ length bs + be_value bs"

lemma be_value_append: "be_value (xs @ ys) = be_value xs * 256 ^ length ys + be_value ys"
  by (induction xs) (simp_all add: algebra_simps power_add)

lemma be_value_less: "be_value bs < 256 ^ length bs"
proof (induction bs)
  case Nil
  then show ?case by simp
next
  case (Cons b bs)
  have "unat b \<le> 255"
    using unat_byte_less [of b] by simp
  then have "unat b * 256 ^ length bs \<le> 255 * 256 ^ length bs"
    by (rule mult_le_mono1)
  moreover have "255 * 256 ^ length bs + 256 ^ length bs = (256 ^ length (b # bs) :: nat)"
    by simp
  ultimately show ?case
    using Cons unfolding be_value.simps by linarith
qed

text \<open>
  Byte strings of one length compare as the numbers they spell: the lexicographic order of the
  store's keys is the order of the heights in them.
\<close>

lemma be_value_inject: "length xs = length ys \<Longrightarrow> be_value xs = be_value ys \<longleftrightarrow> xs = ys"
proof (induction xs ys rule: list_induct2)
  case Nil
  then show ?case by simp
next
  case (Cons x xs y ys)
  show ?case
  proof
    assume eq: "be_value (x # xs) = be_value (y # ys)"
    let ?m = "256 ^ length xs :: nat"
    have "be_value (x # xs) div ?m = unat x" "be_value (x # xs) mod ?m = be_value xs"
      using be_value_less [of xs] by simp_all
    moreover have "be_value (y # ys) div ?m = unat y" "be_value (y # ys) mod ?m = be_value ys"
      using be_value_less [of ys] Cons.hyps by simp_all
    ultimately have "unat x = unat y" "be_value xs = be_value ys"
      using eq by metis+
    with Cons.IH show "x # xs = y # ys" by (simp add: unsigned_word_eqI)
  qed simp
qed

lemma unat_drop_bit_u64: "unat (drop_bit n (w :: u64)) = unat w div 2 ^ n"
  unfolding unsigned_drop_bit_eq using unat_u64_less [of w] by (simp add: drop_bit_eq_div take_bit_eq_mod)

lemma drop_bit_byte: "unat (ucast (drop_bit n (w :: u64)) :: byte) = unat w div 2 ^ n mod 256"
  unfolding unsigned_ucast_eq unsigned_drop_bit_eq using unat_u64_less [of w]
  by (simp add: drop_bit_eq_div take_bit_eq_mod)

lemma be_value_put_uint64: "be_value (put_uint64 w) = unat w"
proof -
  have digits: "n = n div 2 ^ 56 mod 256 * 256 ^ 7 + (n div 2 ^ 48 mod 256 * 256 ^ 6
      + (n div 2 ^ 40 mod 256 * 256 ^ 5 + (n div 2 ^ 32 mod 256 * 256 ^ 4
      + (n div 2 ^ 24 mod 256 * 256 ^ 3 + (n div 2 ^ 16 mod 256 * 256 ^ 2
      + (n div 2 ^ 8 mod 256 * 256 + n mod 256))))))"
    if "n < 2 ^ 64" for n :: nat
  proof -
    have base: "m = m div 2 ^ 8 * 256 + m mod 256" for m :: nat
      by simp
    define a b c d e f g where "a = n div 2 ^ 8" and "b = a div 2 ^ 8" and "c = b div 2 ^ 8"
      and "d = c div 2 ^ 8" and "e = d div 2 ^ 8" and "f = e div 2 ^ 8" and "g = f div 2 ^ 8"
    note defs = this
    have "g < 2 ^ 8"
      using that by (simp add: defs div_mult2_eq [symmetric])
    then have "g mod 256 = g" by simp
    then have "n = g mod 256 * 256 ^ 7 + (f mod 256 * 256 ^ 6 + (e mod 256 * 256 ^ 5
        + (d mod 256 * 256 ^ 4 + (c mod 256 * 256 ^ 3 + (b mod 256 * 256 ^ 2
        + (a mod 256 * 256 + n mod 256))))))"
      using base [of n, folded defs] base [of a, folded defs] base [of b, folded defs]
        base [of c, folded defs] base [of d, folded defs] base [of e, folded defs]
        base [of f, folded defs]
      by simp
    then show ?thesis
      by (simp add: defs div_mult2_eq [symmetric])
  qed
  show ?thesis
    using digits [of "unat w"] unat_u64_less [of w]
    by (simp add: put_uint64_def drop_bit_byte drop_bit_byte [of 0 w, simplified])
qed

lemma mod_scale_add: "(x mod m * k + y) mod m = (x * k + y) mod (m :: nat)"
  by (subst (1 2) mod_add_left_eq [symmetric]) (simp only: mod_mult_left_eq)

lemma unat_get_uint64: "unat (get_uint64 bs) = be_value bs mod 2 ^ 64"
proof (induction bs rule: rev_induct)
  case Nil
  then show ?case by (simp add: get_uint64_def)
next
  case (snoc b bs)
  have step: "get_uint64 (bs @ [b]) = get_uint64 bs * 256 + ucast b"
    by (simp add: get_uint64_def push_bit_eq_mult)
  have "unat b < 2 ^ 64"
    using unat_byte_less [of b] by simp
  then have "unat (ucast b :: u64) = unat b"
    by (simp add: unsigned_ucast_eq take_bit_nat_eq_self)
  then have "unat (get_uint64 (bs @ [b])) = (unat (get_uint64 bs) * 256 + unat b) mod 2 ^ 64"
    unfolding step by (simp add: unat_word_ariths mod_simps)
  also have "\<dots> = be_value (bs @ [b]) mod 2 ^ 64"
    unfolding snoc.IH mod_scale_add by (simp add: be_value_append)
  finally show ?case .
qed

lemma get_put_uint64 [simp]: "get_uint64 (put_uint64 w) = w"
proof (rule unsigned_word_eqI [where 'a = nat])
  show "unat (get_uint64 (put_uint64 w)) = unat w"
    using unat_u64_less [of w] by (simp add: unat_get_uint64 be_value_put_uint64)
qed

lemma put_uint64_inject [simp]: "put_uint64 v = put_uint64 w \<longleftrightarrow> v = w"
  by (metis get_put_uint64)

lemma put_get_uint64: "length bs = 8 \<Longrightarrow> put_uint64 (get_uint64 bs) = bs"
proof -
  assume len: "length bs = 8"
  have "be_value bs < 2 ^ 64"
    using be_value_less [of bs] by (simp add: len)
  then have "be_value (put_uint64 (get_uint64 bs)) = be_value bs"
    by (simp add: be_value_put_uint64 unat_get_uint64)
  then show ?thesis
    by (simp add: be_value_inject len)
qed

section \<open>Decimal numbers\<close>

fun decimal :: "nat \<Rightarrow> string" where
  "decimal n = (if n < 10 then [char_of (48 + n)] else decimal (n div 10) @ [char_of (48 + n mod 10)])"

declare decimal.simps [simp del]

definition undecimal :: "string \<Rightarrow> nat" where
  "undecimal s = foldl (\<lambda>n c. 10 * n + (of_char c - 48)) 0 s"

lemma undecimal_decimal [simp]: "undecimal (decimal n) = n"
proof (induction n rule: decimal.induct)
  case (1 n)
  show ?case
  proof (cases "n < 10")
    case True
    then show ?thesis
      by (simp add: decimal.simps [of n] undecimal_def)
  next
    case False
    with 1 have "undecimal (decimal (n div 10)) = n div 10" by simp
    with False show ?thesis
      by (simp add: decimal.simps [of n] undecimal_def)
  qed
qed

lemma decimal_inject [simp]: "decimal m = decimal n \<longleftrightarrow> m = n"
  by (metis undecimal_decimal)

definition show_bool :: "bool \<Rightarrow> string" where
  "show_bool b = (if b then ''true'' else ''false'')"

end
