(* ===== verification/KVStore.thy ===== *)
theory KVStore
  imports GoBytes "HOL-Library.List_Lexorder"
begin

text \<open>
  The module's view of a \<open>KVStore\<close> of the chain: a finite map from byte strings to byte strings
  whose iterators run over the keys of a prefix in ascending byte order.  An iterator enumerates
  the content the store had when the iterator was opened; the module writes to the store while
  it iterates (the scheduler does) and the cached stores of the SDK isolate iterators from such
  writes.  The locale \<open>kv_contract\<close> is that interface with what every client proof needs of it,
  and the sorted association list below is the data the model keeps.
\<close>

section \<open>The contract and its consequences\<close>

abbreviation ascending :: "('k :: linorder \<times> 'v) list \<Rightarrow> bool" where
  "ascending es \<equiv> sorted_wrt (<) (map fst es)"

lemma ascending_distinct: "ascending es \<Longrightarrow> distinct (map fst es)"
  by (metis strict_sorted_iff)

lemma ascending_unique:
  "ascending xs \<Longrightarrow> ascending ys \<Longrightarrow> set xs = set ys \<Longrightarrow> xs = ys"
proof (induction xs arbitrary: ys)
  case Nil
  then show ?case by simp
next
  case (Cons x xs)
  then obtain y ys' where ys: "ys = y # ys'"
    by (cases ys) auto
  have least: "fst z \<le> fst w" if "ascending (z # zs)" "w \<in> set (z # zs)" for z w :: "'a \<times> 'b" and zs
    using that by (auto intro: less_imp_le)
  have mem: "x \<in> set (y # ys')" "y \<in> set (x # xs)"
    using Cons.prems(3) ys by (metis list.set_intros(1))+
  have "fst x = fst y"
    using Cons.prems(1,2) ys mem by (intro antisym least [of x xs y] least [of y ys' x]) simp_all
  moreover have "x \<notin> set xs" "y \<notin> set ys'"
    using Cons.prems(1,2) ys by auto
  moreover note mem(1)
  ultimately have "x = y"
    using Cons.prems(2) ys by auto
  then have "set xs = set ys'"
    using Cons.prems(3) ys \<open>x \<notin> set xs\<close> \<open>y \<notin> set ys'\<close> by auto
  then have "xs = ys'"
    using Cons.prems ys by (intro Cons.IH) simp_all
  with \<open>x = y\<close> ys show ?case by simp
qed

lemma sum_split_key:
  fixes f :: "'k \<times> 'v \<Rightarrow> 'n :: comm_monoid_add"
  shows "distinct (map fst xs) \<Longrightarrow> (k, v) \<in> set xs \<Longrightarrow>
     sum_list (map f xs) = f (k, v) + sum_list (map f (filter (\<lambda>e. fst e \<noteq> k) xs))"
proof (induction xs)
  case (Cons x xs)
  show ?case
  proof (cases "fst x = k")
    case True
    then have fresh: "k \<notin> fst ` set xs"
      using Cons.prems(1) by simp
    then have "(k, v) \<notin> set xs"
      by force
    with Cons.prems(2) have "x = (k, v)"
      by simp
    moreover note fresh
    moreover from this have "filter (\<lambda>e. fst e \<noteq> k) xs = xs"
      by (auto simp: filter_id_conv)
    ultimately show ?thesis by simp
  next
    case False
    with Cons show ?thesis
      by (auto simp: add.left_commute)
  qed
qed simp

locale kv_contract =
  fixes get :: "'s \<Rightarrow> bytes \<Rightarrow> bytes option"
    and put :: "'s \<Rightarrow> bytes \<Rightarrow> bytes \<Rightarrow> 's"
    and del :: "'s \<Rightarrow> bytes \<Rightarrow> 's"
    and scan :: "'s \<Rightarrow> bytes \<Rightarrow> (bytes \<times> bytes) list"
  assumes get_put: "get (put s k v) k' = (if k' = k then Some v else get s k')"
    and get_del: "get (del s k) k' = (if k' = k then None else get s k')"
    and scan_iff: "(k, v) \<in> set (scan s p) \<longleftrightarrow> get s (p @ k) = Some v"
    and scan_ascending: "ascending (scan s p)"
begin

lemma scan_eqI:
  assumes "\<And>k. get s (p @ k) = get t (p @ k)"
  shows "scan s p = scan t p"
  by (rule ascending_unique) (use assms in \<open>auto simp: scan_ascending scan_iff\<close>)

lemma scan_put_other:
  assumes "\<And>k'. k \<noteq> p @ k'"
  shows "scan (put s k v) p = scan s p"
  by (rule scan_eqI) (use assms in \<open>auto simp: get_put\<close>)

lemma scan_del_other:
  assumes "\<And>k'. k \<noteq> p @ k'"
  shows "scan (del s k) p = scan s p"
  by (rule scan_eqI) (use assms in \<open>auto simp: get_del\<close>)

lemma scan_put: "(k', v') \<in> set (scan (put s (p @ k) v) p) \<longleftrightarrow>
    (if k' = k then v' = v else (k', v') \<in> set (scan s p))"
  by (auto simp: scan_iff get_put)

lemma scan_del: "(k', v') \<in> set (scan (del s (p @ k)) p) \<longleftrightarrow> k' \<noteq> k \<and> (k', v') \<in> set (scan s p)"
  by (auto simp: scan_iff get_del)

lemma scan_distinct: "distinct (map fst (scan s p))"
  using scan_ascending by (rule ascending_distinct)

lemma scan_functional: "(k, v) \<in> set (scan s p) \<Longrightarrow> (k, v') \<in> set (scan s p) \<Longrightarrow> v = v'"
  by (simp add: scan_iff)

lemma scan_put_others:
  "filter (\<lambda>e. fst e \<noteq> k) (scan (put s (p @ k) v) p) = filter (\<lambda>e. fst e \<noteq> k) (scan s p)"
  by (rule ascending_unique)
    (auto simp: scan_put sorted_wrt_map sorted_wrt_filter scan_ascending [unfolded sorted_wrt_map])

lemma get_del_all: "get (foldl del s ks) k = (if k \<in> set ks then None else get s k)"
  by (induction ks arbitrary: s) (auto simp: get_del)

text \<open>Deleting every key that a scan listed empties the prefix and nothing else.\<close>

definition del_scan :: "'s \<Rightarrow> bytes \<Rightarrow> 's" where
  "del_scan s p = foldl del s (map (\<lambda>e. p @ fst e) (scan s p))"

lemma get_del_scan: "get (del_scan s p) k = (if take (length p) k = p then None else get s k)"
proof (cases "take (length p) k = p")
  case True
  then obtain k' where k: "k = p @ k'"
    by (metis append_take_drop_id)
  have "get s k = None" if "k \<notin> set (map (\<lambda>e. p @ fst e) (scan s p))"
  proof (cases "get s k")
    case (Some v)
    then have "(k', v) \<in> set (scan s p)"
      by (simp add: scan_iff k)
    with that k show ?thesis by force
  qed
  with True show ?thesis
    by (simp add: del_scan_def get_del_all del: set_map)
next
  case False
  then show ?thesis
    by (auto simp: del_scan_def get_del_all)
qed

lemma scan_del_scan: "scan (del_scan s p) p = []"
proof -
  have "(k, v) \<notin> set (scan (del_scan s p) p)" for k v
    by (simp add: scan_iff get_del_scan)
  then show ?thesis
    by (cases "scan (del_scan s p) p") fastforce+
qed

lemma scan_del_scan_other:
  assumes "\<And>k k'. p @ k \<noteq> q @ k'"
  shows "scan (del_scan s p) q = scan s q"
proof (rule scan_eqI)
  fix k
  have "take (length p) (q @ k) \<noteq> p"
    by (metis assms append_take_drop_id)
  then show "get (del_scan s p) (q @ k) = get s (q @ k)"
    by (simp add: get_del_scan)
qed

end

section \<open>Sorted association lists\<close>

fun put_entry :: "bytes \<Rightarrow> bytes \<Rightarrow> (bytes \<times> bytes) list \<Rightarrow> (bytes \<times> bytes) list" where
  "put_entry k v [] = [(k, v)]"
| "put_entry k v ((k', v') # es) =
     (if k < k' then (k, v) # (k', v') # es
      else if k = k' then (k, v) # es
      else (k', v') # put_entry k v es)"

definition del_entry :: "bytes \<Rightarrow> (bytes \<times> bytes) list \<Rightarrow> (bytes \<times> bytes) list" where
  "del_entry k es = filter (\<lambda>e. fst e \<noteq> k) es"

lemma set_put_entry: "fst ` set (put_entry k v es) = insert k (fst ` set es)"
  by (induction k v es rule: put_entry.induct) auto

lemma ascending_put_entry: "ascending es \<Longrightarrow> ascending (put_entry k v es)"
proof (induction k v es rule: put_entry.induct)
  case (2 k v k' v' es)
  have "fst ` set (put_entry k v es) = insert k (fst ` set es)"
    by (rule set_put_entry)
  with 2 show ?case
    by (auto simp: not_less_iff_gr_or_eq intro: order.strict_trans)
qed simp

lemma ascending_del_entry: "ascending es \<Longrightarrow> ascending (del_entry k es)"
  by (auto simp: del_entry_def sorted_wrt_map sorted_wrt_filter)

lemma map_of_put_entry: "map_of (put_entry k v es) = (map_of es)(k \<mapsto> v)"
  by (induction k v es rule: put_entry.induct) (auto simp: fun_eq_iff)

lemma map_of_del_entry: "map_of (del_entry k es) = (map_of es)(k := None)"
  by (induction es) (auto simp: del_entry_def fun_eq_iff)

typedef kvstore = "{es :: (bytes \<times> bytes) list. ascending es}"
  morphisms kv_entries kv_of_entries
  by (rule exI [of _ "[]"]) simp

setup_lifting type_definition_kvstore

text \<open>Stores are compared by their entries.\<close>

instantiation kvstore :: equal
begin

definition equal_kvstore :: "kvstore \<Rightarrow> kvstore \<Rightarrow> bool" where
  "equal_kvstore s t \<longleftrightarrow> kv_entries s = kv_entries t"

instance
  by standard (simp add: equal_kvstore_def kv_entries_inject)

end

lift_definition kv_empty :: kvstore is "[]"
  by simp

lift_definition kv_set :: "kvstore \<Rightarrow> bytes \<Rightarrow> bytes \<Rightarrow> kvstore" is "\<lambda>es k v. put_entry k v es"
  by (rule ascending_put_entry)

lift_definition kv_delete :: "kvstore \<Rightarrow> bytes \<Rightarrow> kvstore" is "\<lambda>es k. del_entry k es"
  by (rule ascending_del_entry)

definition kv_get :: "kvstore \<Rightarrow> bytes \<Rightarrow> bytes option" where
  "kv_get s k = map_of (kv_entries s) k"

definition kv_has :: "kvstore \<Rightarrow> bytes \<Rightarrow> bool" where
  "kv_has s k \<longleftrightarrow> kv_get s k \<noteq> None"

text \<open>The entries that an iterator over a prefix store yields, the prefix stripped.\<close>

definition kv_prefix :: "kvstore \<Rightarrow> bytes \<Rightarrow> (bytes \<times> bytes) list" where
  "kv_prefix s p = map (\<lambda>(k, v). (drop (length p) k, v))
     (filter (\<lambda>(k, v). take (length p) k = p) (kv_entries s))"

lemma kv_entries_ascending: "ascending (kv_entries s)"
  using kv_entries [of s] by simp

lemma kv_get_empty [simp]: "kv_get kv_empty k = None"
  by (simp add: kv_get_def kv_empty.rep_eq)

lemma kv_ext: "(\<And>k. kv_get s k = kv_get t k) \<Longrightarrow> s = t"
proof -
  assume "\<And>k. kv_get s k = kv_get t k"
  then have eq: "map_of (kv_entries s) = map_of (kv_entries t)"
    by (simp add: kv_get_def fun_eq_iff)
  have "set (kv_entries s) = set (kv_entries t)"
    using eq by (simp add: map_of_inject_set ascending_distinct kv_entries_ascending)
  then have "kv_entries s = kv_entries t"
    by (intro ascending_unique kv_entries_ascending)
  then show "s = t"
    by (simp add: kv_entries_inject)
qed

lemma append_less_append_iff [simp]: "p @ xs < p @ (ys :: bytes) \<longleftrightarrow> xs < ys"
  by (induction p) auto

lemma ascending_strip:
  fixes p :: bytes
  shows "ascending es \<Longrightarrow> \<forall>(k, v) \<in> set es. take (length p) k = p \<Longrightarrow>
     ascending (map (\<lambda>(k, v). (drop (length p) k, v)) es)"
proof -
  assume asc: "ascending es" and pre: "\<forall>(k, v) \<in> set es. take (length p) k = p"
  have shorter: "drop (length p) k < drop (length p) k'"
    if "k < k'" "take (length p) k = p" "take (length p) k' = p" for k k' :: bytes
    using that by (metis append_less_append_iff append_take_drop_id)
  have "sorted_wrt (\<lambda>a b. fst a < fst b) es"
    using asc by (simp add: sorted_wrt_map)
  then have "sorted_wrt (\<lambda>a b. drop (length p) (fst a) < drop (length p) (fst b)) es"
    by (rule sorted_wrt_mono_rel [rotated]) (use pre shorter in \<open>auto simp: case_prod_beta\<close>)
  then show ?thesis
    by (simp add: sorted_wrt_map case_prod_beta)
qed

lemma kv_prefix_iff: "(k, v) \<in> set (kv_prefix s p) \<longleftrightarrow> kv_get s (p @ k) = Some v"
proof -
  have "kv_get s (p @ k) = Some v \<longleftrightarrow> (p @ k, v) \<in> set (kv_entries s)"
    unfolding kv_get_def
    by (rule map_of_eq_Some_iff [OF ascending_distinct [OF kv_entries_ascending]])
  also have "\<dots> \<longleftrightarrow> (k, v) \<in> set (kv_prefix s p)"
    by (auto simp: kv_prefix_def image_iff) (metis append_take_drop_id)
  finally show ?thesis by simp
qed

interpretation kvs: kv_contract kv_get kv_set kv_delete kv_prefix
proof
  show "kv_get (kv_set s k v) k' = (if k' = k then Some v else kv_get s k')" for s k v k'
    by (simp add: kv_get_def kv_set.rep_eq map_of_put_entry)
  show "kv_get (kv_delete s k) k' = (if k' = k then None else kv_get s k')" for s k k'
    by (simp add: kv_get_def kv_delete.rep_eq map_of_del_entry)
  show "(k, v) \<in> set (kv_prefix s p) \<longleftrightarrow> kv_get s (p @ k) = Some v" for s p k v
    by (rule kv_prefix_iff)
  show "ascending (kv_prefix s p)" for s p
    unfolding kv_prefix_def
    by (rule ascending_strip)
      (auto intro!: sorted_wrt_filter simp: sorted_wrt_map kv_entries_ascending [unfolded sorted_wrt_map])
qed

lemmas kv_simps [simp] = kvs.get_put kvs.get_del

lemma kv_has_set [simp]: "kv_has (kv_set s k v) k' \<longleftrightarrow> k' = k \<or> kv_has s k'"
  and kv_has_delete [simp]: "kv_has (kv_delete s k) k' \<longleftrightarrow> k' \<noteq> k \<and> kv_has s k'"
  by (simp_all add: kv_has_def)

lemma kv_has_empty [simp]: "\<not> kv_has kv_empty k"
  by (simp add: kv_has_def)

lemma kv_prefix_empty [simp]: "kv_prefix kv_empty p = []"
  by (simp add: kv_prefix_def kv_empty.rep_eq)

lemma kv_prefix_single: "kv_prefix (kv_set kv_empty (p @ k) v) p = [(k, v)]"
  by (rule ascending_unique [OF kvs.scan_ascending]) (auto simp: kvs.scan_put split: if_splits)

lemma kv_set_same: "kv_get s k = Some v \<Longrightarrow> kv_set s k v = s"
  by (rule kv_ext) simp

section \<open>The order of equally long keys\<close>

lemma less_bytes_iff:
  fixes xs ys :: bytes
  assumes "length xs = length ys"
  shows "xs < ys \<longleftrightarrow> be_value xs < be_value ys"
  using assms
proof (induction xs ys rule: list_induct2)
  case Nil
  then show ?case by simp
next
  case (Cons x xs y ys)
  let ?m = "256 ^ length xs :: nat"
  have small: "be_value xs < ?m" "be_value ys < ?m"
    using be_value_less [of xs] be_value_less [of ys] Cons.hyps by simp_all
  have carry: "a * ?m + u < b * ?m + v" if "a < b" "u < ?m" for a b u v :: nat
  proof -
    have "Suc a * ?m \<le> b * ?m"
      using that(1) by (intro mult_le_mono1) simp
    with that(2) show ?thesis by simp
  qed
  show ?case
  proof (cases x y rule: linorder_cases)
    case less
    then show ?thesis
      using carry small Cons.hyps by (simp add: word_less_nat_alt)
  next
    case equal
    then show ?thesis using Cons by simp
  next
    case greater
    then have "be_value (y # ys) < be_value (x # xs)"
      using carry small Cons.hyps by (simp add: word_less_nat_alt)
    then show ?thesis
      using greater by (auto simp: not_less_iff_gr_or_eq)
  qed
qed

lemma put_uint64_less: "put_uint64 v < put_uint64 w \<longleftrightarrow> v < w"
  by (simp add: less_bytes_iff be_value_put_uint64 word_less_nat_alt)

lemma less_append_same_length:
  fixes xs ys :: bytes
  assumes "length xs = length ys"
  shows "xs @ us < ys @ vs \<longleftrightarrow> xs < ys \<or> xs = ys \<and> us < vs"
  using assms by (induction xs ys rule: list_induct2) auto

end
