(* ===== verification/Sdk.thy ===== *)
theory Sdk
  imports KVStore
begin

text \<open>
  What the module sees of the chain it is built into.  Nothing of it is under \<open>src/\<close>: the Cosmos
  SDK's value types and address formats, and the bank, staking and wasm keepers that
  \<open>types/expected_keepers.go\<close> declares as interfaces.  All of it is a parameter of the model: the
  functions are fields of the records below, which the definitions of the later theories take as
  an argument, and the documented behaviour that a property relies on is one of the named
  predicates at the end of this theory.  The context (\<open>sdk.Context\<close>) is the state that calls
  thread.
\<close>

section \<open>Values\<close>

text \<open>
  \<open>math.Int\<close> is a pointer to an unbounded integer; the zero value has a nil pointer, which is the
  \<open>None\<close> of a coin's amount.  A \<open>sdk.Dec\<close> is a scaled integer, and its operations are parameters.
\<close>

record coin =
  denom :: string
  amount :: "int option"

abbreviation coin_of :: "string \<Rightarrow> int \<Rightarrow> coin" where
  "coin_of d a \<equiv> \<lparr>denom = d, amount = Some a\<rparr>"

text \<open>The zero value \<open>sdk.Coin{}\<close>.\<close>

definition empty_coin :: coin where
  "empty_coin = \<lparr>denom = '''', amount = None\<rparr>"

record wasm_coin =
  wasm_denom :: string
  wasm_amount :: string

type_synonym dec = int

text \<open>What the module reads of a staking validator.\<close>

record validator =
  OperatorAddress :: string
  commission_rate :: dec
  commission_max_rate :: dec
  commission_max_change_rate :: dec
  IsBonded :: bool
  DelegatorShares :: dec

text \<open>\<open>wasmvmtypes.Validator\<close>.\<close>

record WasmValidator =
  wv_Address :: string
  wv_Commission :: string
  wv_MaxCommission :: string
  wv_MaxChangeRate :: string

datatype bond_status = Unspecified | Unbonded | Unbonding | Bonded

record event =
  event_type :: string
  attributes :: "(string \<times> string) list"

section \<open>The context\<close>

text \<open>
  The fields: the module's persistent store (\<open>k.storeKey\<close>), its in-memory store (\<open>k.memKey\<close>), the
  state of all other modules, the events emitted so far, the header's height and time, and the gas
  meter.  Heights are Go's \<open>int64\<close>; the module only ever uses them as \<open>uint64\<close>.
\<close>

record 'x ctx =
  mstore :: kvstore
  mmem :: kvstore
  chain :: 'x
  emitted :: "event list"
  BlockHeight :: u64
  BlockTime :: u64
  gas_limit :: u64
  gas_used :: u64

definition EmitEvent :: "event \<Rightarrow> 'x ctx \<Rightarrow> 'x ctx" where
  "EmitEvent e c = c\<lparr>emitted := emitted c @ [e]\<rparr>"

lemma EmitEvent_simps [simp]:
  "mstore (EmitEvent e c) = mstore c" "mmem (EmitEvent e c) = mmem c"
  "chain (EmitEvent e c) = chain c" "emitted (EmitEvent e c) = emitted c @ [e]"
  "BlockHeight (EmitEvent e c) = BlockHeight c" "BlockTime (EmitEvent e c) = BlockTime c"
  "gas_limit (EmitEvent e c) = gas_limit c" "gas_used (EmitEvent e c) = gas_used c"
  by (simp_all add: EmitEvent_def)

text \<open>
  \<open>CacheContext\<close>: a branch of the stores with an event manager of its own.  Writing the branch
  back replaces the stores of the parent and emits the branch's events there; a branch that is not
  written leaves no trace but the gas, whose meter parent and branch share.
\<close>

definition open_cache :: "'x ctx \<Rightarrow> 'x ctx" where
  "open_cache p = p\<lparr>emitted := []\<rparr>"

definition write_cache :: "'x ctx \<Rightarrow> 'x ctx \<Rightarrow> 'x ctx" where
  "write_cache p c = p\<lparr>mstore := mstore c, mmem := mmem c, chain := chain c,
     emitted := emitted p @ emitted c, gas_used := gas_used c\<rparr>"

definition drop_cache :: "'x ctx \<Rightarrow> 'x ctx \<Rightarrow> 'x ctx" where
  "drop_cache p c = p\<lparr>gas_used := gas_used c\<rparr>"

text \<open>A call in a branch; it says with its value whether the branch is written (\<open>done()\<close>).\<close>

definition cached :: "('x ctx, bool \<times> 'a) call \<Rightarrow> ('x ctx, 'a) call" where
  "cached m = (\<lambda>p. case m (open_cache p) of
     (Ok (True, x), c) \<Rightarrow> (Ok x, write_cache p c)
   | (Ok (False, x), c) \<Rightarrow> (Ok x, drop_cache p c)
   | (Err e, c) \<Rightarrow> (Err e, drop_cache p c)
   | (Panic t, c) \<Rightarrow> (Panic t, drop_cache p c))"

lemma open_cache_simps [simp]:
  "mstore (open_cache p) = mstore p" "mmem (open_cache p) = mmem p" "chain (open_cache p) = chain p"
  "BlockHeight (open_cache p) = BlockHeight p" "BlockTime (open_cache p) = BlockTime p"
  "emitted (open_cache p) = []" "gas_used (open_cache p) = gas_used p"
  "gas_limit (open_cache p) = gas_limit p"
  by (simp_all add: open_cache_def)

lemma write_cache_simps [simp]:
  "mstore (write_cache p c) = mstore c" "mmem (write_cache p c) = mmem c"
  "chain (write_cache p c) = chain c" "BlockHeight (write_cache p c) = BlockHeight p"
  "BlockTime (write_cache p c) = BlockTime p" "emitted (write_cache p c) = emitted p @ emitted c"
  "gas_used (write_cache p c) = gas_used c" "gas_limit (write_cache p c) = gas_limit p"
  by (simp_all add: write_cache_def)

lemma drop_cache_simps [simp]:
  "mstore (drop_cache p c) = mstore p" "mmem (drop_cache p c) = mmem p"
  "chain (drop_cache p c) = chain p" "BlockHeight (drop_cache p c) = BlockHeight p"
  "BlockTime (drop_cache p c) = BlockTime p" "emitted (drop_cache p c) = emitted p"
  "gas_used (drop_cache p c) = gas_used c" "gas_limit (drop_cache p c) = gas_limit p"
  by (simp_all add: drop_cache_def)

lemma cached_Ok:
  "cached m p = (Ok x, p') \<longleftrightarrow>
     (\<exists>d c. m (open_cache p) = (Ok (d, x), c) \<and> p' = (if d then write_cache p c else drop_cache p c))"
  by (auto simp: cached_def split: prod.splits res.splits bool.splits)

lemma cached_not_Ok:
  assumes "cached m p = (r, p')" and "\<not> is_ok r"
  shows "\<exists>c. p' = drop_cache p c"
  using assms by (auto simp: cached_def split: prod.splits res.splits bool.splits)

section \<open>The library\<close>

record sdk_lib =
  int_add :: "int \<Rightarrow> int \<Rightarrow> int res"
  int_string :: "int \<Rightarrow> string"
  int_from_string :: "string \<Rightarrow> int option"
  int_marshal :: "int \<Rightarrow> bytes res"
  int_unmarshal :: "bytes \<Rightarrow> int res"
  ValidateDenom :: "string \<Rightarrow> bool"
  new_coin :: "string \<Rightarrow> int \<Rightarrow> coin res"
  coin_add :: "coin \<Rightarrow> coin \<Rightarrow> coin res"
  coin_sub :: "coin \<Rightarrow> coin \<Rightarrow> coin res"
  coin_is_lt :: "coin \<Rightarrow> coin \<Rightarrow> bool res"
  coin_validate :: "coin \<Rightarrow> unit res"
  coin_string :: "coin \<Rightarrow> string"
  new_coins :: "coin \<Rightarrow> coin list res"
  amount_of :: "coin list \<Rightarrow> string \<Rightarrow> int res"
  coin_equal :: "coin \<Rightarrow> coin \<Rightarrow> bool res"
  coin_size :: "coin \<Rightarrow> nat"
  coin_marshal_to :: "coin \<Rightarrow> bytes \<Rightarrow> (bytes \<times> nat) res"
  coin_unmarshal :: "coin \<Rightarrow> bytes \<Rightarrow> coin res"
  convert_wasm_coin :: "wasm_coin \<Rightarrow> coin res"
  convert_sdk_coin :: "coin \<Rightarrow> wasm_coin res"
  validator_json :: "WasmValidator \<Rightarrow> string"
  wasm_coin_json :: "wasm_coin \<Rightarrow> string"
  dec_quo :: "dec \<Rightarrow> dec \<Rightarrow> dec res"
  dec_mul_int :: "dec \<Rightarrow> int \<Rightarrow> dec res"
  dec_round_int :: "dec \<Rightarrow> int res"
  dec_string :: "dec \<Rightarrow> string"
  acc_from_bech32 :: "string \<Rightarrow> bytes res"
  acc_string :: "bytes \<Rightarrow> string"
  val_from_bech32 :: "string \<Rightarrow> bytes res"
  val_string :: "bytes \<Rightarrow> string"
  length_prefix :: "bytes \<Rightarrow> bytes res"
  uint64_be :: "u64 \<Rightarrow> bytes"
  be_uint64 :: "bytes \<Rightarrow> u64 res"

section \<open>The keepers\<close>

text \<open>
  \<open>types/expected_keepers.go\<close>, the methods that the module calls.  Reads are functions of the
  other modules' state; calls that may write thread the whole context, since hooks and contracts
  can call back into the module.
\<close>

record 'x SDKBankKeeper =
  MintCoins :: "string \<Rightarrow> coin list \<Rightarrow> ('x ctx, unit) call"
  BurnCoins :: "string \<Rightarrow> coin list \<Rightarrow> ('x ctx, unit) call"
  SendCoinsFromAccountToModule :: "bytes \<Rightarrow> string \<Rightarrow> coin list \<Rightarrow> ('x ctx, unit) call"
  SendCoinsFromModuleToAccount :: "string \<Rightarrow> bytes \<Rightarrow> coin list \<Rightarrow> ('x ctx, unit) call"
  UndelegateCoinsFromModuleToAccount :: "string \<Rightarrow> bytes \<Rightarrow> coin list \<Rightarrow> ('x ctx, unit) call"

record 'x XBankKeeper = "'x SDKBankKeeper" +
  AddSupplyOffset :: "string \<Rightarrow> int \<Rightarrow> ('x ctx, unit) call"

record 'x SDKStakingKeeper =
  BondDenom :: "'x \<Rightarrow> string"
  GetValidator :: "'x \<Rightarrow> bytes \<Rightarrow> validator option"
  GetOperator :: "validator \<Rightarrow> bytes"
  GetValidatorByConsAddr :: "'x \<Rightarrow> bytes \<Rightarrow> validator option"
  GetDelegation :: "'x \<Rightarrow> bytes \<Rightarrow> bytes \<Rightarrow> dec option"
  ValidateUnbondAmount :: "'x \<Rightarrow> bytes \<Rightarrow> bytes \<Rightarrow> int \<Rightarrow> dec res"
  StakingDelegate :: "bytes \<Rightarrow> int \<Rightarrow> bond_status \<Rightarrow> validator \<Rightarrow> bool \<Rightarrow> ('x ctx, dec) call"
  Unbond :: "bytes \<Rightarrow> bytes \<Rightarrow> dec \<Rightarrow> ('x ctx, int) call"

record 'x XStakingKeeper = "'x SDKStakingKeeper" +
  InstantUndelegate :: "bytes \<Rightarrow> bytes \<Rightarrow> dec \<Rightarrow> ('x ctx, coin list) call"

record 'x WasmKeeper =
  Sudo :: "bytes \<Rightarrow> bytes \<Rightarrow> ('x ctx, bytes) call"
  HasContractInfo :: "'x \<Rightarrow> bytes \<Rightarrow> bool"

section \<open>Documented behaviour\<close>

text \<open>Integers carry at most 256 bits; an operation whose result does not fit panics.\<close>

definition int_fits :: "int \<Rightarrow> bool" where
  "int_fits a \<longleftrightarrow> \<bar>a\<bar> < 2 ^ 256"

definition int_laws :: "sdk_lib \<Rightarrow> bool" where
  "int_laws L \<longleftrightarrow>
     (\<forall>a b. int_fits (a + b) \<longrightarrow> int_add L a b = Ok (a + b)) \<and>
     (\<forall>a b. \<not> int_fits (a + b) \<longrightarrow> (\<exists>p. int_add L a b = Panic p)) \<and>
     (\<forall>a. int_fits a \<longrightarrow> (\<exists>bz. int_marshal L a = Ok bz \<and> int_unmarshal L bz = Ok a)) \<and>
     (\<forall>bz a. int_unmarshal L bz = Ok a \<longrightarrow> int_fits a) \<and>
     (\<forall>a. int_from_string L (int_string L a) = Some a)"

text \<open>\<open>NewCoin\<close> panics on an invalid denomination or a negative amount, and operations on two
  coins panic when their denominations differ.\<close>

definition coin_laws :: "sdk_lib \<Rightarrow> bool" where
  "coin_laws L \<longleftrightarrow>
     (\<forall>d a. ValidateDenom L d \<and> 0 \<le> a \<longrightarrow> new_coin L d a = Ok (coin_of d a)) \<and>
     (\<forall>d a. \<not> (ValidateDenom L d \<and> 0 \<le> a) \<longrightarrow> (\<exists>p. new_coin L d a = Panic p)) \<and>
     (\<forall>d a b. coin_add L (coin_of d a) (coin_of d b) =
        bindR (int_add L a b) (\<lambda>c. Ok (coin_of d c))) \<and>
     (\<forall>d a b. b \<le> a \<longrightarrow> coin_sub L (coin_of d a) (coin_of d b) = Ok (coin_of d (a - b))) \<and>
     (\<forall>d a b. a < b \<longrightarrow> (\<exists>p. coin_sub L (coin_of d a) (coin_of d b) = Panic p)) \<and>
     (\<forall>d a b. coin_is_lt L (coin_of d a) (coin_of d b) = Ok (a < b))"

text \<open>\<open>address.MustLengthPrefix\<close> and the big-endian helpers of the SDK's \<open>types\<close> package.\<close>

definition layout_laws :: "sdk_lib \<Rightarrow> bool" where
  "layout_laws L \<longleftrightarrow>
     (\<forall>bs. bs \<noteq> [] \<and> length bs \<le> 255 \<longrightarrow> length_prefix L bs = Ok (word_of_nat (length bs) # bs)) \<and>
     (\<forall>bs. length bs > 255 \<longrightarrow> (\<exists>p. length_prefix L bs = Panic p)) \<and>
     length_prefix L [] = Ok [] \<and>
     (\<forall>w. uint64_be L w = put_uint64 w) \<and>
     (\<forall>bs. length bs = 8 \<longrightarrow> be_uint64 L bs = Ok (get_uint64 bs))"

lemma int_lawsD:
  assumes "int_laws L"
  shows "int_fits (a + b) \<Longrightarrow> int_add L a b = Ok (a + b)"
    and "\<not> int_fits (a + b) \<Longrightarrow> \<exists>p. int_add L a b = Panic p"
    and "int_fits a \<Longrightarrow> \<exists>bz. int_marshal L a = Ok bz \<and> int_unmarshal L bz = Ok a"
    and "int_from_string L (int_string L a) = Some a"
    and "int_unmarshal L bz = Ok b \<Longrightarrow> int_fits b"
  using assms by (auto simp: int_laws_def)

lemma int_add_result: "int_laws L \<Longrightarrow> int_add L a b = Ok c \<Longrightarrow> c = a + b \<and> int_fits c"
  by (cases "int_fits (a + b)") (auto dest: int_lawsD)

lemma coin_lawsD:
  assumes "coin_laws L"
  shows "ValidateDenom L d \<Longrightarrow> 0 \<le> a \<Longrightarrow> new_coin L d a = Ok (coin_of d a)"
    and "\<not> (ValidateDenom L d \<and> 0 \<le> a) \<Longrightarrow> \<exists>p. new_coin L d a = Panic p"
    and "coin_add L (coin_of d a) (coin_of d b) = bindR (int_add L a b) (\<lambda>c. Ok (coin_of d c))"
    and "b \<le> a \<Longrightarrow> coin_sub L (coin_of d a) (coin_of d b) = Ok (coin_of d (a - b))"
    and "a < b \<Longrightarrow> \<exists>p. coin_sub L (coin_of d a) (coin_of d b) = Panic p"
    and "coin_is_lt L (coin_of d a) (coin_of d b) = Ok (a < b)"
  using assms unfolding coin_laws_def by blast+

lemma new_coin_Ok: "coin_laws L \<Longrightarrow> new_coin L d a = Ok c \<longleftrightarrow> ValidateDenom L d \<and> 0 \<le> a \<and> c = coin_of d a"
  using coin_lawsD(1,2) [of L d a] by (cases "ValidateDenom L d \<and> 0 \<le> a") auto

lemma layout_lawsD:
  assumes "layout_laws L"
  shows "bs \<noteq> [] \<Longrightarrow> length bs \<le> 255 \<Longrightarrow> length_prefix L bs = Ok (word_of_nat (length bs) # bs)"
    and "length bs > 255 \<Longrightarrow> \<exists>p. length_prefix L bs = Panic p"
    and "length_prefix L [] = Ok []"
    and "uint64_be L w = put_uint64 w"
    and "length bs = 8 \<Longrightarrow> be_uint64 L bs = Ok (get_uint64 bs)"
  using assms by (auto simp: layout_laws_def)

end
