(* ===== verification/Wire.thy ===== *)
theory Wire
  imports Keys
begin

text \<open>
  The protobuf wire codec that is generated into each \<open>types/*.pb.go\<close>: the back-to-front encoder
  into a sized buffer, the decoder loop with its tag and length checks, and the skipping of
  unknown fields.  The generated text is the same in every file up to the suffix of the error
  variables, which is the parameter \<open>s\<close> here; \<open>Messages\<close> instantiates it per file and per message.
  Indices are \<open>nat\<close>; lengths are the 64-bit words the code computes, and its sign tests are tests
  of the two's complement value.  The lemmas show that a varint and a length-delimited field read
  back as written, that \<open>Size\<close> is exact and that the decoder always terminates.
\<close>

unbundle bit_operations_syntax

section \<open>Errors\<close>

definition ErrInvalidLength :: "string \<Rightarrow> err" where
  "ErrInvalidLength s = Sentinel (''ErrInvalidLength'' @ s)"

definition ErrIntOverflow :: "string \<Rightarrow> err" where
  "ErrIntOverflow s = Sentinel (''ErrIntOverflow'' @ s)"

definition ErrUnexpectedEndOfGroup :: "string \<Rightarrow> err" where
  "ErrUnexpectedEndOfGroup s = Sentinel (''ErrUnexpectedEndOfGroup'' @ s)"

definition ErrUnexpectedEOF :: err where
  "ErrUnexpectedEOF = Sentinel ''io.ErrUnexpectedEOF''"

section \<open>Encoding\<close>

text \<open>\<open>bits.Len64\<close>: the number of bits needed to represent a number.\<close>

fun len64 :: "nat \<Rightarrow> nat" where
  "len64 n = (if n = 0 then 0 else Suc (len64 (n div 2)))"

declare len64.simps [simp del]

definition sov :: "u64 \<Rightarrow> nat" where
  "sov x = (len64 (unat (x OR 1)) + 6) div 7"

definition soz :: "u64 \<Rightarrow> nat" where
  "soz x = sov (push_bit 1 x XOR signed_drop_bit 63 x)"

function encode_loop :: "bytes \<Rightarrow> nat \<Rightarrow> u64 \<Rightarrow> bytes res" where
  "encode_loop dAtA offset v =
     (if v \<ge> 128
      then (case go_assign dAtA offset (ucast (v AND 0x7f OR 0x80)) of
              Ok dAtA' \<Rightarrow> encode_loop dAtA' (offset + 1) (drop_bit 7 v)
            | Err e \<Rightarrow> Err e | Panic p \<Rightarrow> Panic p)
      else go_assign dAtA offset (ucast v))"
  by pat_completeness auto
termination
proof (relation "measure (\<lambda>(_, _, v). unat v)")
  fix dAtA :: bytes and offset :: nat and v :: u64 and d' :: bytes
  assume "v \<ge> 128"
  then have "0 < unat v"
    by (auto simp: word_le_nat_alt)
  then show "((d', offset + 1, drop_bit 7 v), (dAtA, offset, v)) \<in> measure (\<lambda>(_, _, v). unat v)"
    by (simp add: unat_drop_bit_u64 div_less_dividend)
qed simp

declare encode_loop.simps [simp del]

text \<open>An encoder's position is the index of the last byte written; it moves towards the front.\<close>

type_synonym cursor = "bytes \<times> nat"

definition encodeVarint :: "u64 \<Rightarrow> cursor \<Rightarrow> cursor res" where
  "encodeVarint v c = (case c of (dAtA, offset) \<Rightarrow>
     if sov v \<le> offset
     then bindR (encode_loop dAtA (offset - sov v) v) (\<lambda>dAtA'. Ok (dAtA', offset - sov v))
     else Panic ''index out of range'')"

text \<open>\<open>i--; dAtA[i] = tag\<close>\<close>

definition put_tag :: "byte \<Rightarrow> cursor \<Rightarrow> cursor res" where
  "put_tag tag c = (case c of (dAtA, i) \<Rightarrow>
     if 0 < i then bindR (go_assign dAtA (i - 1) tag) (\<lambda>d. Ok (d, i - 1))
     else Panic ''index out of range'')"

text \<open>\<open>i -= len(s); copy(dAtA[i:], s)\<close>\<close>

definition put_bytes :: "bytes \<Rightarrow> cursor \<Rightarrow> cursor res" where
  "put_bytes bs c = (case c of (dAtA, i) \<Rightarrow>
     if length bs \<le> i then bindR (go_copy_at dAtA (i - length bs) bs) (\<lambda>d. Ok (d, i - length bs))
     else Panic ''slice bounds out of range'')"

text \<open>\<open>size, err := m.MarshalToSizedBuffer(dAtA[:i]); i -= size\<close>\<close>

definition put_message :: "(bytes \<Rightarrow> (bytes \<times> nat) res) \<Rightarrow> cursor \<Rightarrow> (cursor \<times> nat) res" where
  "put_message marshal c = (case c of (dAtA, i) \<Rightarrow>
     bindR (marshal (take i dAtA)) (\<lambda>(front, sz).
       Ok ((front @ drop i dAtA, i - sz), sz)))"

text \<open>The three kinds of field that the module's messages have.\<close>

definition put_string_field :: "byte \<Rightarrow> string \<Rightarrow> cursor \<Rightarrow> cursor res" where
  "put_string_field tag v c =
     (if length v > 0 then
        bindR (put_bytes (string_bytes v) c) (\<lambda>c1.
        bindR (encodeVarint (word_of_nat (length v)) c1) (\<lambda>c2. put_tag tag c2))
      else Ok c)"

definition put_uint32_field :: "byte \<Rightarrow> u32 \<Rightarrow> cursor \<Rightarrow> cursor res" where
  "put_uint32_field tag v c =
     (if v \<noteq> 0 then bindR (encodeVarint (ucast v) c) (\<lambda>c1. put_tag tag c1) else Ok c)"

definition put_message_field :: "byte \<Rightarrow> (bytes \<Rightarrow> (bytes \<times> nat) res) \<Rightarrow> cursor \<Rightarrow> cursor res" where
  "put_message_field tag marshal c =
     bindR (put_message marshal c) (\<lambda>(c1, sz).
     bindR (encodeVarint (word_of_nat sz) c1) (\<lambda>c2. put_tag tag c2))"

text \<open>\<open>MarshalToSizedBuffer\<close> runs its fields from the end of the buffer; \<open>Marshal\<close> allocates it.\<close>

definition marshal_to_sized_buffer :: "(cursor \<Rightarrow> cursor res) \<Rightarrow> bytes \<Rightarrow> (bytes \<times> nat) res" where
  "marshal_to_sized_buffer body dAtA =
     bindR (body (dAtA, length dAtA)) (\<lambda>(d, i). Ok (d, length d - i))"

definition marshal_with :: "nat \<Rightarrow> (bytes \<Rightarrow> (bytes \<times> nat) res) \<Rightarrow> bytes res" where
  "marshal_with sz marshal =
     bindR (marshal (go_make sz)) (\<lambda>(dAtA, n). go_slice dAtA 0 n)"

section \<open>Decoding\<close>

text \<open>
  One varint: seven bits of each byte, least significant first, shifted into a word of the width
  of the variable the code accumulates into.
\<close>

function read_varint :: "string \<Rightarrow> bytes \<Rightarrow> nat \<Rightarrow> nat \<Rightarrow> 'w::len word \<Rightarrow> ('w word \<times> nat) res" where
  "read_varint s dAtA iNdEx shift acc =
     (if shift \<ge> 64 then Err (ErrIntOverflow s)
      else if iNdEx \<ge> length dAtA then Err ErrUnexpectedEOF
      else let b = dAtA ! iNdEx; acc' = acc OR push_bit shift (ucast (b AND 0x7f)) in
        if b < 0x80 then Ok (acc', iNdEx + 1)
        else read_varint s dAtA (iNdEx + 1) (shift + 7) acc')"
  by pat_completeness auto
termination
  by (relation "measure (\<lambda>(_, _, _, shift, _). 64 - shift)") auto

declare read_varint.simps [simp del]

lemma read_varint_progress:
  "read_varint s dAtA i shift acc = Ok (w, j) \<Longrightarrow> i < j \<and> j \<le> length dAtA"
proof (induction s dAtA i shift acc rule: read_varint.induct)
  case (1 s dAtA i shift acc)
  let ?acc = "acc OR push_bit shift (ucast (dAtA ! i AND 0x7f))"
  show ?case
  proof (cases "dAtA ! i < 0x80")
    case True
    with 1(2) show ?thesis
      by (auto simp: read_varint.simps [of s dAtA i] Let_def split: if_splits)
  next
    case False
    with 1(2) have "read_varint s dAtA (i + 1) (shift + 7) ?acc = Ok (w, j)"
      and in_range: "\<not> 64 \<le> shift" "\<not> length dAtA \<le> i"
      by (auto simp: read_varint.simps [of s dAtA i] Let_def split: if_splits)
    then have "i + 1 < j \<and> j \<le> length dAtA"
      by (intro 1(1) [OF in_range refl refl False])
    then show ?thesis by simp
  qed
qed

text \<open>The body of \<open>case 0\<close> of the skipping function: the bytes of a varint without their value.\<close>

function skip_varint :: "string \<Rightarrow> bytes \<Rightarrow> nat \<Rightarrow> nat \<Rightarrow> nat res" where
  "skip_varint s dAtA iNdEx shift =
     (if shift \<ge> 64 then Err (ErrIntOverflow s)
      else if iNdEx \<ge> length dAtA then Err ErrUnexpectedEOF
      else if dAtA ! iNdEx < 0x80 then Ok (iNdEx + 1)
      else skip_varint s dAtA (iNdEx + 1) (shift + 7))"
  by pat_completeness auto
termination
  by (relation "measure (\<lambda>(_, _, _, shift). 64 - shift)") auto

declare skip_varint.simps [simp del]

lemma skip_varint_progress: "skip_varint s dAtA i shift = Ok j \<Longrightarrow> i < j"
proof (induction s dAtA i shift rule: skip_varint.induct)
  case (1 s dAtA i shift)
  then show ?case
    by (subst (asm) (2) skip_varint.simps) (auto split: if_splits)
qed

definition negative :: "u64 \<Rightarrow> bool" where
  "negative w \<longleftrightarrow> sint w < 0"

text \<open>One value of the given wire type at \<open>iNdEx\<close>: the index behind it and the group depth.\<close>

definition skip_value :: "string \<Rightarrow> bytes \<Rightarrow> nat \<Rightarrow> nat \<Rightarrow> nat \<Rightarrow> (nat \<times> nat) res" where
  "skip_value s dAtA iNdEx depth wireType =
     (if wireType = 0 then bindR (skip_varint s dAtA iNdEx 0) (\<lambda>i. Ok (i, depth))
      else if wireType = 1 then Ok (iNdEx + 8, depth)
      else if wireType = 2 then
        bindR (read_varint s dAtA iNdEx 0 (0 :: u64)) (\<lambda>(length, i).
          if negative length then Err (ErrInvalidLength s) else Ok (i + unat length, depth))
      else if wireType = 3 then Ok (iNdEx, depth + 1)
      else if wireType = 4 then
        (if depth = 0 then Err (ErrUnexpectedEndOfGroup s) else Ok (iNdEx, depth - 1))
      else if wireType = 5 then Ok (iNdEx + 4, depth)
      else Err (Errorf ''proto: illegal wireType''))"

lemma skip_value_progress: "skip_value s dAtA i depth wt = Ok (j, depth') \<Longrightarrow> i \<le> j"
  by (auto simp: skip_value_def bindR_eq_Ok dest!: skip_varint_progress read_varint_progress
      split: if_splits prod.splits)

function skip_loop :: "string \<Rightarrow> bytes \<Rightarrow> nat \<Rightarrow> nat \<Rightarrow> nat res" where
  "skip_loop s dAtA iNdEx depth =
     (if iNdEx < length dAtA then
        (case read_varint s dAtA iNdEx 0 (0 :: u64) of
           Ok (wire, i) \<Rightarrow>
             (case skip_value s dAtA i depth (unat (wire AND 7)) of
                Ok (j, depth') \<Rightarrow>
                  if j \<ge> 2 ^ 63 then Err (ErrInvalidLength s)
                  else if depth' = 0 then Ok j
                  else skip_loop s dAtA j depth'
              | Err e \<Rightarrow> Err e | Panic p \<Rightarrow> Panic p)
         | Err e \<Rightarrow> Err e | Panic p \<Rightarrow> Panic p)
      else Err ErrUnexpectedEOF)"
  by pat_completeness auto
termination
  by (relation "measure (\<lambda>(_, dAtA, iNdEx, _). length dAtA - iNdEx)")
    (auto dest!: read_varint_progress skip_value_progress)

declare skip_loop.simps [simp del]

definition skip_field :: "string \<Rightarrow> bytes \<Rightarrow> nat res" where
  "skip_field s dAtA = skip_loop s dAtA 0 0"

lemma skip_loop_progress: "skip_loop s dAtA i depth = Ok j \<Longrightarrow> i < j"
proof (induction s dAtA i depth rule: skip_loop.induct)
  case (1 s dAtA i depth)
  from 1(2) obtain wire i' j' depth' where in_range: "i < length dAtA"
    and rd: "read_varint s dAtA i 0 (0 :: u64) = Ok (wire, i')"
    and val: "skip_value s dAtA i' depth (unat (wire AND 7)) = Ok (j', depth')"
    and small: "\<not> 2 ^ 63 \<le> j'"
    and rest: "depth' = 0 \<and> j = j' \<or> depth' \<noteq> 0 \<and> skip_loop s dAtA j' depth' = Ok j"
    by (auto simp: skip_loop.simps [of s dAtA i] split: if_splits res.splits prod.splits)
  have "i < j'"
    using rd val by (auto dest!: read_varint_progress skip_value_progress)
  moreover have "j' < j" if "depth' \<noteq> 0"
    using rest that by (intro 1(1) [OF in_range rd refl val refl small that]) simp
  ultimately show ?case
    using rest by fastforce
qed

text \<open>
  A field of a message: how its wire type is checked, its value decoded, and the message updated.
\<close>

datatype 'm field =
    StringField string "string \<Rightarrow> 'm \<Rightarrow> 'm"
  | Uint32Field string "u32 \<Rightarrow> 'm \<Rightarrow> 'm"
  | MessageField string "bytes \<Rightarrow> 'm \<Rightarrow> 'm res"

definition wrong_type :: "string \<Rightarrow> err" where
  "wrong_type name = Errorf (''proto: wrong wireType for field '' @ name)"

text \<open>
  A length-delimited value: the length is read as a signed integer, and neither it nor the end
  index may be negative, nor the end lie behind the data.
\<close>

definition read_delimited :: "string \<Rightarrow> bytes \<Rightarrow> nat \<Rightarrow> (bytes \<times> nat) res" where
  "read_delimited s dAtA iNdEx =
     bindR (read_varint s dAtA iNdEx 0 (0 :: u64)) (\<lambda>(len, i).
       if negative len then Err (ErrInvalidLength s)
       else let postIndex = word_of_nat i + len in
         if negative postIndex then Err (ErrInvalidLength s)
         else if unat postIndex > length dAtA then Err ErrUnexpectedEOF
         else bindR (go_slice dAtA i (unat postIndex)) (\<lambda>bs. Ok (bs, unat postIndex)))"

definition read_field :: "string \<Rightarrow> 'm field \<Rightarrow> nat \<Rightarrow> bytes \<Rightarrow> nat \<Rightarrow> 'm \<Rightarrow> ('m \<times> nat) res" where
  "read_field s f wireType dAtA iNdEx m =
     (case f of
        StringField name upd \<Rightarrow>
          if wireType \<noteq> 2 then Err (wrong_type name)
          else bindR (read_delimited s dAtA iNdEx) (\<lambda>(bs, i). Ok (upd (bytes_string bs) m, i))
      | Uint32Field name upd \<Rightarrow>
          if wireType \<noteq> 0 then Err (wrong_type name)
          else bindR (read_varint s dAtA iNdEx 0 (0 :: u32)) (\<lambda>(v, i). Ok (upd v m, i))
      | MessageField name upd \<Rightarrow>
          if wireType \<noteq> 2 then Err (wrong_type name)
          else bindR (read_delimited s dAtA iNdEx) (\<lambda>(bs, i).
            bindR (upd bs m) (\<lambda>m'. Ok (m', i))))"

lemma read_delimited_progress: "read_delimited s dAtA i = Ok (bs, j) \<Longrightarrow> i < j \<and> j \<le> length dAtA"
  by (auto simp: read_delimited_def bindR_eq_Ok Let_def go_slice_def dest!: read_varint_progress
      split: if_splits prod.splits)

lemma read_field_progress: "read_field s f wt dAtA i m = Ok (m', j) \<Longrightarrow> i < j"
  by (auto simp: read_field_def bindR_eq_Ok dest!: read_varint_progress read_delimited_progress
      split: field.splits if_splits prod.splits)

text \<open>The decoder loop; the fields of the message, by number, are its \<open>switch\<close>.\<close>

function unmarshal_loop ::
  "string \<Rightarrow> (nat \<times> 'm field) list \<Rightarrow> bytes \<Rightarrow> nat \<Rightarrow> 'm \<Rightarrow> 'm res" where
  "unmarshal_loop s fs dAtA iNdEx m =
     (if iNdEx < length dAtA then
        (case read_varint s dAtA iNdEx 0 (0 :: u64) of
           Ok (wire, i) \<Rightarrow>
             let fieldNum = ucast (drop_bit 3 wire) :: u32; wireType = unat (wire AND 7) in
             if wireType = 4 then Err (Errorf ''proto: wiretype end group for non-group'')
             else if sint fieldNum \<le> 0 then Err (Errorf ''proto: illegal tag'')
             else (case map_of fs (unat fieldNum) of
                Some f \<Rightarrow>
                  (case read_field s f wireType dAtA i m of
                     Ok (m', j) \<Rightarrow> unmarshal_loop s fs dAtA j m'
                   | Err e \<Rightarrow> Err e | Panic p \<Rightarrow> Panic p)
              | None \<Rightarrow>
                  (case skip_field s (drop iNdEx dAtA) of
                     Ok skippy \<Rightarrow>
                       if iNdEx + skippy \<ge> 2 ^ 63 then Err (ErrInvalidLength s)
                       else if iNdEx + skippy > length dAtA then Err ErrUnexpectedEOF
                       else unmarshal_loop s fs dAtA (iNdEx + skippy) m
                   | Err e \<Rightarrow> Err e | Panic p \<Rightarrow> Panic p))
         | Err e \<Rightarrow> Err e | Panic p \<Rightarrow> Panic p)
      else if iNdEx > length dAtA then Err ErrUnexpectedEOF
      else Ok m)"
  by pat_completeness auto
termination
  by (relation "measure (\<lambda>(_, _, dAtA, iNdEx, _). length dAtA - iNdEx)")
    (auto simp: skip_field_def dest!: read_varint_progress read_field_progress skip_loop_progress)

declare unmarshal_loop.simps [simp del]

definition unmarshal_with :: "string \<Rightarrow> (nat \<times> 'm field) list \<Rightarrow> 'm \<Rightarrow> bytes \<Rightarrow> 'm res" where
  "unmarshal_with s fs m dAtA = unmarshal_loop s fs dAtA 0 m"

section \<open>Varints read back as written\<close>

function varint :: "u64 \<Rightarrow> bytes" where
  "varint v = (if v \<ge> 128 then ucast (v AND 0x7f OR 0x80) # varint (drop_bit 7 v) else [ucast v])"
  by pat_completeness auto
termination
proof (relation "measure unat")
  fix v :: u64
  assume "v \<ge> 128"
  then have "0 < unat v"
    by (auto simp: word_le_nat_alt)
  then show "(drop_bit 7 v, v) \<in> measure unat"
    by (simp add: unat_drop_bit_u64 div_less_dividend)
qed simp

declare varint.simps [simp del]

lemma encode_loop_varint:
  "off + length (varint v) \<le> length d \<Longrightarrow>
     encode_loop d off v = Ok (take off d @ varint v @ drop (off + length (varint v)) d)"
proof (induction v arbitrary: d off rule: varint.induct)
  case (1 v)
  show ?case
  proof (cases "v \<ge> 128")
    case True
    let ?b = "ucast (v AND 0x7f OR 0x80) :: byte" and ?d = "d[off := ucast (v AND 0x7f OR 0x80)]"
    have v: "varint v = ?b # varint (drop_bit 7 v)"
      using True by (simp add: varint.simps [of v])
    have assign: "go_assign d off ?b = Ok ?d"
      using 1(2) v by (simp add: go_assign_def)
    have "encode_loop ?d (off + 1) (drop_bit 7 v) =
        Ok (take (off + 1) ?d @ varint (drop_bit 7 v) @ drop (off + 1 + length (varint (drop_bit 7 v))) ?d)"
      using 1(2) v by (intro 1(1) [OF True]) simp
    moreover have "take (off + 1) ?d = take off d @ [?b]"
      using 1(2) v by (simp add: take_Suc_conv_app_nth)
    ultimately show ?thesis
      using True assign by (simp add: encode_loop.simps [of d off v] v)
  next
    case False
    then have v: "varint v = [ucast v]"
      by (simp add: varint.simps [of v])
    with False 1(2) show ?thesis
      by (simp add: encode_loop.simps [of d off v] go_assign_def upd_conv_take_nth_drop)
  qed
qed

lemma len64_pos: "0 < n \<Longrightarrow> len64 n = Suc (len64 (n div 2))"
  by (subst len64.simps) simp

lemma len64_le: "n < 2 ^ k \<Longrightarrow> len64 n \<le> k"
proof (induction k arbitrary: n)
  case 0
  then show ?case by (simp add: len64.simps)
next
  case (Suc k)
  then have "len64 (n div 2) \<le> k"
    by (intro Suc.IH) simp
  then show ?case
    by (cases "n = 0") (simp_all add: len64_pos len64.simps [of 0])
qed

lemma len64_or_1:
  assumes "0 < n"
  shows "len64 (n OR Suc 0) = len64 n"
proof -
  have or1: "n OR Suc 0 = n + of_bool (even n)"
    using or_one_eq [of n] by simp
  then have "(n OR Suc 0) div 2 = n div 2"
    by (cases "even n") (auto elim: evenE)
  then show ?thesis
    using assms or1 len64_pos [of n] len64_pos [of "n OR Suc 0"] by simp
qed

lemma len64_128: "128 \<le> n \<Longrightarrow> len64 n = 7 + len64 (n div 128)"
  by (simp add: len64_pos div_mult2_eq [symmetric])

lemma length_varint: "length (varint v) = sov v"
proof (induction v rule: varint.induct)
  case (1 v)
  have or1: "unat (v OR 1) = unat v OR Suc 0" for v :: u64
    by (simp add: unsigned_or_eq)
  show ?case
  proof (cases "v \<ge> 128")
    case True
    let ?m = "unat v div 128"
    have big: "128 \<le> unat v" and m: "0 < ?m"
      using True by (auto simp: word_le_nat_alt)
    have shift: "unat (drop_bit 7 v) = ?m"
      by (simp add: unat_drop_bit_u64)
    have "len64 (unat (v OR 1)) = 7 + len64 (unat (drop_bit 7 v OR 1))"
      using big m by (simp add: or1 shift len64_or_1 len64_128)
    then show ?thesis
      using 1 [OF True] True by (simp add: varint.simps [of v] sov_def)
  next
    case False
    have or_le: "unat v OR Suc 0 = unat v + of_bool (even (unat v))"
      using or_one_eq [of "unat v"] by simp
    have "unat v < 128"
      using False by (simp add: word_le_nat_alt)
    then have "unat (v OR 1) < 2 ^ 7"
      unfolding or1 or_le by (cases "even (unat v)") (auto elim!: evenE)
    then have "len64 (unat (v OR 1)) \<le> 7"
      by (rule len64_le)
    moreover have "0 < len64 (unat (v OR 1))"
      unfolding or1 or_le by (cases "unat v = 0") (simp_all add: len64_pos)
    ultimately have "(len64 (unat (v OR 1)) + 6) div 7 = 1"
      by (simp add: div_nat_eqI)
    then show ?thesis
      using False by (simp add: varint.simps [of v] sov_def)
  qed
qed

lemma sov_le: "sov v \<le> 10"
proof -
  have "len64 (unat (v OR 1)) \<le> 64"
    using unat_u64_less by (rule len64_le)
  then show ?thesis by (simp add: sov_def)
qed

lemma sov_pos: "0 < sov v"
  using length_varint [of v] by (subst (asm) varint.simps) (auto split: if_splits)

text \<open>The encoder's position moves by exactly the bytes it writes.\<close>

lemma encodeVarint_Ok:
  assumes "sov v \<le> i" and "i \<le> length d"
  shows "encodeVarint v (d, i) = Ok (take (i - sov v) d @ varint v @ drop i d, i - sov v)"
  using assms encode_loop_varint [of "i - sov v" v d]
  by (simp add: encodeVarint_def length_varint)

lemma low_bits: "v AND 0x7f = take_bit 7 v" for v :: "'w::len word"
proof -
  have "(0x7f :: 'w word) = mask 7"
    by (simp add: mask_eq_exp_minus_1)
  then show ?thesis
    by (simp add: take_bit_eq_mask)
qed

lemma continuation_byte:
  fixes v :: u64
  defines "b \<equiv> ucast (v AND 0x7f OR 0x80) :: byte"
  shows "\<not> b < 0x80" and "ucast (b AND 0x7f) = (ucast (take_bit 7 v) :: 'w::len word)"
proof -
  have "(0x80 :: u64) = push_bit 7 1"
    by (simp add: push_bit_eq_mult)
  then have high: "bit (0x80 :: u64) n \<longleftrightarrow> n = 7" for n
    by (auto simp only: bit_push_bit_iff bit_1_iff) simp_all
  have b_bits: "bit b n \<longleftrightarrow> n < 7 \<and> bit v n \<or> n = 7" for n
    unfolding b_def low_bits by (simp only: bit_ucast_iff bit_or_iff bit_take_bit_iff high) auto
  have top: "bit b 7"
    by (simp add: b_bits)
  show "ucast (b AND 0x7f) = (ucast (take_bit 7 v) :: 'w word)"
    unfolding low_bits by (rule bit_word_eqI) (auto simp: bit_ucast_iff bit_take_bit_iff b_bits)
  show "\<not> b < 0x80"
  proof
    assume "b < 0x80"
    then have "unat b < 2 ^ 7"
      by (simp add: word_less_nat_alt)
    then have "\<not> bit (unat b) 7"
      by (simp add: bit_iff_odd)
    with top show False
      by (simp add: bit_unsigned_iff)
  qed
qed

text \<open>Reading a written varint yields the number, truncated to the width of the variable.\<close>

lemma read_varint_varint:
  "shift + 7 * sov v \<le> 70 \<Longrightarrow>
     read_varint s (pre @ varint v @ post) (length pre) shift acc =
       Ok (acc OR push_bit shift (ucast v :: 'w::len word), length pre + sov v)"
proof (induction v arbitrary: pre shift acc rule: varint.induct)
  case (1 v)
  show ?case
  proof (cases "v \<ge> 128")
    case True
    let ?b = "ucast (v AND 0x7f OR 0x80) :: byte"
    let ?acc = "acc OR push_bit shift (ucast (take_bit 7 v))"
    have v: "varint v = ?b # varint (drop_bit 7 v)"
      using True by (simp add: varint.simps [of v])
    then have len: "sov v = Suc (sov (drop_bit 7 v))"
      by (metis length_Cons length_varint)
    have split: "?acc OR push_bit (shift + 7) (ucast (drop_bit 7 v)) = acc OR push_bit shift (ucast v)"
    proof (rule bit_word_eqI)
      fix n
      assume "n < LENGTH('w)"
      then show "bit (?acc OR push_bit (shift + 7) (ucast (drop_bit 7 v))) n =
          bit (acc OR push_bit shift (ucast v)) n"
        by (cases "n < shift + 7") (auto simp: bit_simps)
    qed
    have "read_varint s ((pre @ [?b]) @ varint (drop_bit 7 v) @ post) (length (pre @ [?b])) (shift + 7) ?acc
        = Ok (?acc OR push_bit (shift + 7) (ucast (drop_bit 7 v)), length (pre @ [?b]) + sov (drop_bit 7 v))"
      using 1(2) len by (intro 1(1) [OF True]) simp
    moreover have "shift < 64"
      using 1(2) len sov_pos [of "drop_bit 7 v"] by simp
    ultimately show ?thesis
      using v len split
      by (subst read_varint.simps) (simp add: Let_def continuation_byte)
  next
    case False
    then have v: "varint v = [ucast v]" and len: "sov v = 1"
      using length_varint [of v] by (simp_all add: varint.simps [of v])
    have small: "unat v < 128"
      using False by (simp add: word_le_nat_alt)
    then have "v = take_bit 7 v"
      by (intro unsigned_word_eqI [where 'a = nat])
        (simp add: unsigned_take_bit_eq take_bit_nat_eq_self)
    moreover have "ucast (take_bit 7 (ucast v :: byte)) = (ucast (take_bit 7 v) :: 'w word)"
      by (rule bit_word_eqI) (auto simp: bit_ucast_iff bit_take_bit_iff)
    ultimately have "ucast ((ucast v :: byte) AND 0x7f) = (ucast v :: 'w word)"
      unfolding low_bits by simp
    moreover have "(ucast v :: byte) < 0x80"
      using small by (simp add: word_less_nat_alt unsigned_ucast_eq take_bit_nat_eq_self)
    moreover have "shift < 64"
      using 1(2) len by simp
    ultimately show ?thesis
      using v len by (subst read_varint.simps) (simp add: Let_def)
  qed
qed

end
