(* ===== verification/WireFields.thy ===== *)
theory WireFields
  imports Wire
begin

text \<open>
  What the generated codec does with one field and with a whole message.  A field writer is
  specified by the bytes it puts in front of the cursor, a decoder step by the bytes it consumes;
  from the two follows the contract of a message type, the locale \<open>wire_message\<close>, whose
  consequence is that \<open>Marshal\<close> never panics, fills its buffer exactly and is inverted by
  \<open>Unmarshal\<close>.
\<close>

section \<open>Writers\<close>

definition writes :: "(cursor \<Rightarrow> cursor res) \<Rightarrow> bytes \<Rightarrow> bool" where
  "writes f w \<longleftrightarrow> (\<forall>d i. length w \<le> i \<longrightarrow> i \<le> length d \<longrightarrow>
     f (d, i) = Ok (take (i - length w) d @ w @ drop i d, i - length w))"

definition sized :: "(bytes \<Rightarrow> (bytes \<times> nat) res) \<Rightarrow> bytes \<Rightarrow> bool" where
  "sized marshal w \<longleftrightarrow> (\<forall>d. length w \<le> length d \<longrightarrow>
     marshal d = Ok (take (length d - length w) d @ w, length w))"

lemma writesD: "writes f w \<Longrightarrow> length w \<le> i \<Longrightarrow> i \<le> length d \<Longrightarrow>
    f (d, i) = Ok (take (i - length w) d @ w @ drop i d, i - length w)"
  by (simp add: writes_def)

lemma sizedD: "sized m w \<Longrightarrow> length w \<le> length d \<Longrightarrow>
    m d = Ok (take (length d - length w) d @ w, length w)"
  by (simp add: sized_def)

lemma writes_skip: "writes Ok []"
  by (simp add: writes_def)

lemma writes_then:
  assumes f: "writes f w" and g: "writes g v"
  shows "writes (\<lambda>c. bindR (f c) g) (v @ w)"
  unfolding writes_def
proof (intro allI impI)
  fix d :: bytes and i
  assume len: "length (v @ w) \<le> i" "i \<le> length d"
  let ?d = "take (i - length w) d @ w @ drop i d"
  have "f (d, i) = Ok (?d, i - length w)"
    using len by (intro writesD [OF f]) simp_all
  moreover have "g (?d, i - length w) =
      Ok (take (i - length w - length v) ?d @ v @ drop (i - length w) ?d, i - length w - length v)"
    using len by (intro writesD [OF g]) simp_all
  ultimately show "bindR (f (d, i)) g =
      Ok (take (i - length (v @ w)) d @ (v @ w) @ drop i d, i - length (v @ w))"
    using len by (simp add: min_def) (simp add: add.commute)
qed

lemma writes_varint: "writes (encodeVarint v) (varint v)"
  by (simp add: writes_def encodeVarint_Ok length_varint)

lemma writes_tag: "writes (put_tag t) [t]"
  by (auto simp: writes_def put_tag_def go_assign_def upd_conv_take_nth_drop)

lemma writes_bytes: "writes (put_bytes bs) bs"
  by (auto simp: writes_def put_bytes_def go_copy_at_def)

text \<open>The bytes of the three kinds of field.\<close>

definition delimited :: "byte \<Rightarrow> bytes \<Rightarrow> bytes" where
  "delimited tag w = [tag] @ varint (word_of_nat (length w)) @ w"

definition string_field :: "byte \<Rightarrow> string \<Rightarrow> bytes" where
  "string_field tag v = (if v = '''' then [] else delimited tag (string_bytes v))"

definition uint32_field :: "byte \<Rightarrow> u32 \<Rightarrow> bytes" where
  "uint32_field tag v = (if v = 0 then [] else [tag] @ varint (ucast v))"

lemma writes_string_field: "writes (put_string_field tag v) (string_field tag v)"
proof (cases "v = ''''")
  case True
  then have "put_string_field tag v = Ok"
    by (simp add: put_string_field_def fun_eq_iff)
  with True show ?thesis
    by (simp add: string_field_def writes_skip)
next
  case False
  have "writes (\<lambda>c. bindR (bindR (put_bytes (string_bytes v) c) (encodeVarint (word_of_nat (length v)))) (put_tag tag))
      ([tag] @ varint (word_of_nat (length v)) @ string_bytes v)"
    by (intro writes_then writes_bytes writes_varint writes_tag)
  moreover have "put_string_field tag v = (\<lambda>c. bindR (put_bytes (string_bytes v) c) (\<lambda>c1.
      bindR (encodeVarint (word_of_nat (length v)) c1) (put_tag tag)))"
    using False by (intro ext) (simp add: put_string_field_def)
  ultimately show ?thesis
    using False by (simp add: string_field_def delimited_def bindR_assoc)
qed

lemma writes_uint32_field: "writes (put_uint32_field tag v) (uint32_field tag v)"
proof (cases "v = 0")
  case True
  then have "put_uint32_field tag v = Ok"
    by (simp add: put_uint32_field_def fun_eq_iff)
  with True show ?thesis
    by (simp add: uint32_field_def writes_skip)
next
  case False
  then have "put_uint32_field tag v = (\<lambda>c. bindR (encodeVarint (ucast v) c) (put_tag tag))"
    by (intro ext) (simp add: put_uint32_field_def)
  with False show ?thesis
    using writes_then [OF writes_varint writes_tag, of "ucast v" tag]
    by (simp add: uint32_field_def)
qed

lemma writes_message_field:
  assumes m: "sized marshal w"
  shows "writes (put_message_field tag marshal) (delimited tag w)"
  unfolding writes_def
proof (intro allI impI)
  fix d :: bytes and i
  assume len: "length (delimited tag w) \<le> i" "i \<le> length d"
  let ?v = "varint (word_of_nat (length w))"
  let ?d = "take (i - length w) d @ w @ drop i d"
  have "marshal (take i d) = Ok (take (i - length w) d @ w, length w)"
    using sizedD [OF m, of "take i d"] len by (simp add: delimited_def min_def)
  then have "put_message marshal (d, i) = Ok ((?d, i - length w), length w)"
    by (simp add: put_message_def)
  then have "put_message_field tag marshal (d, i) =
      bindR (encodeVarint (word_of_nat (length w)) (?d, i - length w)) (put_tag tag)"
    by (simp add: put_message_field_def)
  also have "\<dots> = Ok (take (i - length w - length ([tag] @ ?v)) ?d @ ([tag] @ ?v) @ drop (i - length w) ?d,
      i - length w - length ([tag] @ ?v))"
    using len by (intro writesD [OF writes_then [OF writes_varint writes_tag]]) (simp_all add: delimited_def)
  finally show "put_message_field tag marshal (d, i) =
      Ok (take (i - length (delimited tag w)) d @ delimited tag w @ drop i d, i - length (delimited tag w))"
    using len by (simp add: delimited_def min_def) (simp add: add.commute)
qed

lemma sized_of_writes: "writes f w \<Longrightarrow> sized (marshal_to_sized_buffer f) w"
  by (simp add: sized_def marshal_to_sized_buffer_def writesD)

lemma marshal_with_sized:
  assumes "sized m w" and "sz = length w"
  shows "marshal_with sz m = Ok w"
  using sizedD [OF assms(1), of "go_make sz"] assms(2)
  by (simp add: marshal_with_def go_slice_def)

section \<open>Decoder steps\<close>

lemma read_tag:
  assumes "tag < 0x80"
  shows "read_varint s (pre @ tag # post) (length pre) 0 (0 :: u64) = Ok (ucast tag, length pre + 1)"
proof -
  have "take_bit 7 tag = tag"
    using assms by (intro unsigned_word_eqI [where 'a = nat])
      (simp add: unsigned_take_bit_eq take_bit_nat_eq_self word_less_nat_alt)
  with assms show ?thesis
    by (subst read_varint.simps) (simp add: Let_def low_bits)
qed

lemma sint_small:
  fixes w :: "'w::len word"
  assumes "unat w < 2 ^ (LENGTH('w) - 1)"
  shows "sint w = int (unat w)"
proof -
  let ?k = "LENGTH('w) - 1"
  have "int (unat w) < int (2 ^ ?k)"
    using assms by (simp only: of_nat_less_iff)
  then have hi: "int (unat w) < 2 ^ ?k"
    by (simp only: of_nat_power of_nat_numeral)
  have "- (2 ^ ?k) \<le> int (unat w)"
    by (rule order.trans [of _ 0]) simp_all
  with hi have "signed_take_bit ?k (int (unat w)) = int (unat w)"
    by (simp only: signed_take_bit_int_eq_self_iff)
  then show ?thesis
    by (simp only: sint_uint unsigned_of_nat uint_nat One_nat_def)
qed

text \<open>A tag is the field number times eight plus the wire type.\<close>

lemma tag_parts:
  fixes tag :: byte
  assumes "tag < 0x80"
  shows "unat (ucast (drop_bit 3 (ucast tag :: u64)) :: u32) = unat tag div 8"
    and "unat ((ucast tag :: u64) AND 7) = unat tag mod 8"
    and "0 < unat tag div 8 \<Longrightarrow> \<not> sint (ucast (drop_bit 3 (ucast tag :: u64)) :: u32) \<le> 0"
proof -
  have small: "unat tag < 128"
    using assms by (simp add: word_less_nat_alt)
  then have wide: "unat (ucast tag :: u64) = unat tag"
    by (simp add: unsigned_ucast_eq take_bit_nat_eq_self)
  show num: "unat (ucast (drop_bit 3 (ucast tag :: u64)) :: u32) = unat tag div 8"
    using small by (simp add: unsigned_ucast_eq unat_drop_bit_u64 wide take_bit_nat_eq_self)
  have low: "(ucast tag :: u64) AND 7 = take_bit 3 (ucast tag)"
    by (simp add: take_bit_eq_mask mask_eq_exp_minus_1)
  show "unat ((ucast tag :: u64) AND 7) = unat tag mod 8"
    unfolding low unsigned_take_bit_eq wide by (simp add: take_bit_eq_mod)
  assume "0 < unat tag div 8"
  moreover have "sint (ucast (drop_bit 3 (ucast tag :: u64)) :: u32) = int (unat tag div 8)"
    using sint_small [of "ucast (drop_bit 3 (ucast tag :: u64)) :: u32"] small unfolding num by simp
  ultimately show "\<not> sint (ucast (drop_bit 3 (ucast tag :: u64)) :: u32) \<le> 0"
    by simp
qed

lemma unmarshal_step:
  assumes tag: "tag < 0x80" "0 < unat tag div 8" "unat tag mod 8 \<noteq> 4"
    and f: "map_of fs (unat tag div 8) = Some f"
    and rd: "read_field s f (unat tag mod 8) (pre @ tag # w @ post) (length pre + 1) m
      = Ok (m', length pre + 1 + length w)"
  shows "unmarshal_loop s fs (pre @ tag # w @ post) (length pre) m =
    unmarshal_loop s fs (pre @ tag # w @ post) (length pre + 1 + length w) m'"
  using assms
  by (subst unmarshal_loop.simps) (simp add: read_tag tag_parts Let_def)

lemma unmarshal_end: "unmarshal_loop s fs d (length d) m = Ok m"
  by (simp add: unmarshal_loop.simps)

lemma not_negative: "n < 2 ^ 63 \<Longrightarrow> \<not> negative (word_of_nat n)"
  using sint_small [of "word_of_nat n :: u64"] by (simp add: negative_def unat_of_nat)

lemma read_delimited_varint:
  assumes "length (pre @ varint (word_of_nat (length w)) @ w @ post) < 2 ^ 63"
  shows "read_delimited s (pre @ varint (word_of_nat (length w)) @ w @ post) (length pre)
    = Ok (w, length pre + sov (word_of_nat (length w)) + length w)"
proof -
  let ?n = "word_of_nat (length w) :: u64"
  let ?i = "length pre + sov ?n"
  have i: "?i + length w < 2 ^ 63"
    using assms by (simp add: length_varint)
  have "word_of_nat ?i + ?n = (word_of_nat (?i + length w) :: u64)"
    by simp
  then have post: "\<not> negative (word_of_nat ?i + ?n)" "unat (word_of_nat ?i + ?n :: u64) = ?i + length w"
    using i not_negative [of "?i + length w"] by (simp_all only: unat_of_nat) simp_all
  have "read_varint s (pre @ varint ?n @ w @ post) (length pre) 0 (0 :: u64) = Ok (?n, ?i)"
    using read_varint_varint [of 0 ?n s pre "w @ post" "0 :: u64"] sov_le [of ?n] by simp
  moreover have "\<not> negative ?n"
    using i by (intro not_negative) simp
  moreover have "go_slice (pre @ varint ?n @ w @ post) ?i (?i + length w) = Ok w"
    using go_slice_is [of ?i "pre @ varint ?n" "?i + length w" w post] by (simp add: length_varint)
  ultimately show ?thesis
    using post by (simp only: read_delimited_def bindR_simps Let_def prod.case if_False)
      (simp add: length_varint)
qed

text \<open>The three kinds of field, consumed whole by one step of the loop.\<close>

definition tag_of :: "nat \<Rightarrow> nat \<Rightarrow> byte \<Rightarrow> bool" where
  "tag_of n wt tag \<longleftrightarrow> tag < 0x80 \<and> unat tag div 8 = n \<and> unat tag mod 8 = wt \<and> 0 < n"

lemma unmarshal_string_field:
  assumes tag: "tag_of n 2 tag" and f: "map_of fs n = Some (StringField name upd)"
    and keep: "v = '''' \<Longrightarrow> upd v m = m"
    and d: "d = pre @ string_field tag v @ post" and len: "length d < 2 ^ 63"
  shows "unmarshal_loop s fs d (length pre) m =
    unmarshal_loop s fs d (length (pre @ string_field tag v)) (upd v m)"
proof (cases "v = ''''")
  case True
  then show ?thesis
    using keep by (simp add: string_field_def)
next
  case False
  let ?w = "varint (word_of_nat (length (string_bytes v))) @ string_bytes v"
  have d': "d = pre @ tag # ?w @ post"
    using d False by (simp add: string_field_def delimited_def)
  have "read_delimited s ((pre @ [tag]) @ ?w @ post) (length (pre @ [tag]))
      = Ok (string_bytes v, length (pre @ [tag]) + length ?w)"
    using read_delimited_varint [of "pre @ [tag]" "string_bytes v" post s] len
    by (simp add: d' length_varint)
  then have "unmarshal_loop s fs d (length pre) m = unmarshal_loop s fs d (length pre + 1 + length ?w) (upd v m)"
    unfolding d' using tag f
    by (intro unmarshal_step) (auto simp: tag_of_def read_field_def)
  then show ?thesis
    using False by (simp add: string_field_def delimited_def)
qed

lemma unmarshal_message_field:
  assumes tag: "tag_of n 2 tag" and f: "map_of fs n = Some (MessageField name upd)"
    and upd: "upd w m = Ok m'"
    and d: "d = pre @ delimited tag w @ post" and len: "length d < 2 ^ 63"
  shows "unmarshal_loop s fs d (length pre) m =
    unmarshal_loop s fs d (length (pre @ delimited tag w)) m'"
proof -
  let ?w = "varint (word_of_nat (length w)) @ w"
  have d': "d = pre @ tag # ?w @ post"
    using d by (simp add: delimited_def)
  have "read_delimited s ((pre @ [tag]) @ ?w @ post) (length (pre @ [tag]))
      = Ok (w, length (pre @ [tag]) + length ?w)"
    using read_delimited_varint [of "pre @ [tag]" w post s] len
    by (simp add: d' length_varint)
  then have "unmarshal_loop s fs d (length pre) m = unmarshal_loop s fs d (length pre + 1 + length ?w) m'"
    unfolding d' using tag f upd
    by (intro unmarshal_step) (auto simp: tag_of_def read_field_def)
  then show ?thesis
    by (simp add: delimited_def)
qed

lemma unmarshal_uint32_field:
  assumes tag: "tag_of n 0 tag" and f: "map_of fs n = Some (Uint32Field name upd)"
    and keep: "v = 0 \<Longrightarrow> upd v m = m"
    and d: "d = pre @ uint32_field tag v @ post"
  shows "unmarshal_loop s fs d (length pre) m =
    unmarshal_loop s fs d (length (pre @ uint32_field tag v)) (upd v m)"
proof (cases "v = 0")
  case True
  then show ?thesis
    using keep by (simp add: uint32_field_def)
next
  case False
  let ?w = "varint (ucast v)"
  have d': "d = pre @ tag # ?w @ post"
    using d False by (simp add: uint32_field_def)
  have "ucast (ucast v :: u64) = v"
    by (rule bit_word_eqI) (auto simp: bit_ucast_iff)
  then have "read_varint s ((pre @ [tag]) @ ?w @ post) (length (pre @ [tag])) 0 (0 :: u32)
      = Ok (v, length (pre @ [tag]) + sov (ucast v))"
    using read_varint_varint [of 0 "ucast v" s "pre @ [tag]" post "0 :: u32"] sov_le [of "ucast v"]
    by simp
  then have "unmarshal_loop s fs d (length pre) m = unmarshal_loop s fs d (length pre + 1 + length ?w) (upd v m)"
    unfolding d' using tag f
    by (intro unmarshal_step) (auto simp: tag_of_def read_field_def length_varint)
  then show ?thesis
    using False by (simp add: uint32_field_def)
qed

section \<open>Whole messages\<close>

text \<open>
  \<open>decodes s fs m w m'\<close>: wherever the bytes \<open>w\<close> stand in the data, the loop consumes them and goes
  on with \<open>m'\<close> in place of \<open>m\<close>.
\<close>

definition decodes ::
  "string \<Rightarrow> (nat \<times> 'm field) list \<Rightarrow> 'm \<Rightarrow> bytes \<Rightarrow> 'm \<Rightarrow> bool" where
  "decodes s fs m w m' \<longleftrightarrow> (\<forall>pre post. length (pre @ w @ post) < 2 ^ 63 \<longrightarrow>
     unmarshal_loop s fs (pre @ w @ post) (length pre) m =
     unmarshal_loop s fs (pre @ w @ post) (length (pre @ w)) m')"

lemma decodes_nil: "decodes s fs m [] m"
  by (simp add: decodes_def)

lemma decodes_append:
  assumes w: "decodes s fs m w m'" and v: "decodes s fs m' v m''"
  shows "decodes s fs m (w @ v) m''"
  unfolding decodes_def
proof (intro allI impI)
  fix pre post :: bytes
  assume len: "length (pre @ (w @ v) @ post) < 2 ^ 63"
  let ?d = "pre @ w @ v @ post"
  have "unmarshal_loop s fs ?d (length pre) m = unmarshal_loop s fs ?d (length (pre @ w)) m'"
    using w len unfolding decodes_def append_assoc by blast
  also have "\<dots> = unmarshal_loop s fs ?d (length ((pre @ w) @ v)) m''"
    using v len unfolding decodes_def append_assoc by (metis append_assoc)
  finally show "unmarshal_loop s fs (pre @ (w @ v) @ post) (length pre) m =
      unmarshal_loop s fs (pre @ (w @ v) @ post) (length (pre @ w @ v)) m''"
    by simp
qed

lemma decodes_string:
  assumes "tag_of n 2 tag" and "map_of fs n = Some f" and "f = StringField name upd"
    and "v = '''' \<Longrightarrow> upd v m = m"
  shows "decodes s fs m (string_field tag v) (upd v m)"
  unfolding decodes_def by (intro allI impI unmarshal_string_field [OF assms(1)]) (use assms in auto)

lemma decodes_message:
  assumes "tag_of n 2 tag" and "map_of fs n = Some f" and "f = MessageField name upd"
    and "upd w m = Ok m'"
  shows "decodes s fs m (delimited tag w) m'"
  unfolding decodes_def
  by (intro allI impI unmarshal_message_field [where upd = upd and name = name, OF assms(1)])
    (use assms in auto)

text \<open>An embedded message is decoded on top of the value the field already has.\<close>

definition nested :: "string \<Rightarrow> ('a \<Rightarrow> bytes \<Rightarrow> 'a res) \<Rightarrow> ('m \<Rightarrow> 'a) \<Rightarrow> ('a \<Rightarrow> 'm \<Rightarrow> 'm) \<Rightarrow> 'm field" where
  "nested name dec get put = MessageField name (\<lambda>bs m. bindR (dec (get m) bs) (\<lambda>c. Ok (put c m)))"

lemma decodes_nested:
  assumes "tag_of n 2 tag" and "map_of fs n = Some (nested name dec get put)"
    and "dec (get m) w = Ok c"
  shows "decodes s fs m (delimited tag w) (put c m)"
  using assms(3) by (intro decodes_message [OF assms(1,2) nested_def]) simp

lemma field_1: "fs = (1, f) # r \<Longrightarrow> map_of fs 1 = Some f"
  and field_2: "fs = (1, f1) # (2, f) # r \<Longrightarrow> map_of fs 2 = Some f"
  and field_3: "fs = (1, f1) # (2, f2) # (3, f) # r \<Longrightarrow> map_of fs (3 :: nat) = Some f"
  by simp_all

lemma tag_of_tags:
  "tag_of 1 2 0xa" "tag_of 2 2 0x12" "tag_of 3 2 0x1a" "tag_of 2 0 0x10" "tag_of 3 0 0x18"
  by (simp_all add: tag_of_def)

lemma decodes_uint32:
  assumes "tag_of n 0 tag" and "map_of fs n = Some f" and "f = Uint32Field name upd"
    and "v = 0 \<Longrightarrow> upd v m = m"
  shows "decodes s fs m (uint32_field tag v) (upd v m)"
  unfolding decodes_def by (intro allI impI unmarshal_uint32_field [OF assms(1)]) (use assms in auto)

lemma decodes_whole:
  assumes "decodes s fs zero w m'" and "length w < 2 ^ 63" and "m' = m"
  shows "unmarshal_with s fs zero w = Ok m"
proof -
  have "unmarshal_loop s fs ([] @ w @ []) (length ([] :: bytes)) zero =
      unmarshal_loop s fs ([] @ w @ []) (length ([] @ w)) m'"
    using assms(1,2) unfolding decodes_def by (metis append_Nil append_Nil2)
  then show ?thesis
    using assms(3) by (simp add: unmarshal_with_def unmarshal_end)
qed

section \<open>The contract of a message type\<close>

text \<open>
  What the generated methods of one message promise, for the values that \<open>good\<close> admits: \<open>Size\<close>
  and \<open>MarshalToSizedBuffer\<close> agree on the bytes \<open>wire m\<close>, and decoding them into the zero value
  gives the message back.
\<close>

locale wire_message =
  fixes Size :: "'m \<Rightarrow> nat"
    and MarshalToSizedBuffer :: "'m \<Rightarrow> bytes \<Rightarrow> (bytes \<times> nat) res"
    and Unmarshal :: "'m \<Rightarrow> bytes \<Rightarrow> 'm res"
    and zero :: 'm
    and wire :: "'m \<Rightarrow> bytes"
    and good :: "'m \<Rightarrow> bool"
  assumes size_wire: "good m \<Longrightarrow> Size m = length (wire m)"
    and sized_wire: "good m \<Longrightarrow> sized (MarshalToSizedBuffer m) (wire m)"
    and unmarshal_wire: "good m \<Longrightarrow> Unmarshal zero (wire m) = Ok m"
begin

lemma marshal_wire: "good m \<Longrightarrow> marshal_with (Size m) (MarshalToSizedBuffer m) = Ok (wire m)"
  by (simp add: marshal_with_sized sized_wire size_wire)

lemma roundtrip:
  "good m \<Longrightarrow> bindR (marshal_with (Size m) (MarshalToSizedBuffer m)) (Unmarshal zero) = Ok m"
  by (simp add: marshal_wire unmarshal_wire)

lemma marshals: "good m \<Longrightarrow>
    \<exists>w. marshal_with (Size m) (MarshalToSizedBuffer m) = Ok w \<and> length w = Size m \<and> Unmarshal zero w = Ok m"
  using marshal_wire unmarshal_wire size_wire by metis

lemma wire_inject: "good m \<Longrightarrow> good m' \<Longrightarrow> wire m = wire m' \<longleftrightarrow> m = m'"
  by (metis unmarshal_wire res.inject(1))

lemma exact_buffer:
  "good m \<Longrightarrow> MarshalToSizedBuffer m (go_make (Size m)) = Ok (wire m, Size m)"
  using sizedD [OF sized_wire, of m "go_make (Size m)"] by (simp add: size_wire)

end

end
