(* ===== verification/Messages.thy ===== *)
theory Messages
  imports WireFields
begin

text \<open>
  The messages that the module stores: \<open>types/meshsecurity.pb.go\<close>, \<open>types/scheduler.pb.go\<close> and
  \<open>types/genesis.pb.go\<close>.  Each message is a record with the generated \<open>Size\<close>,
  \<open>MarshalToSizedBuffer\<close>, \<open>MarshalTo\<close>, \<open>Marshal\<close>, \<open>Unmarshal\<close> and \<open>Equal\<close>; the interpretations of
  \<open>wire_message\<close> show that each of them decodes what it encodes.  The codec of the SDK's \<open>Coin\<close> is
  not under \<open>src/\<close>: it is a parameter, and \<open>coin_ok\<close> states that it encodes and decodes a coin.
\<close>

section \<open>Coins on the wire\<close>

definition coin_bytes :: "sdk_lib \<Rightarrow> coin \<Rightarrow> bytes" where
  "coin_bytes L c = (case coin_marshal_to L c (go_make (coin_size L c)) of Ok (w, _) \<Rightarrow> w | _ \<Rightarrow> [])"

definition coin_ok :: "sdk_lib \<Rightarrow> coin \<Rightarrow> bool" where
  "coin_ok L c \<longleftrightarrow> coin_size L c = length (coin_bytes L c) \<and>
     sized (coin_marshal_to L c) (coin_bytes L c) \<and>
     coin_unmarshal L empty_coin (coin_bytes L c) = Ok c"

lemma coin_okD:
  assumes "coin_ok L c"
  shows "coin_size L c = length (coin_bytes L c)"
    and "sized (coin_marshal_to L c) (coin_bytes L c)"
    and "coin_unmarshal L empty_coin (coin_bytes L c) = Ok c"
  using assms by (simp_all add: coin_ok_def)

section \<open>The shape of a generated message\<close>

text \<open>The encoded size of a field: its tag, and for a delimited one the length and the value.\<close>

definition delimited_size :: "nat \<Rightarrow> nat" where
  "delimited_size l = 1 + l + sov (word_of_nat l)"

definition string_size :: "string \<Rightarrow> nat" where
  "string_size v = (if length v > 0 then delimited_size (length v) else 0)"

definition uint32_size :: "u32 \<Rightarrow> nat" where
  "uint32_size v = (if v \<noteq> 0 then 1 + sov (ucast v) else 0)"

lemma delimited_size: "delimited_size (length w) = length (delimited tag w)"
  by (simp add: delimited_size_def delimited_def length_varint)

lemma string_size: "string_size v = length (string_field tag v)"
  using delimited_size [of "string_bytes v" tag] by (simp add: string_size_def string_field_def)

lemma uint32_size: "uint32_size v = length (uint32_field tag v)"
  by (simp add: uint32_size_def uint32_field_def length_varint)

text \<open>\<open>MarshalTo\<close> writes into the front of a buffer of the caller's.\<close>

definition marshal_to :: "nat \<Rightarrow> (bytes \<Rightarrow> (bytes \<times> nat) res) \<Rightarrow> bytes \<Rightarrow> (bytes \<times> nat) res" where
  "marshal_to sz marshal dAtA =
     bindR (go_slice dAtA 0 sz) (\<lambda>front.
     bindR (marshal front) (\<lambda>(d, n). Ok (d @ drop sz dAtA, n)))"

text \<open>
  The argument of a generated \<open>Equal\<close> is an \<open>interface{}\<close>: nil, a pointer to the message type
  (possibly nil), a value of it, or something else.  The receiver is a pointer.
\<close>

datatype 'm iface = NilInterface | Pointer "'m option" | Struct 'm | OtherType

definition iface_equal :: "('m \<Rightarrow> 'm \<Rightarrow> bool res) \<Rightarrow> 'm option \<Rightarrow> 'm iface \<Rightarrow> bool res" where
  "iface_equal cmp this that =
     (case (case that of NilInterface \<Rightarrow> Some None | Pointer p \<Rightarrow> Some p
                       | Struct m \<Rightarrow> Some (Some m) | OtherType \<Rightarrow> None) of
        None \<Rightarrow> Ok False
      | Some None \<Rightarrow> Ok (this = None)
      | Some (Some that1) \<Rightarrow> (case this of None \<Rightarrow> Ok False | Some m \<Rightarrow> cmp m that1))"

definition andR :: "bool res \<Rightarrow> bool res \<Rightarrow> bool res" where
  "andR a b = bindR a (\<lambda>x. if x then b else Ok False)"

lemma andR_simps [simp]:
  "andR (Ok x) b = (if x then b else Ok False)" "andR (Err e) b = Err e" "andR (Panic p) b = Panic p"
  by (simp_all add: andR_def)

section \<open>VirtualStakingMaxCapInfo\<close>

record VirtualStakingMaxCapInfo =
  info_Contract :: string
  info_Delegated :: coin
  info_Cap :: coin

definition empty_info :: VirtualStakingMaxCapInfo where
  "empty_info = \<lparr>info_Contract = '''', info_Delegated = empty_coin, info_Cap = empty_coin\<rparr>"

definition info_Equal ::
  "sdk_lib \<Rightarrow> VirtualStakingMaxCapInfo option \<Rightarrow> VirtualStakingMaxCapInfo iface \<Rightarrow> bool res" where
  "info_Equal L = iface_equal (\<lambda>this that1.
     andR (Ok (info_Contract this = info_Contract that1))
       (andR (coin_equal L (info_Delegated this) (info_Delegated that1))
         (coin_equal L (info_Cap this) (info_Cap that1))))"

definition info_MarshalToSizedBuffer ::
  "sdk_lib \<Rightarrow> VirtualStakingMaxCapInfo \<Rightarrow> bytes \<Rightarrow> (bytes \<times> nat) res" where
  "info_MarshalToSizedBuffer L m = marshal_to_sized_buffer (\<lambda>i.
     bindR (put_message_field 0x1a (coin_marshal_to L (info_Cap m)) i) (\<lambda>i.
     bindR (put_message_field 0x12 (coin_marshal_to L (info_Delegated m)) i)
       (put_string_field 0xa (info_Contract m))))"

definition info_Size :: "sdk_lib \<Rightarrow> VirtualStakingMaxCapInfo \<Rightarrow> nat" where
  "info_Size L m = string_size (info_Contract m)
     + delimited_size (coin_size L (info_Delegated m)) + delimited_size (coin_size L (info_Cap m))"

definition info_MarshalTo ::
  "sdk_lib \<Rightarrow> VirtualStakingMaxCapInfo \<Rightarrow> bytes \<Rightarrow> (bytes \<times> nat) res" where
  "info_MarshalTo L m = marshal_to (info_Size L m) (info_MarshalToSizedBuffer L m)"

definition info_Marshal :: "sdk_lib \<Rightarrow> VirtualStakingMaxCapInfo \<Rightarrow> bytes res" where
  "info_Marshal L m = marshal_with (info_Size L m) (info_MarshalToSizedBuffer L m)"

definition info_fields :: "sdk_lib \<Rightarrow> (nat \<times> VirtualStakingMaxCapInfo field) list" where
  "info_fields L =
     [(1, StringField ''Contract'' (\<lambda>v. info_Contract_update (\<lambda>_. v))),
      (2, nested ''Delegated'' (coin_unmarshal L) info_Delegated (\<lambda>c. info_Delegated_update (\<lambda>_. c))),
      (3, nested ''Cap'' (coin_unmarshal L) info_Cap (\<lambda>c. info_Cap_update (\<lambda>_. c)))]"

definition info_Unmarshal ::
  "sdk_lib \<Rightarrow> VirtualStakingMaxCapInfo \<Rightarrow> bytes \<Rightarrow> VirtualStakingMaxCapInfo res" where
  "info_Unmarshal L = unmarshal_with ''Meshsecurity'' (info_fields L)"

definition info_wire :: "sdk_lib \<Rightarrow> VirtualStakingMaxCapInfo \<Rightarrow> bytes" where
  "info_wire L m = string_field 0xa (info_Contract m)
     @ delimited 0x12 (coin_bytes L (info_Delegated m)) @ delimited 0x1a (coin_bytes L (info_Cap m))"

definition info_good :: "sdk_lib \<Rightarrow> VirtualStakingMaxCapInfo \<Rightarrow> bool" where
  "info_good L m \<longleftrightarrow> coin_ok L (info_Delegated m) \<and> coin_ok L (info_Cap m) \<and> length (info_wire L m) < 2 ^ 63"

lemma info_sized: "info_good L m \<Longrightarrow> sized (info_MarshalToSizedBuffer L m) (info_wire L m)"
  unfolding info_MarshalToSizedBuffer_def info_wire_def info_good_def append_assoc [symmetric]
  by (intro sized_of_writes writes_then writes_message_field writes_string_field coin_okD) simp_all

lemma info_decodes:
  assumes "info_good L m"
  shows "info_Unmarshal L empty_info (info_wire L m) = Ok m"
  unfolding info_Unmarshal_def
proof (rule decodes_whole)
  show "decodes ''Meshsecurity'' (info_fields L) empty_info (info_wire L m)
      (info_Cap_update (\<lambda>_. info_Cap m) (info_Delegated_update (\<lambda>_. info_Delegated m)
        (info_Contract_update (\<lambda>_. info_Contract m) empty_info)))"
    unfolding info_wire_def
    by (rule decodes_append decodes_string [OF tag_of_tags(1) field_1 [OF info_fields_def] refl]
        decodes_nested [OF tag_of_tags(2) field_2 [OF info_fields_def]]
        decodes_nested [OF tag_of_tags(3) field_3 [OF info_fields_def]]
      | simp add: assms [unfolded info_good_def] empty_info_def coin_okD)+
qed (use assms in \<open>simp_all add: info_good_def\<close>)

interpretation info: wire_message "info_Size L" "info_MarshalToSizedBuffer L" "info_Unmarshal L"
    empty_info "info_wire L" "info_good L" for L
proof
  fix m
  assume good: "info_good L m"
  then show "info_Size L m = length (info_wire L m)"
    by (simp add: info_good_def info_Size_def info_wire_def coin_okD
        string_size [of _ "0xa"]
        delimited_size [of "coin_bytes L (info_Delegated m)" "0x12"]
        delimited_size [of "coin_bytes L (info_Cap m)" "0x1a"])
  show "sized (info_MarshalToSizedBuffer L m) (info_wire L m)"
    using good by (rule info_sized)
  show "info_Unmarshal L empty_info (info_wire L m) = Ok m"
    using good by (rule info_decodes)
qed

section \<open>Params\<close>

record Params =
  TotalContractsMaxCap :: coin
  EpochLength :: u32
  MaxGasEndBlocker :: u32

definition empty_Params :: Params where
  "empty_Params = \<lparr>TotalContractsMaxCap = empty_coin, EpochLength = 0, MaxGasEndBlocker = 0\<rparr>"

definition Params_Equal :: "sdk_lib \<Rightarrow> Params option \<Rightarrow> Params iface \<Rightarrow> bool res" where
  "Params_Equal L = iface_equal (\<lambda>this that1.
     andR (coin_equal L (TotalContractsMaxCap this) (TotalContractsMaxCap that1))
       (andR (Ok (EpochLength this = EpochLength that1))
         (Ok (MaxGasEndBlocker this = MaxGasEndBlocker that1))))"

definition Params_MarshalToSizedBuffer :: "sdk_lib \<Rightarrow> Params \<Rightarrow> bytes \<Rightarrow> (bytes \<times> nat) res" where
  "Params_MarshalToSizedBuffer L m = marshal_to_sized_buffer (\<lambda>i.
     bindR (put_uint32_field 0x18 (MaxGasEndBlocker m) i) (\<lambda>i.
     bindR (put_uint32_field 0x10 (EpochLength m) i)
       (put_message_field 0xa (coin_marshal_to L (TotalContractsMaxCap m)))))"

definition Params_Size :: "sdk_lib \<Rightarrow> Params \<Rightarrow> nat" where
  "Params_Size L m = delimited_size (coin_size L (TotalContractsMaxCap m))
     + uint32_size (EpochLength m) + uint32_size (MaxGasEndBlocker m)"

definition Params_MarshalTo :: "sdk_lib \<Rightarrow> Params \<Rightarrow> bytes \<Rightarrow> (bytes \<times> nat) res" where
  "Params_MarshalTo L m = marshal_to (Params_Size L m) (Params_MarshalToSizedBuffer L m)"

definition Params_Marshal :: "sdk_lib \<Rightarrow> Params \<Rightarrow> bytes res" where
  "Params_Marshal L m = marshal_with (Params_Size L m) (Params_MarshalToSizedBuffer L m)"

definition Params_fields :: "sdk_lib \<Rightarrow> (nat \<times> Params field) list" where
  "Params_fields L =
     [(1, nested ''TotalContractsMaxCap'' (coin_unmarshal L) TotalContractsMaxCap
        (\<lambda>c. TotalContractsMaxCap_update (\<lambda>_. c))),
      (2, Uint32Field ''EpochLength'' (\<lambda>v. EpochLength_update (\<lambda>_. v))),
      (3, Uint32Field ''MaxGasEndBlocker'' (\<lambda>v. MaxGasEndBlocker_update (\<lambda>_. v)))]"

definition Params_Unmarshal :: "sdk_lib \<Rightarrow> Params \<Rightarrow> bytes \<Rightarrow> Params res" where
  "Params_Unmarshal L = unmarshal_with ''Meshsecurity'' (Params_fields L)"

definition Params_wire :: "sdk_lib \<Rightarrow> Params \<Rightarrow> bytes" where
  "Params_wire L m = delimited 0xa (coin_bytes L (TotalContractsMaxCap m))
     @ uint32_field 0x10 (EpochLength m) @ uint32_field 0x18 (MaxGasEndBlocker m)"

definition Params_good :: "sdk_lib \<Rightarrow> Params \<Rightarrow> bool" where
  "Params_good L m \<longleftrightarrow> coin_ok L (TotalContractsMaxCap m) \<and> length (Params_wire L m) < 2 ^ 63"

lemma Params_sized: "Params_good L m \<Longrightarrow> sized (Params_MarshalToSizedBuffer L m) (Params_wire L m)"
  unfolding Params_MarshalToSizedBuffer_def Params_wire_def Params_good_def append_assoc [symmetric]
  by (intro sized_of_writes writes_then writes_message_field writes_uint32_field coin_okD) simp_all

lemma Params_decodes:
  assumes "Params_good L m"
  shows "Params_Unmarshal L empty_Params (Params_wire L m) = Ok m"
  unfolding Params_Unmarshal_def
proof (rule decodes_whole)
  show "decodes ''Meshsecurity'' (Params_fields L) empty_Params (Params_wire L m)
      (MaxGasEndBlocker_update (\<lambda>_. MaxGasEndBlocker m) (EpochLength_update (\<lambda>_. EpochLength m)
        (TotalContractsMaxCap_update (\<lambda>_. TotalContractsMaxCap m) empty_Params)))"
    unfolding Params_wire_def
    by (rule decodes_append decodes_nested [OF tag_of_tags(1) field_1 [OF Params_fields_def]]
        decodes_uint32 [OF tag_of_tags(4) field_2 [OF Params_fields_def] refl]
        decodes_uint32 [OF tag_of_tags(5) field_3 [OF Params_fields_def] refl]
      | simp add: assms [unfolded Params_good_def] empty_Params_def coin_okD)+
qed (use assms in \<open>simp_all add: Params_good_def\<close>)

interpretation Params: wire_message "Params_Size L" "Params_MarshalToSizedBuffer L"
    "Params_Unmarshal L" empty_Params "Params_wire L" "Params_good L" for L
proof
  fix m
  assume good: "Params_good L m"
  then show "Params_Size L m = length (Params_wire L m)"
    by (simp add: Params_good_def Params_Size_def Params_wire_def coin_okD
        delimited_size [of _ "0xa"] uint32_size [of "EpochLength m" "0x10"]
        uint32_size [of "MaxGasEndBlocker m" "0x18"])
qed (simp_all add: Params_sized Params_decodes)

section \<open>ValidatorAddress\<close>

text \<open>The payload type of \<open>scheduler.pb.go\<close>.\<close>

record ValidatorAddress =
  va_Address :: string

definition empty_va :: ValidatorAddress where
  "empty_va = \<lparr>va_Address = ''''\<rparr>"

definition va_MarshalToSizedBuffer :: "ValidatorAddress \<Rightarrow> bytes \<Rightarrow> (bytes \<times> nat) res" where
  "va_MarshalToSizedBuffer m = marshal_to_sized_buffer (put_string_field 0xa (va_Address m))"

definition va_Size :: "ValidatorAddress \<Rightarrow> nat" where
  "va_Size m = string_size (va_Address m)"

definition va_MarshalTo :: "ValidatorAddress \<Rightarrow> bytes \<Rightarrow> (bytes \<times> nat) res" where
  "va_MarshalTo m = marshal_to (va_Size m) (va_MarshalToSizedBuffer m)"

definition va_Marshal :: "ValidatorAddress \<Rightarrow> bytes res" where
  "va_Marshal m = marshal_with (va_Size m) (va_MarshalToSizedBuffer m)"

definition va_fields :: "(nat \<times> ValidatorAddress field) list" where
  "va_fields = [(1, StringField ''Address'' (\<lambda>v. va_Address_update (\<lambda>_. v)))]"

definition va_Unmarshal :: "ValidatorAddress \<Rightarrow> bytes \<Rightarrow> ValidatorAddress res" where
  "va_Unmarshal = unmarshal_with ''Scheduler'' va_fields"

definition va_wire :: "ValidatorAddress \<Rightarrow> bytes" where
  "va_wire m = string_field 0xa (va_Address m)"

definition va_good :: "ValidatorAddress \<Rightarrow> bool" where
  "va_good m \<longleftrightarrow> length (va_wire m) < 2 ^ 63"

lemma va_decodes:
  assumes "va_good m"
  shows "va_Unmarshal empty_va (va_wire m) = Ok m"
  unfolding va_Unmarshal_def
proof (rule decodes_whole)
  show "decodes ''Scheduler'' va_fields empty_va (va_wire m)
      (va_Address_update (\<lambda>_. va_Address m) empty_va)"
    unfolding va_wire_def
    by (rule decodes_string [OF tag_of_tags(1) field_1 [OF va_fields_def] refl]) (simp add: empty_va_def)
qed (use assms in \<open>simp_all add: va_good_def\<close>)

interpretation va: wire_message va_Size va_MarshalToSizedBuffer va_Unmarshal empty_va va_wire va_good
  by unfold_locales (simp_all add: va_decodes,
    simp_all add: va_Size_def va_wire_def va_MarshalToSizedBuffer_def
      string_size [of _ "0xa"] sized_of_writes writes_string_field)

section \<open>GenesisState\<close>

record GenesisState =
  gs_Params :: Params

definition empty_gs :: GenesisState where
  "empty_gs = \<lparr>gs_Params = empty_Params\<rparr>"

definition gs_Equal :: "sdk_lib \<Rightarrow> GenesisState option \<Rightarrow> GenesisState iface \<Rightarrow> bool res" where
  "gs_Equal L = iface_equal (\<lambda>this that1.
     Params_Equal L (Some (gs_Params this)) (Pointer (Some (gs_Params that1))))"

definition gs_MarshalToSizedBuffer :: "sdk_lib \<Rightarrow> GenesisState \<Rightarrow> bytes \<Rightarrow> (bytes \<times> nat) res" where
  "gs_MarshalToSizedBuffer L m = marshal_to_sized_buffer
     (put_message_field 0xa (Params_MarshalToSizedBuffer L (gs_Params m)))"

definition gs_Size :: "sdk_lib \<Rightarrow> GenesisState \<Rightarrow> nat" where
  "gs_Size L m = delimited_size (Params_Size L (gs_Params m))"

definition gs_MarshalTo :: "sdk_lib \<Rightarrow> GenesisState \<Rightarrow> bytes \<Rightarrow> (bytes \<times> nat) res" where
  "gs_MarshalTo L m = marshal_to (gs_Size L m) (gs_MarshalToSizedBuffer L m)"

definition gs_Marshal :: "sdk_lib \<Rightarrow> GenesisState \<Rightarrow> bytes res" where
  "gs_Marshal L m = marshal_with (gs_Size L m) (gs_MarshalToSizedBuffer L m)"

definition gs_fields :: "sdk_lib \<Rightarrow> (nat \<times> GenesisState field) list" where
  "gs_fields L =
     [(1, nested ''Params'' (Params_Unmarshal L) gs_Params (\<lambda>c. gs_Params_update (\<lambda>_. c)))]"

definition gs_Unmarshal :: "sdk_lib \<Rightarrow> GenesisState \<Rightarrow> bytes \<Rightarrow> GenesisState res" where
  "gs_Unmarshal L = unmarshal_with ''Genesis'' (gs_fields L)"

definition gs_wire :: "sdk_lib \<Rightarrow> GenesisState \<Rightarrow> bytes" where
  "gs_wire L m = delimited 0xa (Params_wire L (gs_Params m))"

definition gs_good :: "sdk_lib \<Rightarrow> GenesisState \<Rightarrow> bool" where
  "gs_good L m \<longleftrightarrow> Params_good L (gs_Params m) \<and> length (gs_wire L m) < 2 ^ 63"

lemma gs_decodes:
  assumes "gs_good L m"
  shows "gs_Unmarshal L empty_gs (gs_wire L m) = Ok m"
  unfolding gs_Unmarshal_def
proof (rule decodes_whole)
  show "decodes ''Genesis'' (gs_fields L) empty_gs (gs_wire L m) (gs_Params_update (\<lambda>_. gs_Params m) empty_gs)"
    unfolding gs_wire_def
    by (rule decodes_nested [OF tag_of_tags(1) field_1 [OF gs_fields_def]]
      | simp add: assms [unfolded gs_good_def] empty_gs_def Params_decodes)+
qed (use assms in \<open>simp_all add: gs_good_def\<close>)

interpretation gs: wire_message "gs_Size L" "gs_MarshalToSizedBuffer L" "gs_Unmarshal L" empty_gs
    "gs_wire L" "gs_good L" for L
  by unfold_locales (simp_all add: gs_decodes,
    simp_all add: gs_good_def gs_Size_def gs_wire_def
      gs_MarshalToSizedBuffer_def Params.size_wire delimited_size [of _ "0xa"]
      sized_of_writes writes_message_field Params_sized)

end
