(* ===== verification/ServiceMessages.thy ===== *)
theory ServiceMessages
  imports Messages
begin

text \<open>
  The messages of the module's gRPC services, which no store ever holds: \<open>types/tx.pb.go\<close> and
  \<open>types/query.pb.go\<close>, request and response types with the methods that are generated for each.
  The repeated field of the limits response is written from its last element to its first, so that
  the elements stand on the wire in order.
\<close>

section \<open>Repeated and absent fields\<close>

primrec put_repeated_field ::
  "byte \<Rightarrow> ('a \<Rightarrow> bytes \<Rightarrow> (bytes \<times> nat) res) \<Rightarrow> 'a list \<Rightarrow> cursor \<Rightarrow> cursor res" where
  "put_repeated_field tag marshal [] c = Ok c"
| "put_repeated_field tag marshal (x # xs) c =
     bindR (put_repeated_field tag marshal xs c) (put_message_field tag (marshal x))"

definition repeated_field :: "byte \<Rightarrow> bytes list \<Rightarrow> bytes" where
  "repeated_field tag ws = concat (map (delimited tag) ws)"

lemma writes_repeated_field:
  assumes "\<And>x. x \<in> set xs \<Longrightarrow> sized (marshal x) (wire x)"
  shows "writes (put_repeated_field tag marshal xs) (repeated_field tag (map wire xs))"
  using assms
proof (induction xs)
  case Nil
  have "put_repeated_field tag marshal [] = Ok"
    by (rule ext) simp
  then show ?case
    by (simp add: repeated_field_def writes_skip)
next
  case (Cons x xs)
  have "writes (\<lambda>c. bindR (put_repeated_field tag marshal xs c) (put_message_field tag (marshal x)))
      (delimited tag (wire x) @ repeated_field tag (map wire xs))"
    by (rule writes_then [OF Cons.IH writes_message_field]) (simp_all add: Cons.prems)
  moreover have "put_repeated_field tag marshal (x # xs) =
      (\<lambda>c. bindR (put_repeated_field tag marshal xs c) (put_message_field tag (marshal x)))"
    by (rule ext) simp
  ultimately show ?case
    by (simp add: repeated_field_def)
qed

text \<open>Each element is appended as a zero value and then decoded in place.\<close>

definition repeated :: "string \<Rightarrow> ('a \<Rightarrow> bytes \<Rightarrow> 'a res) \<Rightarrow> 'a \<Rightarrow> ('a \<Rightarrow> 'm \<Rightarrow> 'm) \<Rightarrow> 'm field" where
  "repeated name dec zero app = MessageField name (\<lambda>bs m. bindR (dec zero bs) (\<lambda>x. Ok (app x m)))"

lemma decodes_repeated:
  assumes tag: "tag_of n 2 tag" and f: "map_of fs n = Some (repeated name dec zero app)"
  shows "(\<And>x. x \<in> set xs \<Longrightarrow> dec zero (wire x) = Ok x) \<Longrightarrow>
    decodes s fs m (repeated_field tag (map wire xs)) (fold app xs m)"
proof (induction xs arbitrary: m)
  case Nil
  then show ?case
    by (simp add: repeated_field_def decodes_nil)
next
  case (Cons x xs)
  have "decodes s fs m (delimited tag (wire x)) (app x m)"
    by (rule decodes_message [OF tag f repeated_def]) (simp add: Cons.prems)
  then have "decodes s fs m (delimited tag (wire x) @ repeated_field tag (map wire xs)) (fold app xs (app x m))"
    by (rule decodes_append) (simp add: Cons)
  then show ?case
    by (simp add: repeated_field_def)
qed

section \<open>MsgSetVirtualStakingMaxCap\<close>

record MsgSetVirtualStakingMaxCap =
  setcap_Authority :: string
  setcap_Contract :: string
  setcap_MaxCap :: coin

definition empty_setcap :: MsgSetVirtualStakingMaxCap where
  "empty_setcap = \<lparr>setcap_Authority = '''', setcap_Contract = '''', setcap_MaxCap = empty_coin\<rparr>"

definition setcap_MarshalToSizedBuffer :: "sdk_lib \<Rightarrow> MsgSetVirtualStakingMaxCap \<Rightarrow> bytes \<Rightarrow> (bytes \<times> nat) res" where
  "setcap_MarshalToSizedBuffer L m = marshal_to_sized_buffer (\<lambda>i.
     bindR (put_message_field 0x1a (coin_marshal_to L (setcap_MaxCap m)) i) (\<lambda>i.
     bindR (put_string_field 0x12 (setcap_Contract m) i) (put_string_field 0xa (setcap_Authority m))))"

definition setcap_Size :: "sdk_lib \<Rightarrow> MsgSetVirtualStakingMaxCap \<Rightarrow> nat" where
  "setcap_Size L m = string_size (setcap_Authority m)
     + string_size (setcap_Contract m)
     + delimited_size (coin_size L (setcap_MaxCap m))"

definition setcap_MarshalTo :: "sdk_lib \<Rightarrow> MsgSetVirtualStakingMaxCap \<Rightarrow> bytes \<Rightarrow> (bytes \<times> nat) res" where
  "setcap_MarshalTo L m = marshal_to (setcap_Size L m) (setcap_MarshalToSizedBuffer L m)"

definition setcap_Marshal :: "sdk_lib \<Rightarrow> MsgSetVirtualStakingMaxCap \<Rightarrow> bytes res" where
  "setcap_Marshal L m = marshal_with (setcap_Size L m) (setcap_MarshalToSizedBuffer L m)"

definition setcap_fields :: "sdk_lib \<Rightarrow> (nat \<times> MsgSetVirtualStakingMaxCap field) list" where
  "setcap_fields L =
     [(1, StringField ''Authority'' (\<lambda>v. setcap_Authority_update (\<lambda>_. v))),
      (2, StringField ''Contract'' (\<lambda>v. setcap_Contract_update (\<lambda>_. v))),
      (3, nested ''MaxCap'' (coin_unmarshal L) setcap_MaxCap (\<lambda>c. setcap_MaxCap_update (\<lambda>_. c)))]"

definition setcap_Unmarshal :: "sdk_lib \<Rightarrow> MsgSetVirtualStakingMaxCap \<Rightarrow> bytes \<Rightarrow> MsgSetVirtualStakingMaxCap res" where
  "setcap_Unmarshal L = unmarshal_with ''Tx'' (setcap_fields L)"

definition setcap_wire :: "sdk_lib \<Rightarrow> MsgSetVirtualStakingMaxCap \<Rightarrow> bytes" where
  "setcap_wire L m = string_field 0xa (setcap_Authority m)
     @ string_field 0x12 (setcap_Contract m)
     @ delimited 0x1a (coin_bytes L (setcap_MaxCap m))"

definition setcap_good :: "sdk_lib \<Rightarrow> MsgSetVirtualStakingMaxCap \<Rightarrow> bool" where
  "setcap_good L m \<longleftrightarrow> coin_ok L (setcap_MaxCap m) \<and>
     length (setcap_wire L m) < 2 ^ 63"

lemma setcap_decodes:
  assumes "setcap_good L m"
  shows "setcap_Unmarshal L empty_setcap (setcap_wire L m) = Ok m"
  unfolding setcap_Unmarshal_def
proof (rule decodes_whole)
  show "decodes ''Tx'' (setcap_fields L) empty_setcap (setcap_wire L m)
      (setcap_MaxCap_update (\<lambda>_. setcap_MaxCap m) (setcap_Contract_update (\<lambda>_. setcap_Contract m) (setcap_Authority_update (\<lambda>_. setcap_Authority m) empty_setcap)))"
    unfolding setcap_wire_def
    by (rule decodes_append
        decodes_string [OF tag_of_tags(1) field_1 [OF setcap_fields_def] refl]
        decodes_string [OF tag_of_tags(2) field_2 [OF setcap_fields_def] refl]
        decodes_nested [OF tag_of_tags(3) field_3 [OF setcap_fields_def]]
      | simp add: assms [unfolded setcap_good_def] empty_setcap_def coin_okD Params_decodes)+
qed (use assms in \<open>simp_all add: setcap_good_def\<close>)

interpretation setcap: wire_message "setcap_Size L" "setcap_MarshalToSizedBuffer L"
    "setcap_Unmarshal L" empty_setcap "setcap_wire L" "setcap_good L" for L
proof
  fix m
  assume good: "setcap_good L m"
  then show "setcap_Size L m = length (setcap_wire L m)"
    by (simp add: setcap_good_def setcap_Size_def setcap_wire_def coin_okD Params.size_wire
        string_size [of "setcap_Authority m" "0xa"]
        string_size [of "setcap_Contract m" "0x12"]
        delimited_size [of "coin_bytes L (setcap_MaxCap m)" "0x1a"])
  show "sized (setcap_MarshalToSizedBuffer L m) (setcap_wire L m)"
    using good unfolding setcap_MarshalToSizedBuffer_def setcap_wire_def setcap_good_def append_assoc [symmetric]
    by (intro sized_of_writes writes_then writes_message_field writes_string_field coin_okD Params_sized)
      simp_all
qed (rule setcap_decodes)

section \<open>MsgSetVirtualStakingMaxCapResponse\<close>

datatype MsgSetVirtualStakingMaxCapResponse = MsgSetVirtualStakingMaxCapResponse

definition setcap_resp_MarshalToSizedBuffer :: "MsgSetVirtualStakingMaxCapResponse \<Rightarrow> bytes \<Rightarrow> (bytes \<times> nat) res" where
  "setcap_resp_MarshalToSizedBuffer m = marshal_to_sized_buffer Ok"

definition setcap_resp_Size :: "MsgSetVirtualStakingMaxCapResponse \<Rightarrow> nat" where
  "setcap_resp_Size m = 0"

definition setcap_resp_MarshalTo :: "MsgSetVirtualStakingMaxCapResponse \<Rightarrow> bytes \<Rightarrow> (bytes \<times> nat) res" where
  "setcap_resp_MarshalTo m = marshal_to (setcap_resp_Size m) (setcap_resp_MarshalToSizedBuffer m)"

definition setcap_resp_Marshal :: "MsgSetVirtualStakingMaxCapResponse \<Rightarrow> bytes res" where
  "setcap_resp_Marshal m = marshal_with (setcap_resp_Size m) (setcap_resp_MarshalToSizedBuffer m)"

definition setcap_resp_Unmarshal :: "MsgSetVirtualStakingMaxCapResponse \<Rightarrow> bytes \<Rightarrow> MsgSetVirtualStakingMaxCapResponse res" where
  "setcap_resp_Unmarshal = unmarshal_with ''Tx'' []"

interpretation setcap_resp: wire_message setcap_resp_Size setcap_resp_MarshalToSizedBuffer setcap_resp_Unmarshal MsgSetVirtualStakingMaxCapResponse
    "\<lambda>_. []" "\<lambda>_. True"
proof
  fix m :: MsgSetVirtualStakingMaxCapResponse
  show "setcap_resp_Unmarshal MsgSetVirtualStakingMaxCapResponse [] = Ok m"
    unfolding setcap_resp_Unmarshal_def by (rule decodes_whole [OF decodes_nil], simp, cases m, simp)
qed (simp_all add: setcap_resp_Size_def setcap_resp_MarshalToSizedBuffer_def sized_of_writes writes_skip)

section \<open>QueryVirtualStakingMaxCapLimitRequest\<close>

record QueryVirtualStakingMaxCapLimitRequest =
  limit_req_Address :: string

definition empty_limit_req :: QueryVirtualStakingMaxCapLimitRequest where
  "empty_limit_req = \<lparr>limit_req_Address = ''''\<rparr>"

definition limit_req_MarshalToSizedBuffer :: "QueryVirtualStakingMaxCapLimitRequest \<Rightarrow> bytes \<Rightarrow> (bytes \<times> nat) res" where
  "limit_req_MarshalToSizedBuffer m = marshal_to_sized_buffer (put_string_field 0xa (limit_req_Address m))"

definition limit_req_Size :: "QueryVirtualStakingMaxCapLimitRequest \<Rightarrow> nat" where
  "limit_req_Size m = string_size (limit_req_Address m)"

definition limit_req_MarshalTo :: "QueryVirtualStakingMaxCapLimitRequest \<Rightarrow> bytes \<Rightarrow> (bytes \<times> nat) res" where
  "limit_req_MarshalTo m = marshal_to (limit_req_Size m) (limit_req_MarshalToSizedBuffer m)"

definition limit_req_Marshal :: "QueryVirtualStakingMaxCapLimitRequest \<Rightarrow> bytes res" where
  "limit_req_Marshal m = marshal_with (limit_req_Size m) (limit_req_MarshalToSizedBuffer m)"

definition limit_req_fields :: "(nat \<times> QueryVirtualStakingMaxCapLimitRequest field) list" where
  "limit_req_fields =
     [(1, StringField ''Address'' (\<lambda>v. limit_req_Address_update (\<lambda>_. v)))]"

definition limit_req_Unmarshal :: "QueryVirtualStakingMaxCapLimitRequest \<Rightarrow> bytes \<Rightarrow> QueryVirtualStakingMaxCapLimitRequest res" where
  "limit_req_Unmarshal = unmarshal_with ''Query'' limit_req_fields"

definition limit_req_wire :: "QueryVirtualStakingMaxCapLimitRequest \<Rightarrow> bytes" where
  "limit_req_wire m = string_field 0xa (limit_req_Address m)"

definition limit_req_good :: "QueryVirtualStakingMaxCapLimitRequest \<Rightarrow> bool" where
  "limit_req_good m \<longleftrightarrow> length (limit_req_wire m) < 2 ^ 63"

lemma limit_req_decodes:
  assumes "limit_req_good m"
  shows "limit_req_Unmarshal empty_limit_req (limit_req_wire m) = Ok m"
  unfolding limit_req_Unmarshal_def
proof (rule decodes_whole)
  show "decodes ''Query'' limit_req_fields empty_limit_req (limit_req_wire m)
      (limit_req_Address_update (\<lambda>_. limit_req_Address m) empty_limit_req)"
    unfolding limit_req_wire_def
    by (rule decodes_string [OF tag_of_tags(1) field_1 [OF limit_req_fields_def] refl]
      | simp add: assms [unfolded limit_req_good_def] empty_limit_req_def coin_okD Params_decodes)+
qed (use assms in \<open>simp_all add: limit_req_good_def\<close>)

interpretation limit_req: wire_message limit_req_Size limit_req_MarshalToSizedBuffer
    limit_req_Unmarshal empty_limit_req limit_req_wire limit_req_good
proof
  fix m
  assume good: "limit_req_good m"
  then show "limit_req_Size m = length (limit_req_wire m)"
    by (simp add: limit_req_good_def limit_req_Size_def limit_req_wire_def coin_okD Params.size_wire
        string_size [of "limit_req_Address m" "0xa"])
  show "sized (limit_req_MarshalToSizedBuffer m) (limit_req_wire m)"
    using good unfolding limit_req_MarshalToSizedBuffer_def limit_req_wire_def limit_req_good_def append_assoc [symmetric]
    by (intro sized_of_writes writes_then writes_message_field writes_string_field coin_okD Params_sized)
qed (rule limit_req_decodes)

section \<open>QueryVirtualStakingMaxCapLimitResponse\<close>

record QueryVirtualStakingMaxCapLimitResponse =
  limit_resp_Delegated :: coin
  limit_resp_Cap :: coin

definition empty_limit_resp :: QueryVirtualStakingMaxCapLimitResponse where
  "empty_limit_resp = \<lparr>limit_resp_Delegated = empty_coin, limit_resp_Cap = empty_coin\<rparr>"

definition limit_resp_MarshalToSizedBuffer :: "sdk_lib \<Rightarrow> QueryVirtualStakingMaxCapLimitResponse \<Rightarrow> bytes \<Rightarrow> (bytes \<times> nat) res" where
  "limit_resp_MarshalToSizedBuffer L m = marshal_to_sized_buffer (\<lambda>i.
     bindR (put_message_field 0x12 (coin_marshal_to L (limit_resp_Cap m)) i) (put_message_field 0xa (coin_marshal_to L (limit_resp_Delegated m))))"

definition limit_resp_Size :: "sdk_lib \<Rightarrow> QueryVirtualStakingMaxCapLimitResponse \<Rightarrow> nat" where
  "limit_resp_Size L m = delimited_size (coin_size L (limit_resp_Delegated m))
     + delimited_size (coin_size L (limit_resp_Cap m))"

definition limit_resp_MarshalTo :: "sdk_lib \<Rightarrow> QueryVirtualStakingMaxCapLimitResponse \<Rightarrow> bytes \<Rightarrow> (bytes \<times> nat) res" where
  "limit_resp_MarshalTo L m = marshal_to (limit_resp_Size L m) (limit_resp_MarshalToSizedBuffer L m)"

definition limit_resp_Marshal :: "sdk_lib \<Rightarrow> QueryVirtualStakingMaxCapLimitResponse \<Rightarrow> bytes res" where
  "limit_resp_Marshal L m = marshal_with (limit_resp_Size L m) (limit_resp_MarshalToSizedBuffer L m)"

definition limit_resp_fields :: "sdk_lib \<Rightarrow> (nat \<times> QueryVirtualStakingMaxCapLimitResponse field) list" where
  "limit_resp_fields L =
     [(1, nested ''Delegated'' (coin_unmarshal L) limit_resp_Delegated (\<lambda>c. limit_resp_Delegated_update (\<lambda>_. c))),
      (2, nested ''Cap'' (coin_unmarshal L) limit_resp_Cap (\<lambda>c. limit_resp_Cap_update (\<lambda>_. c)))]"

definition limit_resp_Unmarshal :: "sdk_lib \<Rightarrow> QueryVirtualStakingMaxCapLimitResponse \<Rightarrow> bytes \<Rightarrow> QueryVirtualStakingMaxCapLimitResponse res" where
  "limit_resp_Unmarshal L = unmarshal_with ''Query'' (limit_resp_fields L)"

definition limit_resp_wire :: "sdk_lib \<Rightarrow> QueryVirtualStakingMaxCapLimitResponse \<Rightarrow> bytes" where
  "limit_resp_wire L m = delimited 0xa (coin_bytes L (limit_resp_Delegated m))
     @ delimited 0x12 (coin_bytes L (limit_resp_Cap m))"

definition limit_resp_good :: "sdk_lib \<Rightarrow> QueryVirtualStakingMaxCapLimitResponse \<Rightarrow> bool" where
  "limit_resp_good L m \<longleftrightarrow> coin_ok L (limit_resp_Delegated m) \<and>
     coin_ok L (limit_resp_Cap m) \<and>
     length (limit_resp_wire L m) < 2 ^ 63"

lemma limit_resp_decodes:
  assumes "limit_resp_good L m"
  shows "limit_resp_Unmarshal L empty_limit_resp (limit_resp_wire L m) = Ok m"
  unfolding limit_resp_Unmarshal_def
proof (rule decodes_whole)
  show "decodes ''Query'' (limit_resp_fields L) empty_limit_resp (limit_resp_wire L m)
      (limit_resp_Cap_update (\<lambda>_. limit_resp_Cap m) (limit_resp_Delegated_update (\<lambda>_. limit_resp_Delegated m) empty_limit_resp))"
    unfolding limit_resp_wire_def
    by (rule decodes_append
        decodes_nested [OF tag_of_tags(1) field_1 [OF limit_resp_fields_def]]
        decodes_nested [OF tag_of_tags(2) field_2 [OF limit_resp_fields_def]]
      | simp add: assms [unfolded limit_resp_good_def] empty_limit_resp_def coin_okD Params_decodes)+
qed (use assms in \<open>simp_all add: limit_resp_good_def\<close>)

interpretation limit_resp: wire_message "limit_resp_Size L" "limit_resp_MarshalToSizedBuffer L"
    "limit_resp_Unmarshal L" empty_limit_resp "limit_resp_wire L" "limit_resp_good L" for L
proof
  fix m
  assume good: "limit_resp_good L m"
  then show "limit_resp_Size L m = length (limit_resp_wire L m)"
    by (simp add: limit_resp_good_def limit_resp_Size_def limit_resp_wire_def coin_okD Params.size_wire
        delimited_size [of "coin_bytes L (limit_resp_Delegated m)" "0xa"]
        delimited_size [of "coin_bytes L (limit_resp_Cap m)" "0x12"])
  show "sized (limit_resp_MarshalToSizedBuffer L m) (limit_resp_wire L m)"
    using good unfolding limit_resp_MarshalToSizedBuffer_def limit_resp_wire_def limit_resp_good_def append_assoc [symmetric]
    by (intro sized_of_writes writes_then writes_message_field writes_string_field coin_okD Params_sized)
      simp_all
qed (rule limit_resp_decodes)

section \<open>QueryVirtualStakingMaxCapLimitsRequest\<close>

datatype QueryVirtualStakingMaxCapLimitsRequest = QueryVirtualStakingMaxCapLimitsRequest

definition limits_req_MarshalToSizedBuffer :: "QueryVirtualStakingMaxCapLimitsRequest \<Rightarrow> bytes \<Rightarrow> (bytes \<times> nat) res" where
  "limits_req_MarshalToSizedBuffer m = marshal_to_sized_buffer Ok"

definition limits_req_Size :: "QueryVirtualStakingMaxCapLimitsRequest \<Rightarrow> nat" where
  "limits_req_Size m = 0"

definition limits_req_MarshalTo :: "QueryVirtualStakingMaxCapLimitsRequest \<Rightarrow> bytes \<Rightarrow> (bytes \<times> nat) res" where
  "limits_req_MarshalTo m = marshal_to (limits_req_Size m) (limits_req_MarshalToSizedBuffer m)"

definition limits_req_Marshal :: "QueryVirtualStakingMaxCapLimitsRequest \<Rightarrow> bytes res" where
  "limits_req_Marshal m = marshal_with (limits_req_Size m) (limits_req_MarshalToSizedBuffer m)"

definition limits_req_Unmarshal :: "QueryVirtualStakingMaxCapLimitsRequest \<Rightarrow> bytes \<Rightarrow> QueryVirtualStakingMaxCapLimitsRequest res" where
  "limits_req_Unmarshal = unmarshal_with ''Query'' []"

interpretation limits_req: wire_message limits_req_Size limits_req_MarshalToSizedBuffer limits_req_Unmarshal QueryVirtualStakingMaxCapLimitsRequest
    "\<lambda>_. []" "\<lambda>_. True"
proof
  fix m :: QueryVirtualStakingMaxCapLimitsRequest
  show "limits_req_Unmarshal QueryVirtualStakingMaxCapLimitsRequest [] = Ok m"
    unfolding limits_req_Unmarshal_def by (rule decodes_whole [OF decodes_nil], simp, cases m, simp)
qed (simp_all add: limits_req_Size_def limits_req_MarshalToSizedBuffer_def sized_of_writes writes_skip)

section \<open>QueryVirtualStakingMaxCapLimitsResponse\<close>

record QueryVirtualStakingMaxCapLimitsResponse =
  MaxCapInfos :: "VirtualStakingMaxCapInfo list"

definition empty_limits_resp :: QueryVirtualStakingMaxCapLimitsResponse where
  "empty_limits_resp = \<lparr>MaxCapInfos = []\<rparr>"

definition limits_resp_MarshalToSizedBuffer ::
  "sdk_lib \<Rightarrow> QueryVirtualStakingMaxCapLimitsResponse \<Rightarrow> bytes \<Rightarrow> (bytes \<times> nat) res" where
  "limits_resp_MarshalToSizedBuffer L m = marshal_to_sized_buffer
     (put_repeated_field 0xa (info_MarshalToSizedBuffer L) (MaxCapInfos m))"

definition limits_resp_Size :: "sdk_lib \<Rightarrow> QueryVirtualStakingMaxCapLimitsResponse \<Rightarrow> nat" where
  "limits_resp_Size L m = (\<Sum>e \<leftarrow> MaxCapInfos m. delimited_size (info_Size L e))"

definition limits_resp_MarshalTo ::
  "sdk_lib \<Rightarrow> QueryVirtualStakingMaxCapLimitsResponse \<Rightarrow> bytes \<Rightarrow> (bytes \<times> nat) res" where
  "limits_resp_MarshalTo L m = marshal_to (limits_resp_Size L m) (limits_resp_MarshalToSizedBuffer L m)"

definition limits_resp_Marshal :: "sdk_lib \<Rightarrow> QueryVirtualStakingMaxCapLimitsResponse \<Rightarrow> bytes res" where
  "limits_resp_Marshal L m = marshal_with (limits_resp_Size L m) (limits_resp_MarshalToSizedBuffer L m)"

definition limits_resp_fields :: "sdk_lib \<Rightarrow> (nat \<times> QueryVirtualStakingMaxCapLimitsResponse field) list" where
  "limits_resp_fields L = [(1, repeated ''MaxCapInfos'' (info_Unmarshal L) empty_info
     (\<lambda>x. MaxCapInfos_update (\<lambda>xs. xs @ [x])))]"

definition limits_resp_Unmarshal ::
  "sdk_lib \<Rightarrow> QueryVirtualStakingMaxCapLimitsResponse \<Rightarrow> bytes \<Rightarrow> QueryVirtualStakingMaxCapLimitsResponse res" where
  "limits_resp_Unmarshal L = unmarshal_with ''Query'' (limits_resp_fields L)"

definition limits_resp_wire :: "sdk_lib \<Rightarrow> QueryVirtualStakingMaxCapLimitsResponse \<Rightarrow> bytes" where
  "limits_resp_wire L m = repeated_field 0xa (map (info_wire L) (MaxCapInfos m))"

definition limits_resp_good :: "sdk_lib \<Rightarrow> QueryVirtualStakingMaxCapLimitsResponse \<Rightarrow> bool" where
  "limits_resp_good L m \<longleftrightarrow> list_all (info_good L) (MaxCapInfos m) \<and> length (limits_resp_wire L m) < 2 ^ 63"

lemma append_infos:
  "MaxCapInfos (fold (\<lambda>x. MaxCapInfos_update (\<lambda>xs. xs @ [x])) xs m) = MaxCapInfos m @ xs"
  by (induction xs arbitrary: m) simp_all

interpretation limits_resp: wire_message "limits_resp_Size L" "limits_resp_MarshalToSizedBuffer L"
    "limits_resp_Unmarshal L" empty_limits_resp "limits_resp_wire L" "limits_resp_good L" for L
proof
  fix m
  assume good: "limits_resp_good L m"
  then have elems: "x \<in> set (MaxCapInfos m) \<Longrightarrow> info_good L x" for x
    by (simp add: limits_resp_good_def list_all_iff)
  then have "map (\<lambda>e. delimited_size (info_Size L e)) (MaxCapInfos m) =
      map (\<lambda>e. length (delimited 0xa (info_wire L e))) (MaxCapInfos m)"
    by (simp add: info.size_wire delimited_size [of _ "0xa"])
  then show "limits_resp_Size L m = length (limits_resp_wire L m)"
    unfolding limits_resp_Size_def limits_resp_wire_def repeated_field_def length_concat map_map comp_def
    by (rule arg_cong)
  show "sized (limits_resp_MarshalToSizedBuffer L m) (limits_resp_wire L m)"
    unfolding limits_resp_MarshalToSizedBuffer_def limits_resp_wire_def
    by (intro sized_of_writes writes_repeated_field info_sized elems)
  show "limits_resp_Unmarshal L empty_limits_resp (limits_resp_wire L m) = Ok m"
    unfolding limits_resp_Unmarshal_def
  proof (rule decodes_whole)
    show "decodes ''Query'' (limits_resp_fields L) empty_limits_resp (limits_resp_wire L m)
        (fold (\<lambda>x. MaxCapInfos_update (\<lambda>xs. xs @ [x])) (MaxCapInfos m) empty_limits_resp)"
      unfolding limits_resp_wire_def
      by (rule decodes_repeated [OF tag_of_tags(1) field_1 [OF limits_resp_fields_def]])
        (simp add: info_decodes elems)
    show "fold (\<lambda>x. MaxCapInfos_update (\<lambda>xs. xs @ [x])) (MaxCapInfos m) empty_limits_resp = m"
      by (rule QueryVirtualStakingMaxCapLimitsResponse.equality) (simp_all add: append_infos empty_limits_resp_def)
  qed (use good in \<open>simp add: limits_resp_good_def\<close>)
qed

section \<open>QueryParamsRequest\<close>

datatype QueryParamsRequest = QueryParamsRequest

definition params_req_MarshalToSizedBuffer :: "QueryParamsRequest \<Rightarrow> bytes \<Rightarrow> (bytes \<times> nat) res" where
  "params_req_MarshalToSizedBuffer m = marshal_to_sized_buffer Ok"

definition params_req_Size :: "QueryParamsRequest \<Rightarrow> nat" where
  "params_req_Size m = 0"

definition params_req_MarshalTo :: "QueryParamsRequest \<Rightarrow> bytes \<Rightarrow> (bytes \<times> nat) res" where
  "params_req_MarshalTo m = marshal_to (params_req_Size m) (params_req_MarshalToSizedBuffer m)"

definition params_req_Marshal :: "QueryParamsRequest \<Rightarrow> bytes res" where
  "params_req_Marshal m = marshal_with (params_req_Size m) (params_req_MarshalToSizedBuffer m)"

definition params_req_Unmarshal :: "QueryParamsRequest \<Rightarrow> bytes \<Rightarrow> QueryParamsRequest res" where
  "params_req_Unmarshal = unmarshal_with ''Query'' []"

interpretation params_req: wire_message params_req_Size params_req_MarshalToSizedBuffer params_req_Unmarshal QueryParamsRequest
    "\<lambda>_. []" "\<lambda>_. True"
proof
  fix m :: QueryParamsRequest
  show "params_req_Unmarshal QueryParamsRequest [] = Ok m"
    unfolding params_req_Unmarshal_def by (rule decodes_whole [OF decodes_nil], simp, cases m, simp)
qed (simp_all add: params_req_Size_def params_req_MarshalToSizedBuffer_def sized_of_writes writes_skip)

section \<open>QueryParamsResponse\<close>

record QueryParamsResponse =
  params_resp_Params :: Params

definition empty_params_resp :: QueryParamsResponse where
  "empty_params_resp = \<lparr>params_resp_Params = empty_Params\<rparr>"

definition params_resp_MarshalToSizedBuffer :: "sdk_lib \<Rightarrow> QueryParamsResponse \<Rightarrow> bytes \<Rightarrow> (bytes \<times> nat) res" where
  "params_resp_MarshalToSizedBuffer L m = marshal_to_sized_buffer (put_message_field 0xa (Params_MarshalToSizedBuffer L (params_resp_Params m)))"

definition params_resp_Size :: "sdk_lib \<Rightarrow> QueryParamsResponse \<Rightarrow> nat" where
  "params_resp_Size L m = delimited_size (Params_Size L (params_resp_Params m))"

definition params_resp_MarshalTo :: "sdk_lib \<Rightarrow> QueryParamsResponse \<Rightarrow> bytes \<Rightarrow> (bytes \<times> nat) res" where
  "params_resp_MarshalTo L m = marshal_to (params_resp_Size L m) (params_resp_MarshalToSizedBuffer L m)"

definition params_resp_Marshal :: "sdk_lib \<Rightarrow> QueryParamsResponse \<Rightarrow> bytes res" where
  "params_resp_Marshal L m = marshal_with (params_resp_Size L m) (params_resp_MarshalToSizedBuffer L m)"

definition params_resp_fields :: "sdk_lib \<Rightarrow> (nat \<times> QueryParamsResponse field) list" where
  "params_resp_fields L =
     [(1, nested ''Params'' (Params_Unmarshal L) params_resp_Params (\<lambda>c. params_resp_Params_update (\<lambda>_. c)))]"

definition params_resp_Unmarshal :: "sdk_lib \<Rightarrow> QueryParamsResponse \<Rightarrow> bytes \<Rightarrow> QueryParamsResponse res" where
  "params_resp_Unmarshal L = unmarshal_with ''Query'' (params_resp_fields L)"

definition params_resp_wire :: "sdk_lib \<Rightarrow> QueryParamsResponse \<Rightarrow> bytes" where
  "params_resp_wire L m = delimited 0xa (Params_wire L (params_resp_Params m))"

definition params_resp_good :: "sdk_lib \<Rightarrow> QueryParamsResponse \<Rightarrow> bool" where
  "params_resp_good L m \<longleftrightarrow> Params_good L (params_resp_Params m) \<and>
     length (params_resp_wire L m) < 2 ^ 63"

lemma params_resp_decodes:
  assumes "params_resp_good L m"
  shows "params_resp_Unmarshal L empty_params_resp (params_resp_wire L m) = Ok m"
  unfolding params_resp_Unmarshal_def
proof (rule decodes_whole)
  show "decodes ''Query'' (params_resp_fields L) empty_params_resp (params_resp_wire L m)
      (params_resp_Params_update (\<lambda>_. params_resp_Params m) empty_params_resp)"
    unfolding params_resp_wire_def
    by (rule decodes_nested [OF tag_of_tags(1) field_1 [OF params_resp_fields_def]]
      | simp add: assms [unfolded params_resp_good_def] empty_params_resp_def coin_okD Params_decodes)+
qed (use assms in \<open>simp_all add: params_resp_good_def\<close>)

interpretation params_resp: wire_message "params_resp_Size L" "params_resp_MarshalToSizedBuffer L"
    "params_resp_Unmarshal L" empty_params_resp "params_resp_wire L" "params_resp_good L" for L
proof
  fix m
  assume good: "params_resp_good L m"
  then show "params_resp_Size L m = length (params_resp_wire L m)"
    by (simp add: params_resp_good_def params_resp_Size_def params_resp_wire_def coin_okD Params.size_wire
        delimited_size [of "Params_wire L (params_resp_Params m)" "0xa"])
  show "sized (params_resp_MarshalToSizedBuffer L m) (params_resp_wire L m)"
    using good unfolding params_resp_MarshalToSizedBuffer_def params_resp_wire_def params_resp_good_def append_assoc [symmetric]
    by (intro sized_of_writes writes_then writes_message_field writes_string_field coin_okD Params_sized)
      simp_all
qed (rule params_resp_decodes)

section \<open>Equal\<close>

definition limit_resp_Equal :: "sdk_lib \<Rightarrow> QueryVirtualStakingMaxCapLimitResponse option \<Rightarrow>
    QueryVirtualStakingMaxCapLimitResponse iface \<Rightarrow> bool res" where
  "limit_resp_Equal L = iface_equal (\<lambda>this that1.
     andR (coin_equal L (limit_resp_Delegated this) (limit_resp_Delegated that1))
       (coin_equal L (limit_resp_Cap this) (limit_resp_Cap that1)))"

end
