(* ===== verification/Keeper.thy ===== *)
theory Keeper
  imports ServiceMessages
begin

text \<open>
  The keeper and what it is built from: \<open>keeper/keeper.go\<close> (the type and its constructors),
  \<open>keeper/options.go\<close>, the bank and staking adapters of \<open>keeper/adapter.go\<close> and the events of
  \<open>types/events.go\<close>.  The two store keys of the Go type are the fields \<open>mstore\<close> and \<open>mmem\<close> of the
  context, and its codec is the messages' own \<open>Marshal\<close> and \<open>Unmarshal\<close>; the field \<open>lib\<close> holds the
  functions of the SDK that the methods call.
\<close>

section \<open>Iterators\<close>

text \<open>
  An iteration with a callback that returns true to stop early; the variables that the callback
  captures are its second argument and part of its result.
\<close>

primrec iterate :: "('e \<Rightarrow> 'a \<Rightarrow> ('s, bool \<times> 'a) call) \<Rightarrow> 'e list \<Rightarrow> 'a \<Rightarrow> ('s, 'a) call" where
  "iterate cb [] a = ret a"
| "iterate cb (e # es) a =
     bind (cb e a) (\<lambda>(stop, a'). if stop then ret a' else iterate cb es a')"

lemma keeps_iterate [intro]:
  assumes "\<And>e a. keeps f (cb e a)"
  shows "keeps f (iterate cb es a)"
proof (induction es arbitrary: a)
  case (Cons e es)
  have "keeps f (if stop then ret a' else iterate cb es a')" for stop a'
    using Cons by (cases stop) auto
  then show ?case
    by (auto intro: assms)
qed auto

lemma iterate_invariant:
  assumes "\<And>e a s. e \<in> set es \<Longrightarrow> P s \<Longrightarrow> P (snd (cb e a s))" and "P s"
  shows "P (snd (iterate cb es a s))"
  using assms
proof (induction es arbitrary: a s)
  case (Cons e es)
  obtain r s' where step: "cb e a s = (r, s')"
    by (cases "cb e a s")
  have "P s'"
    using Cons.prems(1) [of e s a] Cons.prems(2) step by simp
  then have "P (snd (iterate cb es a' s'))" for a'
    by (intro Cons.IH Cons.prems(1)) simp_all
  with step \<open>P s'\<close> show ?case
    by (simp add: bind_apply split: res.split)
qed simp

text \<open>A callback that only computes, and never stops, is a fold.\<close>

lemma iterate_fold:
  assumes "\<And>e a. e \<in> set es \<Longrightarrow> cb e a s = (Ok (False, f e a), s)"
  shows "iterate cb es a s = (Ok (fold f es a), s)"
  using assms
proof (induction es arbitrary: a)
  case (Cons e es)
  have "cb e a s = (Ok (False, f e a), s)"
    by (rule Cons.prems) simp
  then show ?case
    by (simp add: bind_apply) (rule Cons.IH, rule Cons.prems, simp)
qed simp

text \<open>A library call whose error makes the code panic.\<close>

definition must :: "'a res \<Rightarrow> 'a res" where
  "must r = (case r of Err e \<Rightarrow> Panic ''error in a must call'' | _ \<Rightarrow> r)"

lemma must_simps [simp]:
  "must (Ok x) = Ok x" "must (Err e) = Panic ''error in a must call''" "must (Panic p) = Panic p"
  by (simp_all add: must_def)

lemma must_eq_Ok [simp]: "must r = Ok x \<longleftrightarrow> r = Ok x"
  by (cases r) simp_all

text \<open>The integer behind the pointer of a \<open>math.Int\<close>.\<close>

definition int_of :: "int option \<Rightarrow> int res" where
  "int_of a = (case a of None \<Rightarrow> Panic ''nil pointer dereference'' | Some i \<Rightarrow> Ok i)"

lemma int_of_simps [simp]: "int_of (Some i) = Ok i" "int_of None = Panic ''nil pointer dereference''"
  by (simp_all add: int_of_def)

section \<open>Adapters\<close>

text \<open>
  \<open>BankKeeperAdapter\<close> embeds the vanilla bank keeper and adds a supply offset that does nothing.
\<close>

definition NewBankKeeperAdapter :: "'x SDKBankKeeper \<Rightarrow> 'x XBankKeeper" where
  "NewBankKeeperAdapter k =
     SDKBankKeeper.extend k (XBankKeeper.fields (\<lambda>denom offsetAmount. ret ()))"

definition ErrNoDelegatorForAddress :: err where
  "ErrNoDelegatorForAddress = Sentinel ''stakingtypes.ErrNoDelegatorForAddress''"

definition NotBondedPoolName :: string where "NotBondedPoolName = ''not_bonded_tokens_pool''"
definition BondedPoolName :: string where "BondedPoolName = ''bonded_tokens_pool''"

definition adapter_InstantUndelegate :: "sdk_lib \<Rightarrow> 'x SDKStakingKeeper \<Rightarrow> 'x SDKBankKeeper \<Rightarrow>
    bytes \<Rightarrow> bytes \<Rightarrow> dec \<Rightarrow> ('x ctx, coin list) call" where
  "adapter_InstantUndelegate L s b delAddr valAddr sharesAmount = (\<lambda>ctx.
     case GetValidator s (chain ctx) valAddr of
       None \<Rightarrow> fail ErrNoDelegatorForAddress ctx
     | Some validator \<Rightarrow>
         bind (Unbond s delAddr valAddr sharesAmount) (\<lambda>returnAmount.
         bind (reading (\<lambda>c. new_coin L (BondDenom s (chain c)) returnAmount)) (\<lambda>amt.
         bind (reading (\<lambda>_. new_coins L amt)) (\<lambda>res.
         let moduleName = (if IsBonded validator then BondedPoolName else NotBondedPoolName) in
         bind (UndelegateCoinsFromModuleToAccount b moduleName delAddr res) (\<lambda>_. ret res)))) ctx)"

definition NewStakingKeeperAdapter ::
  "sdk_lib \<Rightarrow> 'x SDKStakingKeeper \<Rightarrow> 'x SDKBankKeeper \<Rightarrow> 'x XStakingKeeper" where
  "NewStakingKeeperAdapter L k b =
     SDKStakingKeeper.extend k (XStakingKeeper.fields (adapter_InstantUndelegate L k b))"

section \<open>The keeper\<close>

record 'x Keeper =
  lib :: sdk_lib
  bank :: "'x XBankKeeper"
  Staking :: "'x XStakingKeeper"
  wasm :: "'x WasmKeeper"
  authority :: string

type_synonym 'x Option = "'x Keeper \<Rightarrow> 'x Keeper"

definition WithWasmKeeperDecorated :: "('x WasmKeeper \<Rightarrow> 'x WasmKeeper) \<Rightarrow> 'x Option" where
  "WithWasmKeeperDecorated cb keeper = keeper\<lparr>wasm := cb (wasm keeper)\<rparr>"

definition NewKeeperX :: "sdk_lib \<Rightarrow> 'x XBankKeeper \<Rightarrow> 'x XStakingKeeper \<Rightarrow> 'x WasmKeeper \<Rightarrow> string \<Rightarrow>
    'x Option list \<Rightarrow> 'x Keeper" where
  "NewKeeperX cdc b staking w auth opts =
     fold (\<lambda>o' k. o' k) opts \<lparr>lib = cdc, bank = b, Staking = staking, wasm = w, authority = auth\<rparr>"

definition NewKeeper :: "sdk_lib \<Rightarrow> 'x SDKBankKeeper \<Rightarrow> 'x SDKStakingKeeper \<Rightarrow> 'x WasmKeeper \<Rightarrow> string \<Rightarrow>
    'x Option list \<Rightarrow> 'x Keeper" where
  "NewKeeper cdc b staking w auth opts =
     NewKeeperX cdc (NewBankKeeperAdapter b) (NewStakingKeeperAdapter cdc staking b) w auth opts"

definition GetAuthority :: "'x Keeper \<Rightarrow> string" where
  "GetAuthority k = authority k"

text \<open>The bond denomination, which the staking keeper reads from the chain's state.\<close>

definition bond_denom :: "'x Keeper \<Rightarrow> 'x ctx \<Rightarrow> string" where
  "bond_denom k ctx = BondDenom (Staking k) (chain ctx)"

section \<open>Events\<close>

definition EmitSchedulerExecutionEvent :: "sdk_lib \<Rightarrow> bytes \<Rightarrow> err option \<Rightarrow> 'x ctx \<Rightarrow> 'x ctx" where
  "EmitSchedulerExecutionEvent L contractAddr e = EmitEvent
     \<lparr>event_type = ''scheduler_execution'',
      attributes =
        [(''module'', ModuleName),
         (''virtual_staking_contract'', acc_string L contractAddr),
         (''execution_success'', show_bool (e = None))]
        @ (case e of None \<Rightarrow> [] | Some x \<Rightarrow> [(''error'', err_text x)])\<rparr>"

definition EmitSchedulerRegisteredEvent :: "sdk_lib \<Rightarrow> bytes \<Rightarrow> u64 \<Rightarrow> bool \<Rightarrow> 'x ctx \<Rightarrow> 'x ctx" where
  "EmitSchedulerRegisteredEvent L contractAddr nextExecBlock repeat = EmitEvent
     \<lparr>event_type = ''scheduler_registered'',
      attributes =
        [(''module'', ModuleName),
         (''virtual_staking_contract'', acc_string L contractAddr),
         (''next_exececution_block'', decimal (unat nextExecBlock)),
         (''repeat'', show_bool repeat)]\<rparr>"

definition EmitMaxCapLimitUpdatedEvent :: "sdk_lib \<Rightarrow> bytes \<Rightarrow> coin \<Rightarrow> 'x ctx \<Rightarrow> 'x ctx" where
  "EmitMaxCapLimitUpdatedEvent L contractAddr amt = EmitEvent
     \<lparr>event_type = ''max_cap_limit_updated'',
      attributes =
        [(''module'', ModuleName),
         (''virtual_staking_contract'', acc_string L contractAddr),
         (''amount'', coin_string L amt)]\<rparr>"

lemmas emit_defs = EmitSchedulerExecutionEvent_def EmitSchedulerRegisteredEvent_def
  EmitMaxCapLimitUpdatedEvent_def

lemma emit_frame [simp]:
  "mstore (EmitSchedulerExecutionEvent L a e c) = mstore c" "mmem (EmitSchedulerExecutionEvent L a e c) = mmem c"
  "chain (EmitSchedulerExecutionEvent L a e c) = chain c"
  "BlockHeight (EmitSchedulerExecutionEvent L a e c) = BlockHeight c"
  "mstore (EmitSchedulerRegisteredEvent L a n r c) = mstore c" "mmem (EmitSchedulerRegisteredEvent L a n r c) = mmem c"
  "chain (EmitSchedulerRegisteredEvent L a n r c) = chain c"
  "BlockHeight (EmitSchedulerRegisteredEvent L a n r c) = BlockHeight c"
  "mstore (EmitMaxCapLimitUpdatedEvent L a m c) = mstore c" "mmem (EmitMaxCapLimitUpdatedEvent L a m c) = mmem c"
  "chain (EmitMaxCapLimitUpdatedEvent L a m c) = chain c"
  "BlockHeight (EmitMaxCapLimitUpdatedEvent L a m c) = BlockHeight c"
  by (simp_all add: emit_defs)

end
