(* ===== verification/MaxCap.thy ===== *)
theory MaxCap
  imports Parameters
begin

text \<open>
  Max cap limits and delegated totals: the rest of \<open>keeper/keeper.go\<close>.  Each is an integer per
  consumer contract in the module's store.  The lemmas show what \<open>SetMaxCapLimit\<close> does on every
  branch, that the limits never add up to more than \<open>TotalContractsMaxCap\<close> when it succeeds, and
  which parts of the state the two setters leave alone.
\<close>

section \<open>Operations\<close>

definition ErrInvalidCoins :: err where "ErrInvalidCoins = Sentinel ''sdkerrors.ErrInvalidCoins''"

definition HasMaxCapLimit :: "'x ctx \<Rightarrow> bytes \<Rightarrow> bool" where
  "HasMaxCapLimit ctx actor = kv_has (mstore ctx) (BuildMaxCapLimitKey actor)"

definition mustLoadInt :: "'x Keeper \<Rightarrow> kvstore \<Rightarrow> bytes \<Rightarrow> int res" where
  "mustLoadInt k store key = (case kv_get store key of
     None \<Rightarrow> Ok 0
   | Some bz \<Rightarrow> must (int_unmarshal (lib k) bz))"

definition GetMaxCapLimit :: "'x Keeper \<Rightarrow> 'x ctx \<Rightarrow> bytes \<Rightarrow> coin res" where
  "GetMaxCapLimit k ctx actor =
     bindR (mustLoadInt k (mstore ctx) (BuildMaxCapLimitKey actor)) (new_coin (lib k) (bond_denom k ctx))"

text \<open>The loop body decodes the value and calls back with the key behind the prefix.\<close>

definition decode_cap :: "'x Keeper \<Rightarrow> (bytes \<Rightarrow> int \<Rightarrow> 'a \<Rightarrow> ('x ctx, bool \<times> 'a) call) \<Rightarrow>
    bytes \<times> bytes \<Rightarrow> 'a \<Rightarrow> ('x ctx, bool \<times> 'a) call" where
  "decode_cap k cb e a =
     bind (reading (\<lambda>_. must (int_unmarshal (lib k) (snd e)))) (\<lambda>r. cb (fst e) r a)"

definition IterateMaxCapLimit ::
  "'x Keeper \<Rightarrow> (bytes \<Rightarrow> int \<Rightarrow> 'a \<Rightarrow> ('x ctx, bool \<times> 'a) call) \<Rightarrow> 'a \<Rightarrow> ('x ctx, 'a) call" where
  "IterateMaxCapLimit k cb a = (\<lambda>ctx.
     iterate (decode_cap k cb) (kv_prefix (mstore ctx) MaxCapLimitKeyPrefix) a ctx)"

text \<open>The callback of \<open>SetMaxCapLimit\<close>: the sum over all other contracts.\<close>

definition add_others :: "'x Keeper \<Rightarrow> bytes \<Rightarrow> bytes \<Rightarrow> int \<Rightarrow> int \<Rightarrow> ('x ctx, bool \<times> int) call" where
  "add_others k contract addr m tot =
     (if addr \<noteq> contract
      then bind (reading (\<lambda>_. int_add (lib k) tot m)) (\<lambda>t. ret (False, t))
      else ret (False, tot))"

definition SetMaxCapLimit :: "'x Keeper \<Rightarrow> bytes \<Rightarrow> coin \<Rightarrow> ('x ctx, unit) call" where
  "SetMaxCapLimit k contract newAmount = (\<lambda>ctx.
     if bond_denom k ctx \<noteq> denom newAmount then fail ErrInvalidCoins ctx
     else
       bind (IterateMaxCapLimit k (add_others k contract) 0) (\<lambda>tot.
       bind (reading (GetTotalContractsMaxCap k)) (\<lambda>totalMaxCap.
       bind (reading (\<lambda>_. int_of (amount newAmount))) (\<lambda>new.
       bind (reading (\<lambda>_. int_add (lib k) tot new)) (\<lambda>used.
       bind (reading (\<lambda>_. int_of (amount totalMaxCap))) (\<lambda>cap.
       if used > cap then fail (Wrapped ErrInvalid ''amount exceeds total available max cap'')
       else
         bind (reading (\<lambda>_. wrapping ''marshal amount'' (int_marshal (lib k) new))) (\<lambda>bz.
         bind (update_state (\<lambda>c. c\<lparr>mstore := kv_set (mstore c) (BuildMaxCapLimitKey contract) bz\<rparr>)) (\<lambda>_.
         update_state (EmitMaxCapLimitUpdatedEvent (lib k) contract newAmount)))))))) ctx)"

definition GetTotalDelegated :: "'x Keeper \<Rightarrow> 'x ctx \<Rightarrow> bytes \<Rightarrow> coin res" where
  "GetTotalDelegated k ctx actor =
     bindR (mustLoadInt k (mstore ctx) (BuildTotalDelegatedAmountKey actor)) (\<lambda>v.
       new_coin (lib k) (bond_denom k ctx) (if v < 0 then 0 else v))"

definition setTotalDelegated :: "'x Keeper \<Rightarrow> bytes \<Rightarrow> coin \<Rightarrow> ('x ctx, unit) call" where
  "setTotalDelegated k actor newAmount = (\<lambda>ctx.
     if bond_denom k ctx \<noteq> denom newAmount then panic ''not a staking denom'' ctx
     else
       bind (reading (\<lambda>_. bindR (int_of (amount newAmount)) (\<lambda>a. must (int_marshal (lib k) a)))) (\<lambda>bz.
       update_state (\<lambda>c. c\<lparr>mstore := kv_set (mstore c) (BuildTotalDelegatedAmountKey actor) bz\<rparr>)) ctx)"

section \<open>The limits as a table\<close>

text \<open>The integer that a stored value stands for, and the table of all limits.\<close>

definition int_value :: "sdk_lib \<Rightarrow> bytes \<Rightarrow> int" where
  "int_value L bz = (case int_unmarshal L bz of Ok a \<Rightarrow> a | _ \<Rightarrow> 0)"

definition max_caps :: "'x Keeper \<Rightarrow> 'x ctx \<Rightarrow> (bytes \<times> int) list" where
  "max_caps k ctx = map (\<lambda>(key, v). (key, int_value (lib k) v)) (kv_prefix (mstore ctx) MaxCapLimitKeyPrefix)"

definition other_caps :: "'x Keeper \<Rightarrow> bytes \<Rightarrow> 'x ctx \<Rightarrow> int" where
  "other_caps k contract ctx = sum_list (map snd (filter (\<lambda>e. fst e \<noteq> contract) (max_caps k ctx)))"

definition total_caps :: "'x Keeper \<Rightarrow> 'x ctx \<Rightarrow> int" where
  "total_caps k ctx = sum_list (map snd (max_caps k ctx))"

definition max_cap :: "'x Keeper \<Rightarrow> 'x ctx \<Rightarrow> bytes \<Rightarrow> int" where
  "max_cap k ctx contract = (case kv_get (mstore ctx) (BuildMaxCapLimitKey contract) of
     None \<Rightarrow> 0 | Some v \<Rightarrow> int_value (lib k) v)"

text \<open>Every stored limit decodes, and none is negative.\<close>

definition caps_ok :: "'x Keeper \<Rightarrow> 'x ctx \<Rightarrow> bool" where
  "caps_ok k ctx \<longleftrightarrow> list_all (\<lambda>(key, v). case int_unmarshal (lib k) v of Ok a \<Rightarrow> 0 \<le> a | _ \<Rightarrow> False)
     (kv_prefix (mstore ctx) MaxCapLimitKeyPrefix)"

lemma caps_okD:
  "caps_ok k ctx \<Longrightarrow> (key, v) \<in> set (kv_prefix (mstore ctx) MaxCapLimitKeyPrefix) \<Longrightarrow>
     int_unmarshal (lib k) v = Ok (int_value (lib k) v) \<and> 0 \<le> int_value (lib k) v"
  by (fastforce simp: caps_ok_def list_all_iff int_value_def split: res.splits)

lemma cap_key: "BuildMaxCapLimitKey a = MaxCapLimitKeyPrefix @ a"
  by (simp add: BuildMaxCapLimitKey_def)

lemma caps_entry:
  "kv_get (mstore ctx) (BuildMaxCapLimitKey a) = Some v \<longleftrightarrow>
     (a, v) \<in> set (kv_prefix (mstore ctx) MaxCapLimitKeyPrefix)"
  by (simp add: cap_key kvs.scan_iff)

lemma max_caps_iff: "(a, m) \<in> set (max_caps k ctx) \<longleftrightarrow> HasMaxCapLimit ctx a \<and> m = max_cap k ctx a"
proof -
  have "(a, m) \<in> set (max_caps k ctx) \<longleftrightarrow>
      (\<exists>v. (a, v) \<in> set (kv_prefix (mstore ctx) MaxCapLimitKeyPrefix) \<and> m = int_value (lib k) v)"
    by (force simp: max_caps_def image_iff)
  then show ?thesis
    by (cases "kv_get (mstore ctx) (BuildMaxCapLimitKey a)")
      (simp_all add: HasMaxCapLimit_def kv_has_def max_cap_def flip: caps_entry)
qed

lemma max_caps_distinct: "distinct (map fst (max_caps k ctx))"
proof -
  have "map fst (max_caps k ctx) = map fst (kv_prefix (mstore ctx) MaxCapLimitKeyPrefix)"
    by (simp add: max_caps_def case_prod_beta)
  then show ?thesis
    by (simp add: kvs.scan_distinct)
qed

lemma max_cap_nonneg: "caps_ok k ctx \<Longrightarrow> 0 \<le> max_cap k ctx a"
  by (auto simp: max_cap_def caps_entry dest: caps_okD split: option.split)

lemma other_caps_nonneg: "caps_ok k ctx \<Longrightarrow> 0 \<le> other_caps k contract ctx"
  unfolding other_caps_def by (rule sum_list_nonneg) (auto simp: max_caps_iff max_cap_nonneg)

lemma total_caps_split:
  assumes "HasMaxCapLimit ctx contract"
  shows "total_caps k ctx = max_cap k ctx contract + other_caps k contract ctx"
  using sum_split_key [OF max_caps_distinct, of contract "max_cap k ctx contract" k ctx snd] assms
  by (simp add: total_caps_def other_caps_def max_caps_iff)

lemma other_caps_absent: "\<not> HasMaxCapLimit ctx contract \<Longrightarrow> other_caps k contract ctx = total_caps k ctx"
  unfolding other_caps_def total_caps_def
  by (intro arg_cong [where f = "\<lambda>es. sum_list (map snd es)"] filter_True) (auto simp: max_caps_iff)

text \<open>A store of limits differs from another one at most at \<open>contract\<close>.\<close>

lemma max_caps_set:
  assumes "mstore d = kv_set (mstore c) (BuildMaxCapLimitKey contract) bz"
  shows "other_caps k contract d = other_caps k contract c"
    and "max_cap k d contract = int_value (lib k) bz"
    and "a \<noteq> contract \<Longrightarrow> max_cap k d a = max_cap k c a"
    and "HasMaxCapLimit d a \<longleftrightarrow> a = contract \<or> HasMaxCapLimit c a"
    and "caps_ok k c \<Longrightarrow> int_unmarshal (lib k) bz = Ok m \<Longrightarrow> 0 \<le> m \<Longrightarrow> caps_ok k d"
proof -
  have strip: "filter (\<lambda>e. fst e \<noteq> contract) (map (\<lambda>(key, v). (key, int_value (lib k) v)) es) =
      map (\<lambda>(key, v). (key, int_value (lib k) v)) (filter (\<lambda>e. fst e \<noteq> contract) es)" for es
    by (simp add: filter_map comp_def case_prod_beta)
  show "other_caps k contract d = other_caps k contract c"
    unfolding other_caps_def max_caps_def strip
    by (simp only: assms cap_key kvs.scan_put_others)
  show "max_cap k d contract = int_value (lib k) bz"
    by (simp add: max_cap_def assms)
  show "a \<noteq> contract \<Longrightarrow> max_cap k d a = max_cap k c a"
    by (simp add: max_cap_def assms cap_key)
  show "HasMaxCapLimit d a \<longleftrightarrow> a = contract \<or> HasMaxCapLimit c a"
    by (auto simp: HasMaxCapLimit_def assms cap_key)
  show "caps_ok k d" if "caps_ok k c" "int_unmarshal (lib k) bz = Ok m" "0 \<le> m"
    using that by (auto simp: caps_ok_def list_all_iff assms cap_key kvs.scan_put split: if_splits)
qed

section \<open>What SetMaxCapLimit does\<close>

lemma decode_cap_Ok:
  "int_unmarshal (lib k) v = Ok r \<Longrightarrow> decode_cap k cb (key, v) a s = cb key r a s"
  by (simp add: decode_cap_def bind_apply)

lemma decode_cap_eq_Ok:
  "decode_cap k cb (key, v) a s = (Ok x, t) \<longleftrightarrow>
     (\<exists>r. int_unmarshal (lib k) v = Ok r \<and> cb key r a s = (Ok x, t))"
  by (simp add: decode_cap_def bind_eq_Ok)

lemma add_others_eq_Ok:
  "add_others k contract addr m a s = (Ok x, t) \<longleftrightarrow> t = s \<and>
     (\<exists>b. x = (False, b) \<and> (if addr = contract then b = a else int_add (lib k) a m = Ok b))"
  by (auto simp: add_others_def bind_eq_Ok)

abbreviation sum_others :: "'x Keeper \<Rightarrow> bytes \<Rightarrow> (bytes \<times> bytes) list \<Rightarrow> int" where
  "sum_others k contract es \<equiv> sum_list (map snd (filter (\<lambda>e. fst e \<noteq> contract)
     (map (\<lambda>(key, v). (key, int_value (lib k) v)) es)))"

lemma iterate_add_others:
  assumes laws: "int_laws (lib k)"
  shows "iterate (decode_cap k (add_others k contract)) es a s = (Ok t, s') \<Longrightarrow>
    s' = s \<and> t = a + sum_others k contract es"
proof (induction es arbitrary: a)
  case (Cons e es)
  obtain key v where e: "e = (key, v)"
    by (cases e)
  from Cons.prems obtain r b where r: "int_unmarshal (lib k) v = Ok r"
    and step: "if key = contract then b = a else int_add (lib k) a r = Ok b"
    and rest: "iterate (decode_cap k (add_others k contract)) es b s = (Ok t, s')"
    by (auto simp: e bind_eq_Ok decode_cap_eq_Ok add_others_eq_Ok)
  have "s' = s \<and> t = b + sum_others k contract es"
    using rest by (rule Cons.IH)
  moreover have "b = (if key = contract then a else a + r)"
    using step int_add_result [OF laws, of a r b] by (simp split: if_splits)
  ultimately show ?case
    by (simp add: e int_value_def r)
qed simp

lemma total_of_others:
  assumes "int_laws (lib k)" and "IterateMaxCapLimit k (add_others k contract) 0 c = (Ok t, c')"
  shows "c' = c" and "t = other_caps k contract c"
  using iterate_add_others [OF assms(1), of contract _ 0 c t c'] assms(2)
  by (simp_all add: IterateMaxCapLimit_def other_caps_def max_caps_def)

text \<open>The sum is computed whenever the limits are in order and it fits an integer.\<close>

lemma iterate_add_others_total:
  assumes laws: "int_laws (lib k)"
  shows "\<forall>(key, v) \<in> set es. int_unmarshal (lib k) v = Ok (int_value (lib k) v) \<and> 0 \<le> int_value (lib k) v \<Longrightarrow>
    0 \<le> a \<Longrightarrow> int_fits (a + sum_others k contract es) \<Longrightarrow>
    iterate (decode_cap k (add_others k contract)) es a s = (Ok (a + sum_others k contract es), s)"
proof (induction es arbitrary: a)
  case (Cons e es)
  obtain key v where e: "e = (key, v)"
    by (cases e)
  let ?m = "int_value (lib k) v"
  have m: "int_unmarshal (lib k) v = Ok ?m" "0 \<le> ?m"
    using Cons.prems(1) by (simp_all add: e)
  have nonneg: "0 \<le> sum_others k contract es"
    by (rule sum_list_nonneg) (use Cons.prems(1) in \<open>auto simp: e\<close>)
  define b where "b = (if key = contract then a else a + ?m)"
  have b: "0 \<le> b" "a + sum_others k contract (e # es) = b + sum_others k contract es"
    using Cons.prems(2) m(2) by (simp_all add: b_def e)
  then have "int_fits b"
    using Cons.prems(3) nonneg by (simp add: int_fits_def)
  then have "add_others k contract key ?m a s = (Ok (False, b), s)"
    using int_lawsD(1) [OF laws, of a ?m] by (auto simp: add_others_eq_Ok b_def split: if_splits)
  then have "iterate (decode_cap k (add_others k contract)) (e # es) a s =
      iterate (decode_cap k (add_others k contract)) es b s"
    by (simp add: e bind_apply decode_cap_Ok [OF m(1)])
  also have "\<dots> = (Ok (b + sum_others k contract es), s)"
    by (rule Cons.IH) (use Cons.prems b in \<open>simp_all add: e\<close>)
  finally show ?case
    by (simp only: b(2))
qed simp

lemma others_total:
  assumes "int_laws (lib k)" and "caps_ok k c" and "int_fits (other_caps k contract c)"
  shows "IterateMaxCapLimit k (add_others k contract) 0 c = (Ok (other_caps k contract c), c)"
  using iterate_add_others_total [OF assms(1), of "kv_prefix (mstore c) MaxCapLimitKeyPrefix" 0 contract c]
    caps_okD [OF assms(2)] assms(3)
  by (auto simp: IterateMaxCapLimit_def other_caps_def max_caps_def)

text \<open>All that a successful call says, and all that it changes.\<close>

lemma SetMaxCapLimit_Ok:
  assumes laws: "int_laws (lib k)" and run: "SetMaxCapLimit k contract new c = (Ok u, d)"
  obtains a cap bz where "denom new = bond_denom k c" and "amount new = Some a"
    and "GetTotalContractsMaxCap k c = Ok cap" and "amount cap \<noteq> None"
    and "other_caps k contract c + a \<le> the (amount cap)" and "int_fits (other_caps k contract c + a)"
    and "int_marshal (lib k) a = Ok bz"
    and "d = EmitMaxCapLimitUpdatedEvent (lib k) contract new
      (c\<lparr>mstore := kv_set (mstore c) (BuildMaxCapLimitKey contract) bz\<rparr>)"
proof -
  have d: "denom new = bond_denom k c"
    using run by (auto simp: SetMaxCapLimit_def split: if_splits)
  with run obtain t c1 cap a used capi bz where
    tot: "IterateMaxCapLimit k (add_others k contract) 0 c = (Ok t, c1)"
    and cap: "GetTotalContractsMaxCap k c1 = Ok cap" and a: "int_of (amount new) = Ok a"
    and used: "int_add (lib k) t a = Ok used" and capi: "int_of (amount cap) = Ok capi"
    and le: "\<not> used > capi" and bz: "int_marshal (lib k) a = Ok bz"
    and res: "d = EmitMaxCapLimitUpdatedEvent (lib k) contract new
      (c1\<lparr>mstore := kv_set (mstore c1) (BuildMaxCapLimitKey contract) bz\<rparr>)"
    by (auto simp: SetMaxCapLimit_def bind_eq_Ok split: if_splits)
  note t = total_of_others [OF laws tot]
  have "amount new = Some a" "amount cap = Some capi"
    using a capi by (auto simp: int_of_def split: option.splits)
  moreover have "used = t + a \<and> int_fits used"
    by (rule int_add_result [OF laws used])
  ultimately show ?thesis
    using d cap le bz res t by (intro that [of a cap bz]) auto
qed

text \<open>Every outcome of the call in terms of the table of limits.\<close>

lemma SetMaxCapLimit_run:
  assumes laws: "int_laws (lib k)" and caps: "caps_ok k c"
    and cap: "GetTotalContractsMaxCap k c = Ok (coin_of d cap)"
    and fits: "int_fits (other_caps k contract c + a)" and a: "0 \<le> a" "int_marshal (lib k) a = Ok bz"
    and new: "amount new = Some a"
  shows "SetMaxCapLimit k contract new c =
    (if bond_denom k c \<noteq> denom new then (Err ErrInvalidCoins, c)
     else if other_caps k contract c + a > cap
       then (Err (Wrapped ErrInvalid ''amount exceeds total available max cap''), c)
     else (Ok (), EmitMaxCapLimitUpdatedEvent (lib k) contract new
       (c\<lparr>mstore := kv_set (mstore c) (BuildMaxCapLimitKey contract) bz\<rparr>)))"
proof -
  have "int_fits (other_caps k contract c)"
    using fits a(1) other_caps_nonneg [OF caps, of contract] by (simp add: int_fits_def)
  then have "IterateMaxCapLimit k (add_others k contract) 0 c = (Ok (other_caps k contract c), c)"
    by (rule others_total [OF laws caps])
  then show ?thesis
    using cap new a(2) int_lawsD(1) [OF laws fits]
    by (cases "bond_denom k c = denom new") (simp_all add: SetMaxCapLimit_def bind_apply)
qed

text \<open>The sum of the limits stays within the maximum, and no other limit moves.\<close>

lemma SetMaxCapLimit_within:
  assumes laws: "int_laws (lib k)" and caps: "caps_ok k c" and new: "amount new = Some a" "0 \<le> a"
    and cap: "GetTotalContractsMaxCap k c = Ok (coin_of dn cap)"
    and run: "SetMaxCapLimit k contract new c = (Ok u, d)"
  shows "total_caps k d \<le> cap \<and> max_cap k d contract = a \<and> HasMaxCapLimit d contract \<and> caps_ok k d \<and>
    (\<forall>b. b \<noteq> contract \<longrightarrow> max_cap k d b = max_cap k c b \<and> HasMaxCapLimit d b = HasMaxCapLimit c b)"
proof -
  obtain a' cap' bz where "amount new = Some a'" "GetTotalContractsMaxCap k c = Ok cap'"
      "other_caps k contract c + a' \<le> the (amount cap')" "int_fits (other_caps k contract c + a')"
    and bz: "int_marshal (lib k) a' = Ok bz"
    and d: "d = EmitMaxCapLimitUpdatedEvent (lib k) contract new
      (c\<lparr>mstore := kv_set (mstore c) (BuildMaxCapLimitKey contract) bz\<rparr>)"
    using SetMaxCapLimit_Ok [OF laws run] by blast
  then have [simp]: "a' = a" and sum: "other_caps k contract c + a \<le> cap"
    and fits: "int_fits (other_caps k contract c + a)"
    using new cap by auto
  have "int_fits a"
    using fits other_caps_nonneg [OF caps, of contract] new by (simp add: int_fits_def)
  then have val: "int_unmarshal (lib k) bz = Ok a"
    using int_lawsD(3) [OF laws] bz by fastforce
  have "mstore d = kv_set (mstore c) (BuildMaxCapLimitKey contract) bz"
    by (simp add: d)
  note set = max_caps_set [OF this]
  have "max_cap k d contract = a"
    using set(2) val by (simp add: int_value_def)
  moreover have "total_caps k d = max_cap k d contract + other_caps k contract d"
    by (rule total_caps_split) (simp add: set(4))
  ultimately show ?thesis
    using sum set(1,3,4) set(5) [OF caps val new(2)] by auto
qed

section \<open>The delegated totals\<close>

definition total_delegated :: "'x Keeper \<Rightarrow> 'x ctx \<Rightarrow> bytes \<Rightarrow> int" where
  "total_delegated k ctx actor = (case kv_get (mstore ctx) (BuildTotalDelegatedAmountKey actor) of
     None \<Rightarrow> 0 | Some v \<Rightarrow> max 0 (int_value (lib k) v))"

text \<open>Every stored total decodes.\<close>

definition totals_ok :: "'x Keeper \<Rightarrow> 'x ctx \<Rightarrow> bool" where
  "totals_ok k ctx \<longleftrightarrow> list_all (\<lambda>(key, v). is_ok (int_unmarshal (lib k) v))
     (kv_prefix (mstore ctx) TotalDelegatedAmountKeyPrefix)"

lemma total_delegated_fits:
  assumes "int_laws (lib k)"
  shows "int_fits (total_delegated k ctx actor)"
proof (cases "kv_get (mstore ctx) (BuildTotalDelegatedAmountKey actor)")
  case (Some v)
  have "int_fits (int_value (lib k) v)"
    using int_lawsD(5) [OF assms, of v] by (auto simp: int_value_def int_fits_def split: res.split)
  with Some show ?thesis
    by (auto simp: total_delegated_def int_fits_def max_def)
qed (simp add: total_delegated_def int_fits_def)

lemma total_key: "BuildTotalDelegatedAmountKey a = TotalDelegatedAmountKeyPrefix @ a"
  by (simp add: BuildTotalDelegatedAmountKey_def)

lemma GetTotalDelegated_value:
  assumes laws: "coin_laws (lib k)" and "totals_ok k c" and "ValidateDenom (lib k) (bond_denom k c)"
  shows "GetTotalDelegated k c actor = Ok (coin_of (bond_denom k c) (total_delegated k c actor))"
proof (cases "kv_get (mstore c) (BuildTotalDelegatedAmountKey actor)")
  case None
  then show ?thesis
    using coin_lawsD(1) [OF laws assms(3)]
    by (simp add: GetTotalDelegated_def mustLoadInt_def total_delegated_def)
next
  case (Some v)
  then have "is_ok (int_unmarshal (lib k) v)"
    using assms(2) by (auto simp: totals_ok_def list_all_iff total_key kvs.scan_iff)
  then obtain a where "int_unmarshal (lib k) v = Ok a"
    by (auto simp: is_ok_iff)
  with Some show ?thesis
    using coin_lawsD(1) [OF laws assms(3)]
    by (auto simp: GetTotalDelegated_def mustLoadInt_def total_delegated_def int_value_def max_def)
qed

lemma GetMaxCapLimit_value:
  assumes laws: "coin_laws (lib k)" and caps: "caps_ok k c" and "ValidateDenom (lib k) (bond_denom k c)"
  shows "GetMaxCapLimit k c actor = Ok (coin_of (bond_denom k c) (max_cap k c actor))"
proof (cases "kv_get (mstore c) (BuildMaxCapLimitKey actor)")
  case None
  then show ?thesis
    using coin_lawsD(1) [OF laws assms(3)] by (simp add: GetMaxCapLimit_def mustLoadInt_def max_cap_def)
next
  case (Some v)
  then have "int_unmarshal (lib k) v = Ok (int_value (lib k) v) \<and> 0 \<le> int_value (lib k) v"
    by (intro caps_okD [OF caps]) (simp add: caps_entry)
  with Some show ?thesis
    using coin_lawsD(1) [OF laws assms(3)] by (simp add: GetMaxCapLimit_def mustLoadInt_def max_cap_def)
qed

lemma setTotalDelegated_run:
  assumes "int_marshal (lib k) a = Ok bz" and "d = bond_denom k c"
  shows "setTotalDelegated k actor (coin_of d a) c =
    (Ok (), c\<lparr>mstore := kv_set (mstore c) (BuildTotalDelegatedAmountKey actor) bz\<rparr>)"
  using assms by (simp add: setTotalDelegated_def bind_apply)

end
