(* ===== verification/Stake.thy ===== *)
theory Stake
  imports MaxCap
begin

text \<open>
  \<open>keeper/stake.go\<close>: a contract bonds virtual tokens, which are minted, sent to it and delegated,
  and unbonds them instantly, which burns them again.  Both run in a branch of the state.  The
  lemmas give the outcome of every branch, and show that a contract's total never exceeds its limit
  through \<open>Delegate\<close> and only falls through \<open>Undelegate\<close>.
\<close>

section \<open>Operations\<close>

definition ErrInvalidRequest :: err where "ErrInvalidRequest = Sentinel ''errors.ErrInvalidRequest''"
definition ErrNoValidatorFound :: err where "ErrNoValidatorFound = Sentinel ''stakingtypes.ErrNoValidatorFound''"
definition ErrNoDelegation :: err where "ErrNoDelegation = Sentinel ''stakingtypes.ErrNoDelegation''"

definition positive :: "int option \<Rightarrow> bool" where
  "positive a = (case a of None \<Rightarrow> False | Some i \<Rightarrow> 0 < i)"

text \<open>
  The part of \<open>Delegate\<close> in the branch.  The staking keeper's error is returned at the end, after
  the total was stored and the branch written.
\<close>

definition delegate_in_branch :: "'x Keeper \<Rightarrow> bytes \<Rightarrow> validator \<Rightarrow> string \<Rightarrow> coin \<Rightarrow> int \<Rightarrow> coin \<Rightarrow>
    ('x ctx, bool \<times> dec res) call" where
  "delegate_in_branch k actor validator bondDenom amt a newTotal =
     bind (reading (\<lambda>_. new_coins (lib k) amt)) (\<lambda>coins.
     bind (MintCoins (bank k) ModuleName coins) (\<lambda>_.
     bind (AddSupplyOffset (bank k) bondDenom (- a)) (\<lambda>_.
     bind (SendCoinsFromModuleToAccount (bank k) ModuleName actor coins) (\<lambda>_.
     bind (attempt (StakingDelegate (Staking k) actor a Unbonded validator True)) (\<lambda>newShares.
     bind (setTotalDelegated k actor newTotal) (\<lambda>_.
     ret (True, newShares)))))))"

definition Delegate :: "'x Keeper \<Rightarrow> bytes \<Rightarrow> bytes \<Rightarrow> coin \<Rightarrow> ('x ctx, dec) call" where
  "Delegate k actor valAddr amt = (\<lambda>pCtx.
     if \<not> positive (amount amt) then fail (Wrapped ErrInvalidRequest ''amount'') pCtx
     else
       let bondDenom = bond_denom k pCtx in
       if denom amt \<noteq> bondDenom then fail (Wrapped ErrInvalidRequest ''invalid coin denomination'') pCtx
       else (case GetValidator (Staking k) (chain pCtx) valAddr of
         None \<Rightarrow> fail ErrNoValidatorFound pCtx
       | Some validator \<Rightarrow>
           bind (reading (\<lambda>c. bindR (GetTotalDelegated k c actor) (\<lambda>t. coin_add (lib k) t amt))) (\<lambda>newTotal.
           bind (reading (\<lambda>c. GetMaxCapLimit k c actor)) (\<lambda>max.
           bind (reading (\<lambda>_. coin_is_lt (lib k) max newTotal)) (\<lambda>exceeded.
           if exceeded then fail (Wrapped ErrMaxCapExceeded ''exceeds'')
           else
             bind (cached (delegate_in_branch k actor validator bondDenom amt (the (amount amt)) newTotal))
               (\<lambda>newShares. reading (\<lambda>_. newShares))))) pCtx))"

text \<open>
  The part of \<open>Undelegate\<close> in the branch, once the shares are known: the coins are taken back and
  burned, and the new total is stored.
\<close>

definition unbond_and_burn :: "'x Keeper \<Rightarrow> bytes \<Rightarrow> bytes \<Rightarrow> string \<Rightarrow> coin \<Rightarrow> dec \<Rightarrow> ('x ctx, bool \<times> unit) call" where
  "unbond_and_burn k actor valAddr bondDenom tot sh =
     bind (InstantUndelegate (Staking k) actor valAddr sh) (\<lambda>undelegatedCoins.
     bind (SendCoinsFromAccountToModule (bank k) actor ModuleName undelegatedCoins) (\<lambda>_.
     bind (BurnCoins (bank k) ModuleName undelegatedCoins) (\<lambda>_.
     bind (reading (\<lambda>_. bindR (amount_of (lib k) undelegatedCoins bondDenom) (new_coin (lib k) bondDenom))) (\<lambda>unbonded.
     bind (reading (\<lambda>_. int_of (amount unbonded))) (\<lambda>u.
     bind (AddSupplyOffset (bank k) bondDenom u) (\<lambda>_.
     bind (reading (\<lambda>_. coin_sub (lib k) tot unbonded)) (\<lambda>newDelegated.
     bind (reading (\<lambda>_. bindR (int_of (amount newDelegated)) (\<lambda>n.
       if n < 0 then new_coin (lib k) bondDenom 0 else Ok newDelegated))) (\<lambda>newDelegated.
     bind (setTotalDelegated k actor newDelegated) (\<lambda>_.
     ret (True, ()))))))))))"

text \<open>The whole part in the branch; without a delegation it returns without writing.\<close>

definition undelegate_in_branch :: "'x Keeper \<Rightarrow> bytes \<Rightarrow> bytes \<Rightarrow> string \<Rightarrow> coin \<Rightarrow> int \<Rightarrow>
    ('x ctx, bool \<times> unit) call" where
  "undelegate_in_branch k actor valAddr bondDenom amt a =
     bind (reading (\<lambda>c. GetTotalDelegated k c actor)) (\<lambda>tot.
     bind (reading (\<lambda>_. coin_is_lt (lib k) tot amt)) (\<lambda>lt.
     if lt then fail (Wrapped ErrInvalidRequest ''amount exceeds total delegated'')
     else
       bind (attempt (reading (\<lambda>c. ValidateUnbondAmount (Staking k) (chain c) actor valAddr a))) (\<lambda>shares.
       case shares of
         Err e \<Rightarrow> if e = ErrNoDelegation then ret (False, ()) else fail e
       | Panic p \<Rightarrow> panic p
       | Ok sh \<Rightarrow> unbond_and_burn k actor valAddr bondDenom tot sh)))"

definition Undelegate :: "'x Keeper \<Rightarrow> bytes \<Rightarrow> bytes \<Rightarrow> coin \<Rightarrow> ('x ctx, unit) call" where
  "Undelegate k actor valAddr amt = (\<lambda>pCtx.
     if \<not> positive (amount amt) then fail (Wrapped ErrInvalidRequest ''amount'') pCtx
     else
       let bondDenom = bond_denom k pCtx in
       if denom amt \<noteq> bondDenom then fail (Wrapped ErrInvalidRequest ''invalid coin denomination'') pCtx
       else cached (undelegate_in_branch k actor valAddr bondDenom amt (the (amount amt))) pCtx)"

section \<open>Delegate\<close>

text \<open>What a call needs to get past its checks.\<close>

definition may_delegate :: "'x Keeper \<Rightarrow> 'x ctx \<Rightarrow> bytes \<Rightarrow> bytes \<Rightarrow> coin \<Rightarrow> int \<Rightarrow> bool" where
  "may_delegate k c actor valAddr amt a \<longleftrightarrow>
     amount amt = Some a \<and> 0 < a \<and> denom amt = bond_denom k c \<and>
     GetValidator (Staking k) (chain c) valAddr \<noteq> None \<and>
     total_delegated k c actor + a \<le> max_cap k c actor"

definition ledger_ok :: "'x Keeper \<Rightarrow> 'x ctx \<Rightarrow> bool" where
  "ledger_ok k c \<longleftrightarrow> caps_ok k c \<and> totals_ok k c \<and> ValidateDenom (lib k) (bond_denom k c)"

lemma positive_Some [simp]: "positive (Some i) \<longleftrightarrow> 0 < i"
  by (simp add: positive_def)

lemma positive_iff: "positive x \<longleftrightarrow> (\<exists>i. x = Some i \<and> 0 < i)"
  by (simp add: positive_def split: option.split)

lemma total_delegated_nonneg: "0 \<le> total_delegated k c actor"
  by (simp add: total_delegated_def split: option.split)

text \<open>The checks, in their order, in terms of the tables.\<close>

lemma Delegate_checks:
  assumes laws: "int_laws (lib k)" "coin_laws (lib k)" and ok: "ledger_ok k c"
    and fits: "int_fits (total_delegated k c actor + the (amount amt))"
  shows "Delegate k actor valAddr amt c =
    (if \<not> positive (amount amt) then (Err (Wrapped ErrInvalidRequest ''amount''), c)
     else if denom amt \<noteq> bond_denom k c then (Err (Wrapped ErrInvalidRequest ''invalid coin denomination''), c)
     else case GetValidator (Staking k) (chain c) valAddr of
       None \<Rightarrow> (Err ErrNoValidatorFound, c)
     | Some v \<Rightarrow>
         let a = the (amount amt); d = bond_denom k c in
         if max_cap k c actor < total_delegated k c actor + a
         then (Err (Wrapped ErrMaxCapExceeded ''exceeds''), c)
         else bind (cached (delegate_in_branch k actor v d amt a (coin_of d (total_delegated k c actor + a))))
           (\<lambda>newShares. reading (\<lambda>_. newShares)) c)"
proof (cases "positive (amount amt) \<and> denom amt = bond_denom k c")
  case True
  then obtain b where b: "amount amt = Some b" "0 < b" "denom amt = bond_denom k c"
    by (auto simp: positive_iff)
  then have amt: "amt = coin_of (bond_denom k c) b"
    by simp
  have "int_add (lib k) (total_delegated k c actor) b = Ok (total_delegated k c actor + b)"
    using fits b(1) int_lawsD(1) [OF laws(1), of "total_delegated k c actor" b] amt by auto
  moreover have "GetTotalDelegated k c actor = Ok (coin_of (bond_denom k c) (total_delegated k c actor))"
    "GetMaxCapLimit k c actor = Ok (coin_of (bond_denom k c) (max_cap k c actor))"
    using ok by (auto simp: ledger_ok_def intro!: GetTotalDelegated_value [OF laws(2)] GetMaxCapLimit_value [OF laws(2)])
  ultimately show ?thesis
    using b(2) unfolding amt
    by (simp add: Delegate_def Let_def bind_apply coin_lawsD(3,6) [OF laws(2)] split: option.split)
qed (auto simp: Delegate_def Let_def)

text \<open>What the branch leaves when it is written: the total stored last, whatever the calls did.\<close>

lemma total_after_set:
  assumes laws: "int_laws (lib k)" and fits: "int_fits t" and t: "0 \<le> t"
    and run: "setTotalDelegated k actor (coin_of d t) s = (Ok u, s')"
  shows "total_delegated k s' actor = t" and "a \<noteq> actor \<Longrightarrow> total_delegated k s' a = total_delegated k s a"
    and "max_cap k s' x = max_cap k s x" and "chain s' = chain s"
proof -
  obtain bz where bz: "int_marshal (lib k) t = Ok bz" "int_unmarshal (lib k) bz = Ok t"
    using int_lawsD(3) [OF laws fits] by blast
  have "d = bond_denom k s"
    using run by (auto simp: setTotalDelegated_def split: if_splits)
  then have s': "s' = s\<lparr>mstore := kv_set (mstore s) (BuildTotalDelegatedAmountKey actor) bz\<rparr>"
    using run setTotalDelegated_run [OF bz(1), of d s actor] by simp
  show "total_delegated k s' actor = t"
    using t by (simp add: s' total_delegated_def int_value_def bz)
  show "a \<noteq> actor \<Longrightarrow> total_delegated k s' a = total_delegated k s a"
    by (simp add: s' total_delegated_def total_key)
  show "max_cap k s' x = max_cap k s x"
    by (simp add: s' max_cap_def total_key cap_key prefix_defs)
  show "chain s' = chain s"
    by (simp add: s')
qed

lemma delegate_in_branch_total:
  assumes laws: "int_laws (lib k)" and fits: "int_fits t" "0 \<le> t"
    and run: "delegate_in_branch k actor v d amt a (coin_of d t) s = (Ok (w, r), s')"
  shows "w" and "total_delegated k s' actor = t" and "\<not> (\<exists>p. r = Panic p)"
proof -
  from run obtain s1 s2 u where r: "attempt (StakingDelegate (Staking k) actor a Unbonded v True) s1 = (Ok r, s2)"
    and set: "setTotalDelegated k actor (coin_of d t) s2 = (Ok u, s')" and w: "w"
    by (auto simp: delegate_in_branch_def bind_eq_Ok)
  show "w" by (rule w)
  show "total_delegated k s' actor = t"
    by (rule total_after_set(1) [OF laws fits set])
  show "\<not> (\<exists>p. r = Panic p)"
    using r by (auto simp: attempt_apply split: prod.splits res.splits)
qed

text \<open>
  Either nothing but gas has changed, or all checks were passed and the branch was written.
\<close>

lemma Delegate_branch_fits:
  assumes laws: "int_laws (lib k)" "coin_laws (lib k)" and ok: "ledger_ok k c"
    and a: "amount amt = Some a" and fits: "int_fits (total_delegated k c actor + a)"
    and run: "Delegate k actor valAddr amt c = (r, c')"
  obtains (dropped) b where "c' = drop_cache c b" and "\<not> is_ok r"
  | (written) v sh s where "may_delegate k c actor valAddr amt a"
    and "delegate_in_branch k actor v (bond_denom k c) amt a (coin_of (bond_denom k c) (total_delegated k c actor + a))
      (open_cache c) = (Ok (True, sh), s)" and "c' = write_cache c s"
proof -
  let ?t = "total_delegated k c actor + a" and ?d = "bond_denom k c"
  note checks = Delegate_checks [where amt = amt and actor = actor and valAddr = valAddr, OF laws ok] run a fits
  show ?thesis
  proof (cases "may_delegate k c actor valAddr amt a")
    case False
    have "\<not> is_ok r \<and> c' = c"
      using False checks by (auto simp: may_delegate_def split: if_splits option.splits)
    moreover have "c = drop_cache c c"
      by (simp add: drop_cache_def)
    ultimately show ?thesis
      by (metis dropped)
  next
    case True
    then obtain v where v: "GetValidator (Staking k) (chain c) valAddr = Some v" and pos: "0 < a"
      by (auto simp: may_delegate_def)
    let ?branch = "cached (delegate_in_branch k actor v ?d amt a (coin_of ?d ?t))"
    have run': "bind ?branch (\<lambda>newShares. reading (\<lambda>_. newShares)) c = (r, c')"
      using True v checks by (simp add: may_delegate_def Let_def)
    obtain b c1 where b: "?branch c = (b, c1)"
      by (cases "?branch c")
    show ?thesis
    proof (cases "is_ok b")
      case False
      then have "c' = c1 \<and> \<not> is_ok r"
        using run' b by (cases b) (auto simp: bind_apply)
      with cached_not_Ok [OF b False] show ?thesis
        using dropped by auto
    next
      case True': True
      then obtain sh where "b = Ok sh"
        by (auto simp: is_ok_iff)
      then obtain w s where branch: "delegate_in_branch k actor v ?d amt a (coin_of ?d ?t) (open_cache c) = (Ok (w, sh), s)"
        and c1: "c1 = (if w then write_cache c s else drop_cache c s)"
        using b by (auto simp: cached_Ok)
      have "0 \<le> ?t"
        using total_delegated_nonneg [of k c actor] pos by simp
      then have "w"
        by (rule delegate_in_branch_total(1) [OF laws(1) fits _ branch])
      moreover have "c' = c1"
        using run' b \<open>b = Ok sh\<close> by (simp add: bind_apply)
      ultimately show ?thesis
        using written [OF True] branch c1 by simp
    qed
  qed
qed

text \<open>A total that no longer fits an integer makes the addition panic before anything is done.\<close>

lemma Delegate_overflow:
  assumes laws: "int_laws (lib k)" "coin_laws (lib k)" and ok: "ledger_ok k c"
    and a: "amount amt = Some a" and big: "\<not> int_fits (total_delegated k c actor + a)"
  obtains r where "Delegate k actor valAddr amt c = (r, c)" and "\<not> is_ok r"
proof (cases "0 < a \<and> denom amt = bond_denom k c \<and> GetValidator (Staking k) (chain c) valAddr \<noteq> None")
  case True
  then have amt: "amt = coin_of (bond_denom k c) a"
    using a by simp
  have "GetTotalDelegated k c actor = Ok (coin_of (bond_denom k c) (total_delegated k c actor))"
    using ok by (auto simp: ledger_ok_def intro!: GetTotalDelegated_value [OF laws(2)])
  moreover obtain p where "int_add (lib k) (total_delegated k c actor) a = Panic p"
    using int_lawsD(2) [OF laws(1) big] by blast
  ultimately have "Delegate k actor valAddr amt c = (Panic p, c)"
    using True unfolding amt
    by (auto simp: Delegate_def Let_def bind_apply coin_lawsD(3) [OF laws(2)])
  then show ?thesis by (rule that) simp
next
  case False
  then have "\<exists>e. Delegate k actor valAddr amt c = (Err e, c)"
    using a by (auto simp: Delegate_def Let_def)
  then show ?thesis
    using that by auto
qed

lemma Delegate_branch:
  assumes laws: "int_laws (lib k)" "coin_laws (lib k)" and ok: "ledger_ok k c"
    and a: "amount amt = Some a" and run: "Delegate k actor valAddr amt c = (r, c')"
  obtains (dropped) b where "c' = drop_cache c b" and "\<not> is_ok r"
  | (written) v sh s where "may_delegate k c actor valAddr amt a" and "int_fits (total_delegated k c actor + a)"
    and "delegate_in_branch k actor v (bond_denom k c) amt a (coin_of (bond_denom k c) (total_delegated k c actor + a))
      (open_cache c) = (Ok (True, sh), s)" and "c' = write_cache c s"
proof (cases "int_fits (total_delegated k c actor + a)")
  case True
  show ?thesis
    by (rule Delegate_branch_fits [OF laws ok a True run]) (auto intro: dropped written [OF _ True])
next
  case False
  then have "c' = c \<and> \<not> is_ok r"
    using Delegate_overflow [OF laws ok a False, of valAddr] run by (metis prod.inject)
  moreover have "c = drop_cache c c"
    by (simp add: drop_cache_def)
  ultimately show ?thesis
    by (metis dropped)
qed

text \<open>
  Every outcome of \<open>Delegate\<close>: either nothing but gas has changed, or the total has grown by the
  amount and is within the limit; the latter also when the staking keeper refused the delegation.
\<close>

lemma Delegate_outcome:
  assumes laws: "int_laws (lib k)" "coin_laws (lib k)" and ok: "ledger_ok k c"
    and a: "amount amt = Some a" and run: "Delegate k actor valAddr amt c = (r, c')"
  shows "(\<exists>b. c' = drop_cache c b) \<and> \<not> is_ok r \<or>
    may_delegate k c actor valAddr amt a \<and>
      total_delegated k c' actor = total_delegated k c actor + a \<and>
      total_delegated k c' actor \<le> max_cap k c actor"
proof (rule Delegate_branch [OF assms])
  fix v sh s
  let ?t = "total_delegated k c actor + a" and ?d = "bond_denom k c"
  assume may: "may_delegate k c actor valAddr amt a" and fits: "int_fits ?t"
    and branch: "delegate_in_branch k actor v ?d amt a (coin_of ?d ?t) (open_cache c) = (Ok (True, sh), s)"
    and c': "c' = write_cache c s"
  have "0 \<le> ?t"
    using may total_delegated_nonneg [of k c actor] by (simp add: may_delegate_def)
  from delegate_in_branch_total(2) [OF laws(1) fits this branch]
  have "total_delegated k c' actor = ?t"
    by (simp add: c' total_delegated_def)
  with may show ?thesis
    by (simp add: may_delegate_def)
qed auto

text \<open>
  The staking keeper's outcome is returned as it is, and whatever it is the new total is stored and
  the branch written.
\<close>

lemma Delegate_runs:
  assumes laws: "int_laws (lib k)" "coin_laws (lib k)" and ok: "ledger_ok k c"
    and may: "may_delegate k c actor valAddr amt a" and fits: "int_fits (total_delegated k c actor + a)"
    and coins: "new_coins (lib k) amt = Ok coins"
    and mint: "MintCoins (bank k) ModuleName coins (open_cache c) = (Ok (), s1)"
    and offset: "AddSupplyOffset (bank k) (bond_denom k c) (- a) s1 = (Ok (), s2)"
    and send: "SendCoinsFromModuleToAccount (bank k) ModuleName actor coins s2 = (Ok (), s3)"
    and staking: "attempt (StakingDelegate (Staking k) actor a Unbonded
      (the (GetValidator (Staking k) (chain c) valAddr)) True) s3 = (Ok r, s4)"
    and same: "bond_denom k s4 = bond_denom k c"
  obtains c' where "Delegate k actor valAddr amt c = (r, c')"
    and "total_delegated k c' actor = total_delegated k c actor + a" and "chain c' = chain s4"
proof -
  let ?t = "total_delegated k c actor + a" and ?d = "bond_denom k c"
  obtain v where v: "GetValidator (Staking k) (chain c) valAddr = Some v"
    and amt: "amount amt = Some a" "0 < a" "denom amt = ?d" "?t \<le> max_cap k c actor"
    using may by (auto simp: may_delegate_def)
  have nonneg: "0 \<le> ?t"
    using total_delegated_nonneg [of k c actor] amt by simp
  obtain bz where bz: "int_marshal (lib k) ?t = Ok bz"
    using int_lawsD(3) [OF laws(1) fits] by blast
  define s5 where "s5 = s4\<lparr>mstore := kv_set (mstore s4) (BuildTotalDelegatedAmountKey actor) bz\<rparr>"
  have set: "setTotalDelegated k actor (coin_of ?d ?t) s4 = (Ok (), s5)"
    unfolding s5_def by (rule setTotalDelegated_run [OF bz]) (simp add: same)
  have "attempt (StakingDelegate (Staking k) actor a Unbonded v True) s3 = (Ok r, s4)"
    using staking v by simp
  then have "delegate_in_branch k actor v ?d amt a (coin_of ?d ?t) (open_cache c) = (Ok (True, r), s5)"
    using mint offset send set by (simp add: delegate_in_branch_def coins bind_apply)
  then have "cached (delegate_in_branch k actor v ?d amt a (coin_of ?d ?t)) c = (Ok r, write_cache c s5)"
    by (auto simp: cached_Ok)
  then have "Delegate k actor valAddr amt c = (r, write_cache c s5)"
    using Delegate_checks [where amt = amt and actor = actor and valAddr = valAddr, OF laws ok] amt v fits by (simp add: Let_def bind_apply)
  moreover note total_after_set(1,4) [OF laws(1) fits nonneg set]
  ultimately show ?thesis
    by (intro that [of "write_cache c s5"]) (simp_all add: total_delegated_def)
qed

section \<open>Undelegate\<close>

text \<open>
  The total only falls, by the amount that was unbonded, and only if all went well; a contract
  without a delegation gets a success that changes nothing.
\<close>

lemma unbond_and_burn_calls:
  assumes laws: "int_laws (lib k)" "coin_laws (lib k)" and fits: "int_fits t" and t: "0 \<le> t"
    and run: "unbond_and_burn k actor valAddr d (coin_of d t) sh s = (Ok (w, u), s')"
  obtains cs s1 s2 s3 x s4 where "InstantUndelegate (Staking k) actor valAddr sh s = (Ok cs, s1)"
    and "SendCoinsFromAccountToModule (bank k) actor ModuleName cs s1 = (Ok (), s2)"
    and "BurnCoins (bank k) ModuleName cs s2 = (Ok (), s3)"
    and "amount_of (lib k) cs d = Ok x" and "AddSupplyOffset (bank k) d x s3 = (Ok (), s4)"
    and "0 \<le> x" and "x \<le> t" and "total_delegated k s' actor = t - x" and "chain s' = chain s4" and "w"
proof -
  from run obtain cs s1 s2 s3 s4 x0 unbonded u0 newD n nd i where
    calls: "InstantUndelegate (Staking k) actor valAddr sh s = (Ok cs, s1)"
      "SendCoinsFromAccountToModule (bank k) actor ModuleName cs s1 = (Ok (), s2)"
      "BurnCoins (bank k) ModuleName cs s2 = (Ok (), s3)" "amount_of (lib k) cs d = Ok x0"
    and ub: "new_coin (lib k) d x0 = Ok unbonded" and i: "int_of (amount unbonded) = Ok i"
    and offset: "AddSupplyOffset (bank k) d i s3 = (Ok (), s4)"
    and sub: "coin_sub (lib k) (coin_of d t) unbonded = Ok newD" and n: "int_of (amount newD) = Ok n"
    and nd: "(if n < 0 then new_coin (lib k) d 0 else Ok newD) = Ok nd"
    and set: "setTotalDelegated k actor nd s4 = (Ok u0, s')" and w
    unfolding unbond_and_burn_def bind_eq_Ok reading_def bindR_eq_Ok by (elim exE conjE) (auto simp: bindR_eq_Ok)
  have x0: "0 \<le> x0" "unbonded = coin_of d x0"
    using ub by (simp_all add: new_coin_Ok [OF laws(2)])
  have le: "x0 \<le> t"
  proof (rule ccontr)
    assume "\<not> x0 \<le> t"
    then obtain p where "coin_sub (lib k) (coin_of d t) (coin_of d x0) = Panic p"
      using coin_lawsD(5) [OF laws(2), of t x0 d] by auto
    with sub x0(2) show False by simp
  qed
  then have "newD = coin_of d (t - x0)"
    using sub coin_lawsD(4) [OF laws(2) le, of d] x0(2) by simp
  with n nd le have "nd = coin_of d (t - x0)"
    by simp
  with set have set': "setTotalDelegated k actor (coin_of d (t - x0)) s4 = (Ok u0, s')"
    by simp
  have "int_fits (t - x0)" "0 \<le> t - x0"
    using fits le x0(1) t by (auto simp: int_fits_def)
  from total_after_set(1,4) [OF laws(1) this set'] have "total_delegated k s' actor = t - x0" "chain s' = chain s4" .
  moreover have "AddSupplyOffset (bank k) d x0 s3 = (Ok (), s4)"
    using offset i x0(2) by simp
  ultimately show ?thesis
    using calls x0(1) le \<open>w\<close> by (intro that)
qed

lemma unbond_and_burn_total:
  assumes "int_laws (lib k)" "coin_laws (lib k)" and "int_fits t" and "0 \<le> t"
    and "unbond_and_burn k actor valAddr d (coin_of d t) sh s = (Ok (w, u), s')"
  obtains x where "0 \<le> x" and "x \<le> t" and "total_delegated k s' actor = t - x" and "w"
  by (rule unbond_and_burn_calls [OF assms]) (rule that)

lemma Undelegate_branch:
  assumes laws: "int_laws (lib k)" "coin_laws (lib k)" and ok: "ledger_ok k c"
    and a: "amount amt = Some a" and run: "Undelegate k actor valAddr amt c = (r, c')"
  obtains (dropped) b where "c' = drop_cache c b"
  | (written) sh s where "is_ok r" and "0 < a" and "a \<le> total_delegated k c actor"
    and "unbond_and_burn k actor valAddr (bond_denom k c) (coin_of (bond_denom k c) (total_delegated k c actor)) sh
      (open_cache c) = (Ok (True, ()), s)" and "c' = write_cache c s"
proof -
  let ?d = "bond_denom k c" and ?t = "total_delegated k c actor"
  show ?thesis
  proof (cases "0 < a \<and> denom amt = ?d")
    case False
    then have "c' = c"
      using run a by (auto simp: Undelegate_def Let_def split: if_splits)
    then show ?thesis
      by (intro dropped [of c]) (simp add: drop_cache_def)
  next
    case True
    then have amt: "amt = coin_of ?d a"
      using a by simp
    have run': "cached (undelegate_in_branch k actor valAddr ?d amt a) c = (r, c')"
      using run True a by (simp add: Undelegate_def Let_def)
    have get: "GetTotalDelegated k (open_cache c) actor = Ok (coin_of ?d ?t)"
      using ok GetTotalDelegated_value [OF laws(2), of "open_cache c" actor]
      by (simp add: ledger_ok_def totals_ok_def bond_denom_def total_delegated_def)
    show ?thesis
    proof (cases "is_ok r")
      case False
      with cached_not_Ok [OF run' False] show ?thesis
        using dropped by blast
    next
      case ok_r: True
      then obtain w s where branch: "undelegate_in_branch k actor valAddr ?d amt a (open_cache c) = (Ok (w, ()), s)"
        and c': "c' = (if w then write_cache c s else drop_cache c s)"
        using run' by (auto simp: cached_Ok is_ok_iff)
      show ?thesis
      proof (cases w)
        case False
        with c' show ?thesis
          using dropped by simp
      next
        case True': True
        have le: "a \<le> ?t"
          using branch by (auto simp: undelegate_in_branch_def bind_apply get amt coin_lawsD(6) [OF laws(2)]
              split: if_splits)
        with branch True' obtain sh where
          "unbond_and_burn k actor valAddr ?d (coin_of ?d ?t) sh (open_cache c) = (Ok (True, ()), s)"
          by (auto simp: undelegate_in_branch_def bind_apply attempt_apply get amt
              coin_lawsD(6) [OF laws(2)] split: if_splits res.splits)
        with ok_r True le c' True' show ?thesis
          by (intro written) simp_all
      qed
    qed
  qed
qed

lemma Undelegate_outcome:
  assumes laws: "int_laws (lib k)" "coin_laws (lib k)" and ok: "ledger_ok k c"
    and a: "amount amt = Some a" and run: "Undelegate k actor valAddr amt c = (r, c')"
  shows "(\<exists>b. c' = drop_cache c b) \<or>
    is_ok r \<and> 0 < a \<and> a \<le> total_delegated k c actor \<and>
      (\<exists>x. 0 \<le> x \<and> x \<le> total_delegated k c actor \<and>
         total_delegated k c' actor = total_delegated k c actor - x)"
proof (rule Undelegate_branch [OF assms])
  let ?d = "bond_denom k c" and ?t = "total_delegated k c actor"
  fix sh s
  assume "is_ok r" "0 < a" "a \<le> ?t"
    and branch: "unbond_and_burn k actor valAddr ?d (coin_of ?d ?t) sh (open_cache c) = (Ok (True, ()), s)"
    and c': "c' = write_cache c s"
  moreover from unbond_and_burn_total [OF laws total_delegated_fits [OF laws(1)] total_delegated_nonneg branch]
  obtain x where "0 \<le> x" "x \<le> ?t" "total_delegated k s actor = ?t - x" .
  ultimately show ?thesis
    by (auto simp: total_delegated_def)
qed auto

text \<open>The calls in their order, when all of them succeed: the total falls by what was undelegated.\<close>

lemma Undelegate_runs:
  assumes laws: "int_laws (lib k)" "coin_laws (lib k)" and ok: "ledger_ok k c"
    and a: "amt = coin_of (bond_denom k c) a" "0 < a" "a \<le> total_delegated k c actor"
    and shares: "ValidateUnbondAmount (Staking k) (chain c) actor valAddr a = Ok sh"
    and undelegate: "InstantUndelegate (Staking k) actor valAddr sh (open_cache c) = (Ok coins, s1)"
    and send: "SendCoinsFromAccountToModule (bank k) actor ModuleName coins s1 = (Ok (), s2)"
    and burn: "BurnCoins (bank k) ModuleName coins s2 = (Ok (), s3)"
    and x: "amount_of (lib k) coins (bond_denom k c) = Ok x" "0 \<le> x" "x \<le> total_delegated k c actor"
    and offset: "AddSupplyOffset (bank k) (bond_denom k c) x s3 = (Ok (), s4)"
    and same: "bond_denom k s4 = bond_denom k c"
  obtains c' where "Undelegate k actor valAddr amt c = (Ok (), c')"
    and "total_delegated k c' actor = total_delegated k c actor - x" and "chain c' = chain s4"
proof -
  let ?d = "bond_denom k c" and ?t = "total_delegated k c actor"
  have get: "GetTotalDelegated k (open_cache c) actor = Ok (coin_of ?d ?t)"
    using ok GetTotalDelegated_value [OF laws(2), of "open_cache c" actor]
    by (simp add: ledger_ok_def totals_ok_def bond_denom_def total_delegated_def)
  have new: "new_coin (lib k) ?d x = Ok (coin_of ?d x)"
    using ok x(2) by (simp add: ledger_ok_def coin_lawsD(1) [OF laws(2)])
  have rest: "int_fits (?t - x)" "0 \<le> ?t - x"
    using total_delegated_fits [OF laws(1), of c actor] x(2,3) by (auto simp: int_fits_def)
  then obtain bz where bz: "int_marshal (lib k) (?t - x) = Ok bz"
    using int_lawsD(3) [OF laws(1)] by blast
  define s5 where "s5 = s4\<lparr>mstore := kv_set (mstore s4) (BuildTotalDelegatedAmountKey actor) bz\<rparr>"
  have set: "setTotalDelegated k actor (coin_of ?d (?t - x)) s4 = (Ok (), s5)"
    unfolding s5_def by (rule setTotalDelegated_run [OF bz]) (simp add: same)
  have "unbond_and_burn k actor valAddr ?d (coin_of ?d ?t) sh (open_cache c) = (Ok (True, ()), s5)"
    using x(3) set by (simp add: unbond_and_burn_def bind_apply undelegate send burn x(1) new offset
        coin_lawsD(4) [OF laws(2) x(3)])
  then have "undelegate_in_branch k actor valAddr ?d amt a (open_cache c) = (Ok (True, ()), s5)"
    using a by (simp add: undelegate_in_branch_def bind_apply attempt_apply get shares coin_lawsD(6) [OF laws(2)])
  then have "Undelegate k actor valAddr amt c = (Ok (), write_cache c s5)"
    using a by (auto simp: Undelegate_def Let_def cached_Ok)
  moreover note total_after_set(1,4) [OF laws(1) rest set]
  ultimately show ?thesis
    by (intro that [of "write_cache c s5"]) (simp_all add: total_delegated_def)
qed

end
