(* ===== verification/TaskQueue.thy ===== *)
theory TaskQueue
  imports Scheduler
begin

text \<open>
  What the scheduler promises.  The locale \<open>task_queue\<close> is a queue as an abstract map from height
  and contract to the repeat flag, with the list of tasks due up to a height; in it, running all due
  tasks is shown to remove exactly these and to leave each repeating one at its next height.  The
  module's store is interpreted as such a queue, and the iteration of \<open>Scheduler\<close> is shown to be a
  walk over the due tasks.
\<close>

section \<open>Task queues\<close>

locale task_queue =
  fixes task_at :: "'s \<Rightarrow> SchedulerTaskType \<Rightarrow> u64 \<times> bytes \<Rightarrow> bool option"
    and put_task :: "'s \<Rightarrow> SchedulerTaskType \<Rightarrow> u64 \<times> bytes \<Rightarrow> bool \<Rightarrow> 's"
    and del_task :: "'s \<Rightarrow> SchedulerTaskType \<Rightarrow> u64 \<times> bytes \<Rightarrow> 's"
    and due :: "'s \<Rightarrow> SchedulerTaskType \<Rightarrow> u64 \<Rightarrow> ((u64 \<times> bytes) \<times> bool) list"
  assumes at_put: "task_at (put_task s tp x r) tp' y = (if tp' = tp \<and> y = x then Some r else task_at s tp' y)"
    and at_del: "task_at (del_task s tp x) tp' y = (if tp' = tp \<and> y = x then None else task_at s tp' y)"
    and due_iff: "(x, r) \<in> set (due s tp m) \<longleftrightarrow> task_at s tp x = Some r \<and> fst x \<le> m"
    and due_distinct: "distinct (map fst (due s tp m))"
begin

text \<open>
  The effect of one execution at height \<open>cur\<close>: a repeating task is put back \<open>epoch\<close> blocks later,
  unless the epoch is zero or that height is past (the addition wraps); then the task is deleted.
\<close>

definition run_task :: "u64 \<Rightarrow> u64 \<Rightarrow> SchedulerTaskType \<Rightarrow> (u64 \<times> bytes) \<times> bool \<Rightarrow> 's \<Rightarrow> 's" where
  "run_task cur epoch tp e s = (case e of ((h, a), r) \<Rightarrow>
     del_task (if r \<and> epoch \<noteq> 0 \<and> cur \<le> cur + epoch then put_task s tp (cur + epoch, a) True else s) tp (h, a))"

definition again :: "u64 \<Rightarrow> u64 \<Rightarrow> bool" where
  "again cur epoch \<longleftrightarrow> epoch \<noteq> 0 \<and> cur \<le> cur + epoch"

lemma again_later: "again cur epoch \<Longrightarrow> cur < cur + epoch"
  by (auto simp: again_def order.strict_iff_order)

lemma run_task_other: "tp' \<noteq> tp \<Longrightarrow> task_at (run_task cur epoch tp e s) tp' y = task_at s tp' y"
  by (simp add: run_task_def at_put at_del split: prod.split)

lemma run_tasks_other: "tp' \<noteq> tp \<Longrightarrow> task_at (fold (run_task cur epoch tp) es s) tp' y = task_at s tp' y"
  by (induction es arbitrary: s) (simp_all add: run_task_other)

lemma run_tasks:
  "\<forall>e \<in> set es. fst (fst e) \<le> cur \<Longrightarrow>
   task_at (fold (run_task cur epoch tp) es s) tp (h, a) =
     (if \<exists>r. ((h, a), r) \<in> set es then None
      else if again cur epoch \<and> h = cur + epoch \<and> (\<exists>h'. ((h', a), True) \<in> set es) then Some True
      else task_at s tp (h, a))"
proof (induction es arbitrary: s)
  case (Cons e es)
  obtain h0 a0 r0 where e: "e = ((h0, a0), r0)"
    by (cases e) auto
  have "h0 \<le> cur"
    using Cons.prems e by auto
  then have later: "again cur epoch \<Longrightarrow> h0 \<noteq> cur + epoch"
    using again_later by fastforce
  have step: "task_at (run_task cur epoch tp e s) tp (h, a) =
      (if h = h0 \<and> a = a0 then None
       else if again cur epoch \<and> h = cur + epoch \<and> r0 \<and> a = a0 then Some True
       else task_at s tp (h, a))"
    using later by (auto simp: e run_task_def at_put at_del again_def)
  have IH: "task_at (fold (run_task cur epoch tp) es (run_task cur epoch tp e s)) tp (h, a) =
      (if \<exists>r. ((h, a), r) \<in> set es then None
       else if again cur epoch \<and> h = cur + epoch \<and> (\<exists>h'. ((h', a), True) \<in> set es) then Some True
       else task_at (run_task cur epoch tp e s) tp (h, a))"
    by (rule Cons.IH) (use Cons.prems in auto)
  show ?case
  proof (cases "h = h0 \<and> a = a0")
    case True
    then have "task_at (run_task cur epoch tp e s) tp (h, a) = None" and "\<not> (again cur epoch \<and> h = cur + epoch)"
      using step later by auto
    then have "task_at (fold (run_task cur epoch tp) (e # es) s) tp (h, a) = None"
      unfolding fold_simps IH by auto
    moreover have "\<exists>r. ((h, a), r) \<in> set (e # es)"
      using True by (auto simp: e)
    ultimately show ?thesis
      by (simp only: if_True)
  next
    case False
    have set_e: "(\<exists>r. ((h, a), r) \<in> set (e # es)) \<longleftrightarrow> (\<exists>r. ((h, a), r) \<in> set es)"
      "(\<exists>h'. ((h', a), True) \<in> set (e # es)) \<longleftrightarrow> r0 \<and> a = a0 \<or> (\<exists>h'. ((h', a), True) \<in> set es)"
      using False by (auto simp: e)
    have merge: "(if P then n else if A \<and> B \<and> R then x else if A \<and> B \<and> T then x else y) =
        (if P then n else if A \<and> B \<and> (T \<or> R) then x else y)" for P A B R T and n x y :: "bool option"
      by auto
    have "task_at (run_task cur epoch tp e s) tp (h, a) =
        (if again cur epoch \<and> h = cur + epoch \<and> r0 \<and> a = a0 then Some True else task_at s tp (h, a))"
      unfolding step using False by (simp only: if_False)
    then show ?thesis
      by (simp only: fold_simps IH set_e merge)
  qed
qed simp

text \<open>All due tasks are gone, the repeating ones are back at their next height, nothing else moved.\<close>

lemma run_due:
  "task_at (fold (run_task cur epoch tp) (due s tp cur) s) tp (h, a) =
     (if again cur epoch \<and> h = cur + epoch \<and> (\<exists>h' \<le> cur. task_at s tp (h', a) = Some True) then Some True
      else if h \<le> cur then None
      else task_at s tp (h, a))"
proof -
  have le: "\<forall>e \<in> set (due s tp cur). fst (fst e) \<le> cur"
    by (auto simp: due_iff)
  have "again cur epoch \<Longrightarrow> \<not> cur + epoch \<le> cur"
    using again_later by (simp add: not_le)
  moreover have "\<not> (\<exists>r. ((h, a), r) \<in> set (due s tp cur)) \<Longrightarrow> h \<le> cur \<Longrightarrow> task_at s tp (h, a) = None"
    by (cases "task_at s tp (h, a)") (auto simp: due_iff)
  ultimately show ?thesis
    unfolding run_tasks [OF le] by (auto simp: due_iff)
qed

lemma nothing_due: "due (fold (run_task cur epoch tp) (due s tp cur) s) tp cur = []"
proof -
  have "(x, r) \<notin> set (due (fold (run_task cur epoch tp) (due s tp cur) s) tp cur)" for x r
    using again_later [of cur epoch] by (cases x) (auto simp: due_iff run_due)
  then show ?thesis
    by (metis list.set_intros(1) neq_Nil_conv surj_pair)
qed

end

section \<open>The store as a task queue\<close>

abbreviation task_key :: "SchedulerTaskType \<Rightarrow> u64 \<times> bytes \<Rightarrow> bytes" where
  "task_key tp x \<equiv> SchedulerKeyPrefix @ [tp] @ put_uint64 (fst x) @ snd x"

definition task_at :: "kvstore \<Rightarrow> SchedulerTaskType \<Rightarrow> u64 \<times> bytes \<Rightarrow> bool option" where
  "task_at s tp x = map_option isRepeat (kv_get s (task_key tp x))"

definition put_task :: "kvstore \<Rightarrow> SchedulerTaskType \<Rightarrow> u64 \<times> bytes \<Rightarrow> bool \<Rightarrow> kvstore" where
  "put_task s tp x r = kv_set s (task_key tp x) [toByte r]"

definition del_task :: "kvstore \<Rightarrow> SchedulerTaskType \<Rightarrow> u64 \<times> bytes \<Rightarrow> kvstore" where
  "del_task s tp x = kv_delete s (task_key tp x)"

definition task_of :: "bytes \<times> bytes \<Rightarrow> (u64 \<times> bytes) \<times> bool" where
  "task_of e = ((get_uint64 (take 8 (fst e)), drop 8 (fst e)), isRepeat (snd e))"

definition tasks :: "kvstore \<Rightarrow> SchedulerTaskType \<Rightarrow> ((u64 \<times> bytes) \<times> bool) list" where
  "tasks s tp = map task_of (filter (\<lambda>e. 8 \<le> length (fst e)) (kv_prefix s (SchedulerKeyPrefix @ [tp])))"

definition due_tasks :: "kvstore \<Rightarrow> SchedulerTaskType \<Rightarrow> u64 \<Rightarrow> ((u64 \<times> bytes) \<times> bool) list" where
  "due_tasks s tp m = filter (\<lambda>t. fst (fst t) \<le> m) (tasks s tp)"

text \<open>Every key of the type is long enough to carry a height.\<close>

definition tasks_ok :: "kvstore \<Rightarrow> SchedulerTaskType \<Rightarrow> bool" where
  "tasks_ok s tp \<longleftrightarrow> list_all (\<lambda>e. 8 \<le> length (fst e)) (kv_prefix s (SchedulerKeyPrefix @ [tp]))"

lemma isRepeat_toByte [simp]: "isRepeat [toByte r] = r"
  by (simp add: isRepeat_def toByte_def)

lemma height_key:
  assumes "8 \<le> length key"
  shows "put_uint64 (get_uint64 (take 8 key)) @ drop 8 key = key"
  using assms by (simp add: put_get_uint64)

lemma tasks_iff: "(x, r) \<in> set (tasks s tp) \<longleftrightarrow> task_at s tp x = Some r"
proof
  assume "(x, r) \<in> set (tasks s tp)"
  then obtain key v where e: "(key, v) \<in> set (kv_prefix s (SchedulerKeyPrefix @ [tp]))" "8 \<le> length key"
    and t: "task_of (key, v) = (x, r)"
    by (auto simp: tasks_def)
  then have "put_uint64 (fst x) @ snd x = key"
    using height_key [OF e(2)] by (auto simp: task_of_def)
  with e(1) t show "task_at s tp x = Some r"
    by (auto simp: task_at_def kvs.scan_iff task_of_def)
next
  assume "task_at s tp x = Some r"
  then obtain v where "kv_get s (task_key tp x) = Some v" and r: "isRepeat v = r"
    by (auto simp: task_at_def)
  then have "(put_uint64 (fst x) @ snd x, v) \<in> set (kv_prefix s (SchedulerKeyPrefix @ [tp]))"
    by (simp add: kvs.scan_iff)
  moreover have "task_of (put_uint64 (fst x) @ snd x, v) = (x, r)"
    by (simp add: task_of_def r)
  ultimately show "(x, r) \<in> set (tasks s tp)"
    by (force simp: tasks_def)
qed

lemma tasks_distinct: "distinct (map fst (tasks s tp))"
proof -
  let ?es = "filter (\<lambda>e. 8 \<le> length (fst e)) (kv_prefix s (SchedulerKeyPrefix @ [tp]))"
  have "inj_on (\<lambda>key. (get_uint64 (take 8 key), drop 8 key)) {key. 8 \<le> length key}"
    by (rule inj_on_inverseI [where g = "\<lambda>x. put_uint64 (fst x) @ snd x"]) (simp add: put_get_uint64)
  then have "inj_on (\<lambda>key. (get_uint64 (take 8 key), drop 8 key)) (set (map fst ?es))"
    by (rule inj_on_subset) auto
  moreover have "distinct (map fst ?es)"
    using kvs.scan_distinct by (metis distinct_map_filter)
  ultimately have "distinct (map (\<lambda>key. (get_uint64 (take 8 key), drop 8 key)) (map fst ?es))"
    by (rule distinct_map [THEN iffD2, OF conjI, rotated])
  moreover have "map (\<lambda>key. (get_uint64 (take 8 key), drop 8 key)) (map fst ?es) = map fst (tasks s tp)"
    by (simp add: tasks_def task_of_def)
  ultimately show ?thesis by simp
qed

lemma task_key_inject [simp]: "task_key tp x = task_key tp' y \<longleftrightarrow> tp = tp' \<and> x = y"
  using scheduler_key_inject [of tp "fst x" "snd x" tp' "fst y" "snd y"] by (auto simp: prod_eq_iff)

interpretation queue: task_queue task_at put_task del_task due_tasks
proof
  show "task_at (put_task s tp x r) tp' y = (if tp' = tp \<and> y = x then Some r else task_at s tp' y)" for s tp x r tp' y
    using task_key_inject [of tp' y tp x] by (simp add: task_at_def put_task_def)
  show "task_at (del_task s tp x) tp' y = (if tp' = tp \<and> y = x then None else task_at s tp' y)" for s tp x tp' y
    using task_key_inject [of tp' y tp x] by (simp add: task_at_def del_task_def)
  show "(x, r) \<in> set (due_tasks s tp m) \<longleftrightarrow> task_at s tp x = Some r \<and> fst x \<le> m" for x r s tp m
    by (simp add: due_tasks_def tasks_iff)
  show "distinct (map fst (due_tasks s tp m))" for s tp m
    unfolding due_tasks_def by (rule distinct_map_filter [OF tasks_distinct])
qed

section \<open>The iteration visits the due tasks\<close>

lemma heights_ascend:
  fixes key key' :: bytes
  assumes "key < key'" and "8 \<le> length key" and "8 \<le> length key'"
  shows "get_uint64 (take 8 key) \<le> get_uint64 (take 8 key')"
proof -
  have "put_uint64 (get_uint64 (take 8 key)) @ drop 8 key < put_uint64 (get_uint64 (take 8 key')) @ drop 8 key'"
    using assms by (simp only: height_key)
  then show ?thesis
    by (auto simp: less_append_same_length put_uint64_less)
qed

definition visit :: "(bytes \<Rightarrow> u64 \<Rightarrow> bool \<Rightarrow> 'a \<Rightarrow> ('x ctx, bool \<times> 'a) call) \<Rightarrow>
    (u64 \<times> bytes) \<times> bool \<Rightarrow> 'a \<Rightarrow> ('x ctx, bool \<times> 'a) call" where
  "visit cb t = cb (snd (fst t)) (fst (fst t)) (snd t)"

lemma visit_task_long:
  assumes "layout_laws (lib k)" and "8 \<le> length (fst e)"
  shows "visit_task k m cb e a = (if fst (fst (task_of e)) > m then ret (True, a) else visit cb (task_of e) a)"
  using assms by (intro ext)
    (simp add: visit_task_def visit_def task_of_def go_slice_def go_slice_from_def bind_apply layout_lawsD)

lemma iterate_visit:
  assumes L: "layout_laws (lib k)"
  shows "ascending es \<Longrightarrow> \<forall>e \<in> set es. 8 \<le> length (fst e) \<Longrightarrow>
    iterate (visit_task k m cb) es a c =
    iterate (visit cb) (filter (\<lambda>t. fst (fst t) \<le> m) (map task_of es)) a c"
proof (induction es arbitrary: a c)
  case (Cons e es)
  let ?h = "fst (fst (task_of e))"
  have IH: "iterate (visit_task k m cb) es a' c' =
      iterate (visit cb) (filter (\<lambda>t. fst (fst t) \<le> m) (map task_of es)) a' c'" for a' c'
    by (rule Cons.IH) (use Cons.prems in simp_all)
  have long: "8 \<le> length (fst e)"
    using Cons.prems(2) by simp
  show ?case
  proof (cases "?h > m")
    case True
    have "?h \<le> fst (fst (task_of e'))" if "e' \<in> set es" for e'
      using Cons.prems that by (auto simp: task_of_def intro!: heights_ascend)
    with True have "filter (\<lambda>t. fst (fst t) \<le> m) (map task_of (e # es)) = []"
      by (auto simp: filter_empty_conv not_le dest: order.strict_trans2)
    with True show ?thesis
      by (simp add: visit_task_long [OF L long] bind_apply del: filter.simps list.map)
  next
    case False
    then have "filter (\<lambda>t. fst (fst t) \<le> m) (map task_of (e # es)) =
        task_of e # filter (\<lambda>t. fst (fst t) \<le> m) (map task_of es)"
      by (simp add: not_less)
    with False show ?thesis
      by (simp add: visit_task_long [OF L long] bind_apply IH split: prod.split res.split
          del: filter.simps list.map)
  qed
qed simp

lemma IterateScheduledTasks_due:
  assumes "layout_laws (lib k)" and "tp \<noteq> SchedulerTaskUndefined" and "tasks_ok (mstore c) tp"
  shows "IterateScheduledTasks k tp m cb a c = iterate (visit cb) (due_tasks (mstore c) tp m) a c"
proof -
  let ?es = "kv_prefix (mstore c) (SchedulerKeyPrefix @ [tp])"
  have "filter (\<lambda>e. 8 \<le> length (fst e)) ?es = ?es"
    using assms(3) by (simp add: tasks_ok_def list_all_iff filter_id_conv)
  then have "due_tasks (mstore c) tp m = filter (\<lambda>t. fst (fst t) \<le> m) (map task_of ?es)"
    by (simp add: due_tasks_def tasks_def)
  moreover have "iterate (visit_task k m cb) ?es a c =
      iterate (visit cb) (filter (\<lambda>t. fst (fst t) \<le> m) (map task_of ?es)) a c"
    by (rule iterate_visit [OF assms(1) kvs.scan_ascending])
      (use assms(3) in \<open>simp add: tasks_ok_def list_all_iff\<close>)
  ultimately show ?thesis
    using assms(2) by (simp add: IterateScheduledTasks_def BuildSchedulerTypeKeyPrefix_def bind_apply)
qed

text \<open>The walk is in the order of the heights.\<close>

lemma due_tasks_sorted: "sorted (map (\<lambda>t. fst (fst t)) (due_tasks s tp m))"
proof -
  let ?es = "filter (\<lambda>e. 8 \<le> length (fst e)) (kv_prefix s (SchedulerKeyPrefix @ [tp]))"
  have "sorted_wrt (\<lambda>d e. fst d < fst e) ?es"
    using kvs.scan_ascending [of s "SchedulerKeyPrefix @ [tp]"] by (simp add: sorted_wrt_map sorted_wrt_filter)
  then have "sorted_wrt (\<lambda>d e. fst (fst (task_of d)) \<le> fst (fst (task_of e))) ?es"
    by (rule sorted_wrt_mono_rel [rotated]) (auto simp: task_of_def intro!: heights_ascend)
  then have "sorted_wrt (\<lambda>d e. fst (fst d) \<le> fst (fst e)) (tasks s tp)"
    by (simp add: tasks_def sorted_wrt_map)
  then show ?thesis
    by (simp add: due_tasks_def sorted_map sorted_wrt_filter)
qed

end
