(* ===== verification/TaskRun.thy ===== *)
theory TaskRun
  imports TaskQueue
begin

text \<open>
  The scheduler's operations against the queue: each \<open>Schedule\<close> and \<open>delete\<close> is an update of the
  abstract map, and \<open>ExecScheduledTasks\<close> runs each due task once, isolates what fails, and leaves
  the queue as \<open>run_task\<close> says.  \<open>sched_view\<close> is the part of the store that an executor has to
  leave alone for this.
\<close>

section \<open>Single operations\<close>

lemma ScheduleRepeatingTask_run:
  assumes "layout_laws (lib k)" and "tp \<noteq> SchedulerTaskUndefined"
  shows "ScheduleRepeatingTask k tp a h c =
    (if h < BlockHeight c then (Err past_block, c)
     else (Ok (), EmitSchedulerRegisteredEvent (lib k) a h True (c\<lparr>mstore := put_task (mstore c) tp (h, a) True\<rparr>)))"
  using assms by (simp add: ScheduleRepeatingTask_def bind_apply scheduler_key put_task_def)

lemma ScheduleOneShotTask_run:
  assumes "layout_laws (lib k)" and "tp \<noteq> SchedulerTaskUndefined"
  shows "ScheduleOneShotTask k tp a h c =
    (if h < BlockHeight c then (Err past_block, c)
     else if task_at (mstore c) tp (h, a) \<noteq> None then (Ok (), c)
     else (Ok (), EmitSchedulerRegisteredEvent (lib k) a h False (c\<lparr>mstore := put_task (mstore c) tp (h, a) False\<rparr>)))"
  using assms
  by (simp add: ScheduleOneShotTask_def bind_apply scheduler_key put_task_def task_at_def kv_has_def)

lemma deleteScheduledTask_run:
  assumes "layout_laws (lib k)" and "tp \<noteq> SchedulerTaskUndefined"
  shows "deleteScheduledTask k tp a h c = (Ok (), c\<lparr>mstore := del_task (mstore c) tp (h, a)\<rparr>)"
  using assms by (simp add: deleteScheduledTask_def bind_apply scheduler_key del_task_def)

text \<open>The undefined task type is refused everywhere.\<close>

lemma undefined_type_refused:
  "BlockHeight c \<le> h \<Longrightarrow> ScheduleOneShotTask k SchedulerTaskUndefined a h c = (Err (Wrapped ErrInvalid ''scheduler type''), c)"
  "BlockHeight c \<le> h \<Longrightarrow> ScheduleRepeatingTask k SchedulerTaskUndefined a h c = (Err (Wrapped ErrInvalid ''scheduler type''), c)"
  "ExecScheduledTasks k SchedulerTaskUndefined epoch cb c = (Err (Wrapped ErrInvalid ''scheduler type''), c)"
  by (simp_all add: ScheduleOneShotTask_def ScheduleRepeatingTask_def ExecScheduledTasks_def leD
      IterateScheduledTasks_def bind_apply BuildSchedulerContractKey_def
      BuildSchedulerHeightKeyPrefix_def BuildSchedulerTypeKeyPrefix_def)

text \<open>Keys stay long enough.\<close>

lemma tasks_ok_iff:
  "tasks_ok s tp \<longleftrightarrow> (\<forall>key. kv_get s (SchedulerKeyPrefix @ tp # key) \<noteq> None \<longrightarrow> 8 \<le> length key)"
proof -
  have "tasks_ok s tp \<longleftrightarrow> (\<forall>key v. (key, v) \<in> set (kv_prefix s (SchedulerKeyPrefix @ [tp])) \<longrightarrow> 8 \<le> length key)"
    by (auto simp: tasks_ok_def list_all_iff)
  then show ?thesis
    by (simp add: kvs.scan_iff)
qed

lemma tasks_ok_put [simp]: "tasks_ok (put_task s tp' x r) tp \<longleftrightarrow> tasks_ok s tp"
  by (auto simp: tasks_ok_iff put_task_def) (metis length_append length_put_uint64 le_add1)

lemma tasks_ok_del: "tasks_ok s tp \<Longrightarrow> tasks_ok (del_task s tp' x) tp"
  by (simp add: tasks_ok_iff del_task_def)

section \<open>The execution\<close>

definition sched_view :: "kvstore \<Rightarrow> (bytes \<Rightarrow> bytes option) \<times> bytes option" where
  "sched_view s = (\<lambda>key. kv_get s (SchedulerKeyPrefix @ key), kv_get s ParamsKey)"

lemma sched_view_eq:
  "sched_view s = sched_view t \<longleftrightarrow>
     (\<forall>key. kv_get s (SchedulerKeyPrefix @ key) = kv_get t (SchedulerKeyPrefix @ key)) \<and>
     kv_get s ParamsKey = kv_get t ParamsKey"
  by (auto simp: sched_view_def fun_eq_iff)

lemma sched_viewD:
  assumes "sched_view s = sched_view t"
  shows "task_at s = task_at t" and "due_tasks s = due_tasks t"
proof -
  have get: "kv_get s (SchedulerKeyPrefix @ key) = kv_get t (SchedulerKeyPrefix @ key)" for key
    using assms by (simp add: sched_view_eq)
  show "task_at s = task_at t"
    by (intro ext) (simp add: task_at_def get)
  have "kv_prefix s (SchedulerKeyPrefix @ [tp]) = kv_prefix t (SchedulerKeyPrefix @ [tp])" for tp
    by (rule kvs.scan_eqI) (simp add: get)
  then show "due_tasks s = due_tasks t"
    by (intro ext) (simp add: due_tasks_def tasks_def)
qed

lemma sched_view_params: "sched_view (mstore c) = sched_view (mstore d) \<Longrightarrow> GetParams k c = GetParams k d"
  by (rule GetParams_cong) (simp add: sched_view_eq)

lemma sched_view_run_task:
  "sched_view s = sched_view t \<Longrightarrow>
     sched_view (queue.run_task cur epoch tp e s) = sched_view (queue.run_task cur epoch tp e t)"
proof -
  obtain h a r where e: "e = ((h, a), r)"
    by (cases e) auto
  assume "sched_view s = sched_view t"
  then show ?thesis
    by (auto simp: e sched_view_eq queue.run_task_def put_task_def del_task_def)
qed

lemma sched_view_run_tasks:
  "sched_view s = sched_view t \<Longrightarrow>
     sched_view (fold (queue.run_task cur epoch tp) es s) = sched_view (fold (queue.run_task cur epoch tp) es t)"
proof (induction es arbitrary: s t)
  case (Cons e es)
  have "sched_view (queue.run_task cur epoch tp e s) = sched_view (queue.run_task cur epoch tp e t)"
    by (rule sched_view_run_task) (rule Cons.prems)
  then show ?case
    unfolding fold_simps by (rule Cons.IH)
qed simp

lemma params_not_task [simp]: "ParamsKey \<noteq> task_key tp x" "task_key tp x \<noteq> ParamsKey"
  by (simp_all add: prefix_defs)

lemma run_task_params [simp]:
  "kv_get (queue.run_task cur epoch tp e s) ParamsKey = kv_get s ParamsKey"
  by (simp add: queue.run_task_def put_task_def del_task_def prefix_defs split: prod.split)

text \<open>One task.\<close>

lemma exec_task_run:
  assumes L: "layout_laws (lib k)" and tp: "tp \<noteq> SchedulerTaskUndefined"
    and g: "GetMaxSudoGas k p = Ok g"
    and run: "cb a ((open_cache p)\<lparr>gas_limit := g, gas_used := 0\<rparr>) = (r, c)"
  obtains res p' where "exec_task k tp epoch cb a h rep acc p = (Ok (False, acc @ [res]), p')"
    and "mstore p' = queue.run_task (BlockHeight p) epoch tp ((h, a), rep) (if is_ok r then mstore c else mstore p)"
    and "mmem p' = (if is_ok r then mmem c else mmem p)" and "chain p' = (if is_ok r then chain c else chain p)"
    and "BlockHeight p' = BlockHeight p"
    and "res = \<lparr>res_Contract = a, ExecErr = safeExec r,
      RescheduleErr = (if rep \<and> epoch \<noteq> 0 \<and> \<not> BlockHeight p \<le> BlockHeight p + epoch then Some past_block else None),
      DeleteTaskErr = None, GasUsed = gas_used c, GasLimit = g,
      NextRunHeight = (if rep \<and> epoch \<noteq> 0 then BlockHeight p + epoch else 0)\<rparr>"
proof -
  let ?res = "\<lparr>res_Contract = a, ExecErr = safeExec r,
      RescheduleErr = (if rep \<and> epoch \<noteq> 0 \<and> \<not> BlockHeight p \<le> BlockHeight p + epoch then Some past_block else None),
      DeleteTaskErr = None, GasUsed = gas_used c, GasLimit = g,
      NextRunHeight = (if rep \<and> epoch \<noteq> 0 then BlockHeight p + epoch else 0)\<rparr>"
  obtain v p' where out: "exec_task k tp epoch cb a h rep acc p = (v, p')"
    by (cases "exec_task k tp epoch cb a h rep acc p")
  have ok: "safeExec r = None \<longleftrightarrow> is_ok r"
    by (cases r) (simp_all add: safeExec_def)
  note step = out [unfolded exec_task_def bind_apply reading_apply g prod.case res.case run Let_def]
  have "v = Ok (False, acc @ [?res]) \<and>
      mstore p' = queue.run_task (BlockHeight p) epoch tp ((h, a), rep) (if is_ok r then mstore c else mstore p) \<and>
      mmem p' = (if is_ok r then mmem c else mmem p) \<and> chain p' = (if is_ok r then chain c else chain p) \<and>
      BlockHeight p' = BlockHeight p"
    using step
    by (cases "rep \<and> epoch \<noteq> 0") (auto simp: bind_apply attempt_apply ok not_le queue.run_task_def
        deleteScheduledTask_run [OF L tp] ScheduleRepeatingTask_run [OF L tp] split: if_splits)
  then show ?thesis
    using out by (intro that [of ?res p']) simp_all
qed

text \<open>What the results say of the tasks: the contract, the bound on gas and the scheduling.\<close>

definition reports :: "u64 \<Rightarrow> u64 \<Rightarrow> u64 \<Rightarrow> (u64 \<times> bytes) \<times> bool \<Rightarrow> ExecResult \<Rightarrow> bool" where
  "reports cur epoch gas t res \<longleftrightarrow>
     res_Contract res = snd (fst t) \<and> DeleteTaskErr res = None \<and> GasLimit res = gas \<and>
     RescheduleErr res = (if snd t \<and> epoch \<noteq> 0 \<and> \<not> cur \<le> cur + epoch then Some past_block else None) \<and>
     NextRunHeight res = (if snd t \<and> epoch \<noteq> 0 then cur + epoch else 0)"

definition leaves_schedule :: "'x executor \<Rightarrow> bool" where
  "leaves_schedule cb \<longleftrightarrow> (\<forall>a. keeps (\<lambda>c. sched_view (mstore c)) (cb a))"

lemma exec_tasks_run:
  assumes L: "layout_laws (lib k)" and tp: "tp \<noteq> SchedulerTaskUndefined" and cb: "leaves_schedule cb"
  shows "GetMaxSudoGas k c = Ok g \<Longrightarrow> \<exists>rs c'.
    iterate (visit (exec_task k tp epoch cb)) ts acc c = (Ok (acc @ rs), c') \<and>
    list_all2 (reports (BlockHeight c) epoch g) ts rs \<and> BlockHeight c' = BlockHeight c \<and>
    sched_view (mstore c') = sched_view (fold (queue.run_task (BlockHeight c) epoch tp) ts (mstore c))"
proof (induction ts arbitrary: acc c)
  case (Cons t ts)
  obtain h a rep where t: "t = ((h, a), rep)"
    by (cases t) auto
  obtain r d where run: "cb a ((open_cache c)\<lparr>gas_limit := g, gas_used := 0\<rparr>) = (r, d)"
    by (cases "cb a ((open_cache c)\<lparr>gas_limit := g, gas_used := 0\<rparr>)")
  from cb run have d: "sched_view (mstore d) = sched_view (mstore c)"
    using keepsD [of "\<lambda>c. sched_view (mstore c)" "cb a"] by (fastforce simp: leaves_schedule_def)
  obtain res c1 where step: "exec_task k tp epoch cb a h rep acc c = (Ok (False, acc @ [res]), c1)"
    and c1: "mstore c1 = queue.run_task (BlockHeight c) epoch tp t (if is_ok r then mstore d else mstore c)"
      "BlockHeight c1 = BlockHeight c" and res: "reports (BlockHeight c) epoch g t res"
    by (rule exec_task_run [where cb = cb and a = a and epoch = epoch and h = h and rep = rep and acc = acc,
        OF L tp Cons.prems run]) (auto simp: t reports_def)
  have view: "sched_view (mstore c1) = sched_view (queue.run_task (BlockHeight c) epoch tp t (mstore c))"
    unfolding c1(1) by (intro sched_view_run_task) (simp add: d)
  then have "GetParams k c1 = GetParams k c"
    by (intro GetParams_cong) (simp add: sched_view_eq)
  with Cons.prems have "GetMaxSudoGas k c1 = Ok g"
    by (simp add: GetMaxSudoGas_def)
  then obtain rs c' where rest: "iterate (visit (exec_task k tp epoch cb)) ts (acc @ [res]) c1 = (Ok ((acc @ [res]) @ rs), c')"
    and rs: "list_all2 (reports (BlockHeight c) epoch g) ts rs" and height: "BlockHeight c' = BlockHeight c"
    and view': "sched_view (mstore c') = sched_view (fold (queue.run_task (BlockHeight c) epoch tp) ts (mstore c1))"
    using Cons.IH [of c1 "acc @ [res]"] c1(2) by auto
  have "iterate (visit (exec_task k tp epoch cb)) (t # ts) acc c = (Ok (acc @ (res # rs)), c')"
    using step rest by (simp add: bind_apply visit_def t)
  moreover have "sched_view (mstore c') = sched_view (fold (queue.run_task (BlockHeight c) epoch tp) (t # ts) (mstore c))"
    using view' sched_view_run_tasks [OF view] by simp
  ultimately show ?case
    using rs res height by (intro exI [of _ "res # rs"] exI [of _ c']) simp
qed auto

text \<open>
  The whole run: every due task is executed once, in the order of the heights, and the queue is
  afterwards the one that \<open>run_task\<close> computes.
\<close>

lemma ExecScheduledTasks_run:
  assumes L: "layout_laws (lib k)" and tp: "tp \<noteq> SchedulerTaskUndefined" and cb: "leaves_schedule cb"
    and wf: "tasks_ok (mstore c) tp" and g: "GetMaxSudoGas k c = Ok g"
  obtains rs c' where "ExecScheduledTasks k tp epoch cb c = (Ok rs, c')"
    and "list_all2 (reports (BlockHeight c) epoch g) (due_tasks (mstore c) tp (BlockHeight c)) rs"
    and "BlockHeight c' = BlockHeight c"
    and "sched_view (mstore c') = sched_view (fold (queue.run_task (BlockHeight c) epoch tp)
      (due_tasks (mstore c) tp (BlockHeight c)) (mstore c))"
proof -
  obtain rs c' where
    "iterate (visit (exec_task k tp epoch cb)) (due_tasks (mstore c) tp (BlockHeight c)) [] c = (Ok ([] @ rs), c')"
    "list_all2 (reports (BlockHeight c) epoch g) (due_tasks (mstore c) tp (BlockHeight c)) rs"
    "BlockHeight c' = BlockHeight c"
    "sched_view (mstore c') = sched_view (fold (queue.run_task (BlockHeight c) epoch tp)
      (due_tasks (mstore c) tp (BlockHeight c)) (mstore c))"
    using exec_tasks_run [OF L tp cb g] by blast
  then show ?thesis
    by (intro that [of rs c']) (simp_all add: ExecScheduledTasks_def IterateScheduledTasks_due [OF L tp wf])
qed

end
