(* ===== verification/Contract.thy ===== *)
theory Contract
  imports Keeper
begin

text \<open>
  The messages between the module and the virtual staking contracts: \<open>contract/in_message.go\<close>,
  \<open>contract/out_message.go\<close> and \<open>contract/query.go\<close>, with the JSON that \<open>encoding/json\<close> makes of the
  outgoing ones.  A pointer to a struct is an option, and an omitted field is one that is \<open>None\<close>.
  The JSON of \<open>wasmvmtypes\<close> values is a parameter of the library.
\<close>

section \<open>JSON\<close>

text \<open>
  A string literal of \<open>encoding/json\<close>: quotes, backslashes, control characters and the HTML
  characters are escaped.  Addresses, decimal numbers and base denominations are ASCII, and so are
  all strings that are rendered here; the replacement of invalid UTF-8 is not modelled.
\<close>

definition hex_digit :: "nat \<Rightarrow> char" where
  "hex_digit n = (if n < 10 then char_of (48 + n) else char_of (87 + n))"

definition json_char :: "char \<Rightarrow> string" where
  "json_char c = (let n = of_char c :: nat in
     if n = 34 \<or> n = 92 then [char_of (92 :: nat), c]
     else if n = 10 then [char_of (92 :: nat), CHR ''n'']
     else if n = 13 then [char_of (92 :: nat), CHR ''r'']
     else if n = 9 then [char_of (92 :: nat), CHR ''t'']
     else if n < 32 \<or> n = 60 \<or> n = 62 \<or> n = 38
       then [char_of (92 :: nat)] @ ''u00'' @ [hex_digit (n div 16), hex_digit (n mod 16)]
     else [c])"

definition quote :: char where
  "quote = char_of (34 :: nat)"

definition json_string :: "string \<Rightarrow> string" where
  "json_string s = [quote] @ concat (map json_char s) @ [quote]"

definition json_int :: "u64 \<Rightarrow> string" where
  "json_int w = (if sint w < 0 then ''-'' @ decimal (nat (- sint w)) else decimal (unat w))"

fun comma_separated :: "string list \<Rightarrow> string" where
  "comma_separated [] = []"
| "comma_separated [x] = x"
| "comma_separated (x # y # zs) = x @ '','' @ comma_separated (y # zs)"

definition json_array :: "string list \<Rightarrow> string" where
  "json_array xs = ''['' @ comma_separated xs @ '']''"

definition json_object :: "(string \<times> string) list \<Rightarrow> string" where
  "json_object fs = ''{'' @ comma_separated (map (\<lambda>(n, v). json_string n @ '':'' @ v) fs) @ ''}''"

section \<open>Messages to the contracts\<close>

record ValidatorSlash =
  vs_ValidatorAddr :: string
  vs_Height :: u64
  vs_Time :: u64
  vs_InfractionHeight :: u64
  vs_InfractionTime :: u64
  vs_Power :: u64
  vs_SlashAmount :: string
  vs_SlashRatio :: string

record ValsetUpdate =
  Additions :: "WasmValidator list"
  Removals :: "string list"
  Updated :: "WasmValidator list"
  Jailed :: "string list"
  Unjailed :: "string list"
  Tombstoned :: "string list"
  Slashed :: "ValidatorSlash list"

datatype SudoMsg = SudoMsg (HandleEpoch: "unit option") (ValsetUpdate: "ValsetUpdate option")

definition slash_json :: "ValidatorSlash \<Rightarrow> string" where
  "slash_json v = json_object
     [(''address'', json_string (vs_ValidatorAddr v)), (''height'', json_int (vs_Height v)),
      (''time'', json_int (vs_Time v)), (''infraction_height'', json_int (vs_InfractionHeight v)),
      (''infraction_time'', json_int (vs_InfractionTime v)), (''power'', json_int (vs_Power v)),
      (''slash_amount'', json_string (vs_SlashAmount v)), (''slash_ratio'', json_string (vs_SlashRatio v))]"

definition valset_json :: "sdk_lib \<Rightarrow> ValsetUpdate \<Rightarrow> string" where
  "valset_json L u = json_object
     [(''additions'', json_array (map (validator_json L) (Additions u))),
      (''removals'', json_array (map json_string (Removals u))),
      (''updated'', json_array (map (validator_json L) (Updated u))),
      (''jailed'', json_array (map json_string (Jailed u))),
      (''unjailed'', json_array (map json_string (Unjailed u))),
      (''tombstoned'', json_array (map json_string (Tombstoned u))),
      (''slashed'', json_array (map slash_json (Slashed u)))]"

definition sudo_json :: "sdk_lib \<Rightarrow> SudoMsg \<Rightarrow> string" where
  "sudo_json L m = json_object
     ((case HandleEpoch m of None \<Rightarrow> [] | Some _ \<Rightarrow> [(''handle_epoch'', json_object [])])
      @ (case ValsetUpdate m of None \<Rightarrow> [] | Some u \<Rightarrow> [(''valset_update'', valset_json L u)]))"

section \<open>Messages from the contracts\<close>

record BondMsg =
  bond_Amount :: wasm_coin
  bond_Validator :: string

record UnbondMsg =
  unbond_Amount :: wasm_coin
  unbond_Validator :: string

record VirtualStakeMsg =
  Bond :: "BondMsg option"
  Unbond_msg :: "UnbondMsg option"

record CustomMsg =
  msg_VirtualStake :: "VirtualStakeMsg option"

record BondStatusQuery =
  query_Contract :: string

record VirtualStakeQuery =
  BondStatus :: "BondStatusQuery option"
  SlashRatio :: "unit option"

record CustomQuery =
  query_VirtualStake :: "VirtualStakeQuery option"

record BondStatusResponse =
  rsp_MaxCap :: wasm_coin
  rsp_Delegated :: wasm_coin

record SlashRatioResponse =
  SlashFractionDowntime :: string
  SlashFractionDoubleSign :: string

definition bond_status_json :: "sdk_lib \<Rightarrow> BondStatusResponse \<Rightarrow> string" where
  "bond_status_json L r = json_object
     [(''cap'', wasm_coin_json L (rsp_MaxCap r)), (''delegated'', wasm_coin_json L (rsp_Delegated r))]"

definition slash_ratio_json :: "SlashRatioResponse \<Rightarrow> string" where
  "slash_ratio_json r = json_object
     [(''slash_fraction_downtime'', json_string (SlashFractionDowntime r)),
      (''slash_fraction_double_sign'', json_string (SlashFractionDoubleSign r))]"

section \<open>Sudo calls\<close>

text \<open>\<open>keeper/wasm.go\<close>.  Marshalling these types cannot fail.\<close>

definition doSudoCall :: "'x Keeper \<Rightarrow> bytes \<Rightarrow> SudoMsg \<Rightarrow> ('x ctx, unit) call" where
  "doSudoCall k contractAddr msg =
     bind (Sudo (wasm k) contractAddr (string_bytes (sudo_json (lib k) msg))) (\<lambda>_. ret ())"

definition SendHandleEpoch :: "'x Keeper \<Rightarrow> bytes \<Rightarrow> ('x ctx, unit) call" where
  "SendHandleEpoch k contractAddr = doSudoCall k contractAddr (SudoMsg (Some ()) None)"

definition SendValsetUpdate :: "'x Keeper \<Rightarrow> bytes \<Rightarrow> ValsetUpdate \<Rightarrow> ('x ctx, unit) call" where
  "SendValsetUpdate k contractAddr v = doSudoCall k contractAddr (SudoMsg None (Some v))"

section \<open>Lemmas\<close>

text \<open>The two messages in full; the tag tells them apart.\<close>

lemma handle_epoch_json:
  "sudo_json L (SudoMsg (Some ()) None) = ''{'' @ json_string ''handle_epoch'' @ '':{}}''"
  by (simp add: sudo_json_def json_object_def)

lemma keeps_doSudoCall: "(\<And>msg. keeps f (Sudo (wasm k) a msg)) \<Longrightarrow> keeps f (doSudoCall k a m)"
  unfolding doSudoCall_def by auto

end
