(* ===== verification/Handlers.thy ===== *)
theory Handlers
  imports Stake TaskRun Contract
begin

text \<open>
  How contracts and users reach the keeper: \<open>keeper/handler_plugin.go\<close> (custom messages of contracts
  and the integrity handler), \<open>keeper/query_plugin.go\<close> (custom queries of contracts),
  \<open>keeper/querier.go\<close> (the gRPC queries) and \<open>keeper/msg_server.go\<close> (the governance message), with the
  command line parser of that message from \<open>client/cli/gov_tx.go\<close>.  The JSON decoder is an argument.
\<close>

section \<open>Custom messages\<close>

definition ErrUnknownMsg :: err where "ErrUnknownMsg = Sentinel ''wasmtypes.ErrUnknownMsg''"
definition ErrJSONUnmarshal :: err where "ErrJSONUnmarshal = Sentinel ''sdkerrors.ErrJSONUnmarshal''"
definition ErrUnauthorized :: err where "ErrUnauthorized = Sentinel ''sdkerrors.ErrUnauthorized''"

lemmas handler_errors = ErrUnknownMsg_def ErrJSONUnmarshal_def ErrUnauthorized_def

text \<open>\<open>wasmvmtypes.CosmosMsg\<close>, the variants that are looked at.\<close>

record CosmosMsg =
  cm_Custom :: "bytes option"
  cm_Staking :: "bytes option"
  cm_Stargate :: "bytes option"

text \<open>The interfaces \<open>msKeeper\<close> and \<open>AuthSource\<close>, and the handler that is built from them.\<close>

record 'x msKeeper =
  ms_Delegate :: "bytes \<Rightarrow> bytes \<Rightarrow> coin \<Rightarrow> ('x ctx, dec) call"
  ms_Undelegate :: "bytes \<Rightarrow> bytes \<Rightarrow> coin \<Rightarrow> ('x ctx, unit) call"

type_synonym 'x AuthSource = "'x ctx \<Rightarrow> bytes \<Rightarrow> bool"

record 'x CustomMsgHandler =
  handler_k :: "'x msKeeper"
  handler_auth :: "'x AuthSource"

definition defaultMaxCapAuthorizator :: "'x Keeper \<Rightarrow> 'x AuthSource" where
  "defaultMaxCapAuthorizator k ctx contractAddr = HasMaxCapLimit ctx contractAddr"

definition NewCustomMsgHandler :: "'x msKeeper \<Rightarrow> 'x AuthSource \<Rightarrow> 'x CustomMsgHandler" where
  "NewCustomMsgHandler k auth = \<lparr>handler_k = k, handler_auth = auth\<rparr>"

definition NewDefaultCustomMsgHandler :: "'x Keeper \<Rightarrow> 'x CustomMsgHandler" where
  "NewDefaultCustomMsgHandler k =
     \<lparr>handler_k = \<lparr>ms_Delegate = Delegate k, ms_Undelegate = Undelegate k\<rparr>,
      handler_auth = defaultMaxCapAuthorizator k\<rparr>"

definition handleBondMsg :: "sdk_lib \<Rightarrow> 'x CustomMsgHandler \<Rightarrow> bytes \<Rightarrow> BondMsg \<Rightarrow> ('x ctx, event list) call" where
  "handleBondMsg L h actor bondMsg =
     bind (reading (\<lambda>_. convert_wasm_coin L (bond_Amount bondMsg))) (\<lambda>coin.
     bind (reading (\<lambda>_. val_from_bech32 L (bond_Validator bondMsg))) (\<lambda>valAddr.
     bind (ms_Delegate (handler_k h) actor valAddr coin) (\<lambda>_.
     ret [\<lparr>event_type = ''instant_delegate'', attributes =
       [(''module'', ModuleName), (''validator'', val_string L valAddr),
        (''amount'', coin_string L coin), (''delegator'', acc_string L actor)]\<rparr>])))"

definition handleUnbondMsg :: "sdk_lib \<Rightarrow> 'x CustomMsgHandler \<Rightarrow> bytes \<Rightarrow> UnbondMsg \<Rightarrow> ('x ctx, event list) call" where
  "handleUnbondMsg L h actor bondMsg =
     bind (reading (\<lambda>_. convert_wasm_coin L (unbond_Amount bondMsg))) (\<lambda>coin.
     bind (reading (\<lambda>_. val_from_bech32 L (unbond_Validator bondMsg))) (\<lambda>valAddr.
     bind (ms_Undelegate (handler_k h) actor valAddr coin) (\<lambda>_.
     ret [\<lparr>event_type = ''instant_unbond'', attributes =
       [(''module'', ModuleName), (''validator'', val_string L valAddr),
        (''amount'', coin_string L coin), (''sender'', acc_string L actor)]\<rparr>])))"

definition DispatchMsg :: "sdk_lib \<Rightarrow> (bytes \<Rightarrow> CustomMsg res) \<Rightarrow> 'x CustomMsgHandler \<Rightarrow> bytes \<Rightarrow> CosmosMsg \<Rightarrow>
    ('x ctx, event list) call" where
  "DispatchMsg L unmarshal h contractAddr msg = (\<lambda>ctx.
     case cm_Custom msg of
       None \<Rightarrow> fail ErrUnknownMsg ctx
     | Some bz \<Rightarrow> (case unmarshal bz of
         Err _ \<Rightarrow> fail (Wrapped ErrJSONUnmarshal ''custom message'') ctx
       | Panic p \<Rightarrow> panic p ctx
       | Ok customMsg \<Rightarrow> (case msg_VirtualStake customMsg of
           None \<Rightarrow> fail ErrUnknownMsg ctx
         | Some stake \<Rightarrow>
             if \<not> handler_auth h ctx contractAddr
             then fail (Wrapped ErrUnauthorized ''contract has no permission for mesh security operations'') ctx
             else (case Bond stake of
               Some b \<Rightarrow> handleBondMsg L h contractAddr b ctx
             | None \<Rightarrow> (case Unbond_msg stake of
                 Some u \<Rightarrow> handleUnbondMsg L h contractAddr u ctx
               | None \<Rightarrow> fail ErrUnknownMsg ctx)))))"

text \<open>The interface \<open>maxCapSource\<close> is its one method.\<close>

type_synonym 'x maxCapSource = "'x ctx \<Rightarrow> bytes \<Rightarrow> bool"

definition NewIntegrityHandler :: "'x maxCapSource \<Rightarrow> bytes \<Rightarrow> CosmosMsg \<Rightarrow> ('x ctx, event list) call" where
  "NewIntegrityHandler has_max_cap contractAddr msg = (\<lambda>ctx.
     if cm_Stargate msg = None \<and> cm_Staking msg = None \<or> \<not> has_max_cap ctx contractAddr
     then fail ErrUnknownMsg ctx
     else fail (Wrapped ErrUnsupported ''message type for contracts with max cap set'') ctx)"

section \<open>Custom queries\<close>

record QueryRequest =
  qr_Custom :: "bytes option"

record 'x slashingKeeper =
  sk_DoubleSign :: "'x \<Rightarrow> dec"
  sk_Downtime :: "'x \<Rightarrow> dec"

text \<open>The interface \<open>viewKeeper\<close>.\<close>

record 'x viewKeeper =
  view_MaxCap :: "'x ctx \<Rightarrow> bytes \<Rightarrow> coin res"
  view_Delegated :: "'x ctx \<Rightarrow> bytes \<Rightarrow> coin res"

definition view_of :: "'x Keeper \<Rightarrow> 'x viewKeeper" where
  "view_of k = \<lparr>view_MaxCap = GetMaxCapLimit k, view_Delegated = GetTotalDelegated k\<rparr>"

type_synonym 'x query_handler = "'x ctx \<Rightarrow> bytes \<Rightarrow> QueryRequest \<Rightarrow> bytes res"

definition UnsupportedRequest :: err where
  "UnsupportedRequest = Errorf ''unsupported request: unknown virtual_stake query variant''"

definition ChainedCustomQuerier :: "sdk_lib \<Rightarrow> (bytes \<Rightarrow> CustomQuery res) \<Rightarrow> 'x viewKeeper \<Rightarrow> 'x slashingKeeper \<Rightarrow>
    'x query_handler \<Rightarrow> 'x query_handler" where
  "ChainedCustomQuerier L unmarshal k sk next ctx caller request =
     (case qr_Custom request of
        None \<Rightarrow> next ctx caller request
      | Some bz \<Rightarrow>
          bindR (wrapping ''mesh-security query'' (unmarshal bz)) (\<lambda>contractQuery.
          case query_VirtualStake contractQuery of
            None \<Rightarrow> next ctx caller request
          | Some query \<Rightarrow> (case BondStatus query of
              Some q \<Rightarrow> (case acc_from_bech32 L (query_Contract q) of
                  Err _ \<Rightarrow> Err (Wrapped ErrInvalidAddress (query_Contract q))
                | Panic p \<Rightarrow> Panic p
                | Ok contractAddr \<Rightarrow>
                    bindR (bindR (view_MaxCap k ctx contractAddr) (convert_sdk_coin L)) (\<lambda>cap.
                    bindR (bindR (view_Delegated k ctx contractAddr) (convert_sdk_coin L)) (\<lambda>delegated.
                    Ok (string_bytes (bond_status_json L \<lparr>rsp_MaxCap = cap, rsp_Delegated = delegated\<rparr>)))))
            | None \<Rightarrow> (case SlashRatio query of
                Some _ \<Rightarrow> Ok (string_bytes (slash_ratio_json
                  \<lparr>SlashFractionDowntime = dec_string L (sk_Downtime sk (chain ctx)),
                   SlashFractionDoubleSign = dec_string L (sk_DoubleSign sk (chain ctx))\<rparr>))
              | None \<Rightarrow> Err UnsupportedRequest))))"

definition NewQueryDecorator :: "sdk_lib \<Rightarrow> (bytes \<Rightarrow> CustomQuery res) \<Rightarrow> 'x viewKeeper \<Rightarrow> 'x slashingKeeper \<Rightarrow>
    'x query_handler \<Rightarrow> 'x query_handler" where
  "NewQueryDecorator L unmarshal k sk next = ChainedCustomQuerier L unmarshal k sk next"

section \<open>gRPC queries\<close>

definition query_VirtualStakingMaxCapLimit :: "'x Keeper \<Rightarrow> QueryVirtualStakingMaxCapLimitRequest \<Rightarrow> 'x ctx \<Rightarrow>
    QueryVirtualStakingMaxCapLimitResponse res" where
  "query_VirtualStakingMaxCapLimit k req ctx =
     bindR (wrapping ''contract'' (acc_from_bech32 (lib k) (limit_req_Address req))) (\<lambda>acc.
     bindR (GetMaxCapLimit k ctx acc) (\<lambda>cap.
     bindR (GetTotalDelegated k ctx acc) (\<lambda>delegated.
     Ok \<lparr>limit_resp_Delegated = delegated, limit_resp_Cap = cap\<rparr>)))"

definition limit_info :: "'x Keeper \<Rightarrow> bytes \<Rightarrow> int \<Rightarrow> VirtualStakingMaxCapInfo list \<Rightarrow>
    ('x ctx, bool \<times> VirtualStakingMaxCapInfo list) call" where
  "limit_info k addr maxCap infos =
     bind (reading (\<lambda>ctx. GetTotalDelegated k ctx addr)) (\<lambda>delegated.
     bind (reading (\<lambda>ctx. new_coin (lib k) (bond_denom k ctx) maxCap)) (\<lambda>cap.
     ret (False, infos @ [\<lparr>info_Contract = acc_string (lib k) addr, info_Delegated = delegated, info_Cap = cap\<rparr>])))"

definition query_VirtualStakingMaxCapLimits :: "'x Keeper \<Rightarrow> QueryVirtualStakingMaxCapLimitsRequest \<Rightarrow>
    ('x ctx, QueryVirtualStakingMaxCapLimitsResponse) call" where
  "query_VirtualStakingMaxCapLimits k req =
     bind (IterateMaxCapLimit k (limit_info k) []) (\<lambda>infos. ret \<lparr>MaxCapInfos = infos\<rparr>)"

definition query_Params :: "'x Keeper \<Rightarrow> QueryParamsRequest \<Rightarrow> 'x ctx \<Rightarrow> QueryParamsResponse res" where
  "query_Params k req ctx = bindR (GetParams k ctx) (\<lambda>p. Ok \<lparr>params_resp_Params = p\<rparr>)"

section \<open>The governance message\<close>

definition ErrInvalidSigner :: err where "ErrInvalidSigner = Sentinel ''govtypes.ErrInvalidSigner''"

definition SetVirtualStakingMaxCap ::
  "'x Keeper \<Rightarrow> MsgSetVirtualStakingMaxCap \<Rightarrow> ('x ctx, MsgSetVirtualStakingMaxCapResponse) call" where
  "SetVirtualStakingMaxCap k req =
     bind (reading (\<lambda>_. setcap_ValidateBasic (lib k) req)) (\<lambda>_.
     if GetAuthority k \<noteq> setcap_Authority req then fail (Wrapped ErrInvalidSigner ''invalid authority'')
     else
       bind (reading (\<lambda>_. wrapping ''contract'' (acc_from_bech32 (lib k) (setcap_Contract req)))) (\<lambda>acc.
       bind (SetMaxCapLimit k acc (setcap_MaxCap req)) (\<lambda>_.
       bind (HasScheduledTask k SchedulerTaskHandleEpoch acc True) (\<lambda>scheduled.
       if \<not> scheduled then
         bind (attempt (ScheduleRegularRebalanceTask k acc)) (\<lambda>r.
         bind (reading (\<lambda>_. wrapping ''schedule regular rebalance task'' r)) (\<lambda>_.
         ret MsgSetVirtualStakingMaxCapResponse))
       else
         bind (reading (\<lambda>_. int_of (amount (setcap_MaxCap req)))) (\<lambda>a.
         bind (if a = 0 then DeleteAllScheduledTasks k SchedulerTaskHandleEpoch acc else ret ()) (\<lambda>_ ctx.
         bind (attempt (ScheduleOneShotTask k SchedulerTaskHandleEpoch acc (BlockHeight ctx))) (\<lambda>r.
         bind (reading (\<lambda>_. wrapping ''schedule one shot rebalance task'' r)) (\<lambda>_.
         ret MsgSetVirtualStakingMaxCapResponse)) ctx))))))"

text \<open>The arguments of the proposal command: the contract and the coin, which the SDK parses.\<close>

definition parseSetVirtualStakingMaxCapArgs ::
  "(string \<Rightarrow> coin res) \<Rightarrow> string list \<Rightarrow> string \<Rightarrow> MsgSetVirtualStakingMaxCap res" where
  "parseSetVirtualStakingMaxCapArgs parse_coin args auth =
     bindR (go_index args 1) (\<lambda>arg.
     bindR (wrapping ''max cap'' (parse_coin arg)) (\<lambda>maxCap.
     bindR (go_index args 0) (\<lambda>contract.
     Ok \<lparr>setcap_Authority = auth, setcap_Contract = contract, setcap_MaxCap = maxCap\<rparr>)))"

end
