(* ===== verification/Valset.thy ===== *)
theory Valset
  imports TaskRun Contract
begin

text \<open>
  \<open>keeper/valset_updates.go\<close> and \<open>keeper/staking_hooks.go\<close>: validator-set changes are written to the
  in-memory store, each as a key without a value, and every contract with a positive limit gets a
  task; in the end blocker the keys are decoded into a report and cleared.  The lengths in the keys
  are bytes, and the decoder computes its offsets with byte arithmetic, which wraps.
\<close>

section \<open>Scheduling\<close>

text \<open>The callback of \<open>sendAsync\<close>; the captured \<open>innerErr\<close> is overwritten on each call.\<close>

definition notify :: "'x Keeper \<Rightarrow> bytes \<Rightarrow> int \<Rightarrow> err option \<Rightarrow> ('x ctx, bool \<times> err option) call" where
  "notify k contractAddr m innerErr = (\<lambda>ctx.
     if m > 0 then
       bind (attempt (ScheduleOneShotTask k SchedulerTaskValsetUpdate contractAddr (BlockHeight ctx))) (\<lambda>r.
       case err_of r of
         Some e \<Rightarrow> ret (True, Some e)
       | None \<Rightarrow> ret (False, None)) ctx
     else ret (False, innerErr) ctx)"

definition sendAsync ::
  "'x Keeper \<Rightarrow> PipedValsetOperation \<Rightarrow> bytes \<Rightarrow> SlashInfo option \<Rightarrow> ('x ctx, unit) call" where
  "sendAsync k op valAddr slashInfo =
     bind (reading (\<lambda>_. BuildPipedValsetOpKey (lib k) op valAddr slashInfo)) (\<lambda>key.
     bind (update_state (\<lambda>c. c\<lparr>mmem := kv_set (mmem c) key []\<rparr>)) (\<lambda>_.
     bind (IterateMaxCapLimit k (notify k) None) (\<lambda>innerErr.
     case innerErr of Some e \<Rightarrow> fail e | None \<Rightarrow> ret ())))"

definition ScheduleBonded :: "'x Keeper \<Rightarrow> bytes \<Rightarrow> ('x ctx, unit) call" where
  "ScheduleBonded k addr = sendAsync k ValidatorBonded addr None"

definition ScheduleUnbonded :: "'x Keeper \<Rightarrow> bytes \<Rightarrow> ('x ctx, unit) call" where
  "ScheduleUnbonded k addr = sendAsync k ValidatorUnbonded addr None"

definition ScheduleSlashed :: "'x Keeper \<Rightarrow> bytes \<Rightarrow> u64 \<Rightarrow> u64 \<Rightarrow> int \<Rightarrow> dec \<Rightarrow> ('x ctx, unit) call" where
  "ScheduleSlashed k addr pwr height totalSlashAmount slashRatio =
     sendAsync k ValidatorSlashed addr (Some
       \<lparr>InfractionHeight = height, Power = pwr,
        TotalSlashAmount = int_string (lib k) totalSlashAmount,
        SlashFraction = dec_string (lib k) slashRatio\<rparr>)"

definition ScheduleJailed :: "'x Keeper \<Rightarrow> bytes \<Rightarrow> ('x ctx, unit) call" where
  "ScheduleJailed k addr = sendAsync k ValidatorJailed addr None"

definition ScheduleTombstoned :: "'x Keeper \<Rightarrow> bytes \<Rightarrow> ('x ctx, unit) call" where
  "ScheduleTombstoned k addr = sendAsync k ValidatorTombstoned addr None"

definition ScheduleUnjailed :: "'x Keeper \<Rightarrow> bytes \<Rightarrow> ('x ctx, unit) call" where
  "ScheduleUnjailed k addr = sendAsync k ValidatorUnjailed addr None"

definition ScheduleModified :: "'x Keeper \<Rightarrow> bytes \<Rightarrow> ('x ctx, unit) call" where
  "ScheduleModified k addr = sendAsync k ValidatorModified addr None"

section \<open>Staking hooks\<close>

definition AfterValidatorBonded :: "'x Keeper \<Rightarrow> bytes \<Rightarrow> bytes \<Rightarrow> ('x ctx, unit) call" where
  "AfterValidatorBonded k consAddr valAddr = ScheduleBonded k valAddr"

definition AfterValidatorBeginUnbonding :: "'x Keeper \<Rightarrow> bytes \<Rightarrow> bytes \<Rightarrow> ('x ctx, unit) call" where
  "AfterValidatorBeginUnbonding k consAddr valAddr = ScheduleUnbonded k valAddr"

definition BeforeValidatorModified :: "'x Keeper \<Rightarrow> bytes \<Rightarrow> ('x ctx, unit) call" where
  "BeforeValidatorModified k valAddr = ScheduleModified k valAddr"

definition BeforeValidatorSlashed :: "'x Keeper \<Rightarrow> bytes \<Rightarrow> dec \<Rightarrow> ('x ctx, unit) call" where
  "BeforeValidatorSlashed k valAddr fraction = ret ()"

definition AfterUnbondingInitiated :: "'x Keeper \<Rightarrow> u64 \<Rightarrow> ('x ctx, unit) call" where
  "AfterUnbondingInitiated k id' = ret ()"

text \<open>The remaining hooks do nothing.\<close>

definition AfterValidatorCreated :: "'x Keeper \<Rightarrow> bytes \<Rightarrow> ('x ctx, unit) call" where
  "AfterValidatorCreated k valAddr = ret ()"

definition AfterValidatorRemoved :: "'x Keeper \<Rightarrow> bytes \<Rightarrow> bytes \<Rightarrow> ('x ctx, unit) call" where
  "AfterValidatorRemoved k consAddr valAddr = ret ()"

definition BeforeDelegationCreated :: "'x Keeper \<Rightarrow> bytes \<Rightarrow> bytes \<Rightarrow> ('x ctx, unit) call" where
  "BeforeDelegationCreated k delAddr valAddr = ret ()"

definition BeforeDelegationSharesModified :: "'x Keeper \<Rightarrow> bytes \<Rightarrow> bytes \<Rightarrow> ('x ctx, unit) call" where
  "BeforeDelegationSharesModified k delAddr valAddr = ret ()"

definition BeforeDelegationRemoved :: "'x Keeper \<Rightarrow> bytes \<Rightarrow> bytes \<Rightarrow> ('x ctx, unit) call" where
  "BeforeDelegationRemoved k delAddr valAddr = ret ()"

definition AfterDelegationModified :: "'x Keeper \<Rightarrow> bytes \<Rightarrow> bytes \<Rightarrow> ('x ctx, unit) call" where
  "AfterDelegationModified k delAddr valAddr = ret ()"

section \<open>Decoding\<close>

text \<open>Slicing and indexing with byte-valued offsets.\<close>

definition index_b :: "bytes \<Rightarrow> byte \<Rightarrow> byte res" where
  "index_b key i = go_index key (unat i)"

definition slice_b :: "bytes \<Rightarrow> byte \<Rightarrow> byte \<Rightarrow> bytes res" where
  "slice_b key a b = go_slice key (unat a) (unat b)"

definition decode_slash :: "sdk_lib \<Rightarrow> bytes \<Rightarrow> byte \<Rightarrow> SlashInfo res" where
  "decode_slash L key addrLen =
     (if length key \<le> 1 + unat addrLen + 1 + 8 + 8 + 1
      then Err (Wrapped ErrInvalid ''invalid slash key length'')
      else
        bindR (index_b key (addrLen + 2 + 8 + 8)) (\<lambda>totalSlashAmountLen.
        bindR (bindR (slice_b key (addrLen + 2) (addrLen + 2 + 8)) (be_uint64 L)) (\<lambda>power.
        bindR (bindR (slice_b key (addrLen + 2 + 8) (addrLen + 2 + 8 + 8)) (be_uint64 L)) (\<lambda>height.
        bindR (slice_b key (addrLen + 2 + 8 + 8 + 1) (addrLen + 2 + 8 + 8 + 1 + totalSlashAmountLen)) (\<lambda>total.
        bindR (go_slice_from key (unat (addrLen + 2 + 8 + 8 + 1 + totalSlashAmountLen))) (\<lambda>fraction.
        Ok \<lparr>InfractionHeight = height, Power = power,
            TotalSlashAmount = bytes_string total, SlashFraction = bytes_string fraction\<rparr>))))))"

definition decode_piped :: "sdk_lib \<Rightarrow> bytes \<Rightarrow> (bytes \<times> PipedValsetOperation \<times> SlashInfo option) res" where
  "decode_piped L key =
     bindR (go_index key 0) (\<lambda>addrLen.
     bindR (slice_b key 1 (addrLen + 1)) (\<lambda>addr.
     bindR (index_b key (addrLen + 1)) (\<lambda>op.
     if op = ValidatorSlashed
     then bindR (decode_slash L key addrLen) (\<lambda>si. Ok (addr, op, Some si))
     else Ok (addr, op, None))))"

definition iteratePipedValsetOperations :: "'x Keeper \<Rightarrow>
    (bytes \<Rightarrow> PipedValsetOperation \<Rightarrow> SlashInfo option \<Rightarrow> 'a \<Rightarrow> ('x ctx, bool \<times> 'a) call) \<Rightarrow>
    'a \<Rightarrow> ('x ctx, 'a) call" where
  "iteratePipedValsetOperations k cb a = (\<lambda>ctx.
     iterate (\<lambda>e a. bind (reading (\<lambda>_. decode_piped (lib k) (fst e))) (\<lambda>(addr, op, si). cb addr op si a))
       (kv_prefix (mmem ctx) PipedValsetPrefix) a ctx)"

section \<open>The report\<close>

definition ConvertSdkValidatorToWasm :: "sdk_lib \<Rightarrow> validator \<Rightarrow> WasmValidator" where
  "ConvertSdkValidatorToWasm L v =
     \<lparr>wv_Address = OperatorAddress v, wv_Commission = dec_string L (commission_rate v),
      wv_MaxCommission = dec_string L (commission_max_rate v),
      wv_MaxChangeRate = dec_string L (commission_max_change_rate v)\<rparr>"

definition empty_report :: ValsetUpdate where
  "empty_report = \<lparr>Additions = [], Removals = [], Updated = [], Jailed = [], Unjailed = [],
     Tombstoned = [], Slashed = []\<rparr>"

definition slash_entry :: "sdk_lib \<Rightarrow> 'x ctx \<Rightarrow> bytes \<Rightarrow> SlashInfo \<Rightarrow> ValidatorSlash" where
  "slash_entry L ctx valAddr si =
     \<lparr>vs_ValidatorAddr = val_string L valAddr, vs_Height = BlockHeight ctx, vs_Time = BlockTime ctx,
      vs_InfractionHeight = InfractionHeight si, vs_InfractionTime = 0, vs_Power = Power si,
      vs_SlashAmount = TotalSlashAmount si, vs_SlashRatio = SlashFraction si\<rparr>"

text \<open>
  The report and the captured \<open>innerErr\<close>; an unknown validator or operation ends the iteration.
\<close>

definition append_validator :: "'x Keeper \<Rightarrow> (WasmValidator \<Rightarrow> ValsetUpdate \<Rightarrow> ValsetUpdate) \<Rightarrow> bytes \<Rightarrow>
    ValsetUpdate \<times> err option \<Rightarrow> ('x ctx, bool \<times> ValsetUpdate \<times> err option) call" where
  "append_validator k app valAddr a = (\<lambda>ctx.
     case GetValidator (Staking k) (chain ctx) valAddr of
       None \<Rightarrow> ret (True, fst a, Some (Wrapped ErrUnknown ''validator'')) ctx
     | Some val \<Rightarrow> ret (False, app (ConvertSdkValidatorToWasm (lib k) val) (fst a), snd a) ctx)"

definition report_op :: "'x Keeper \<Rightarrow> bytes \<Rightarrow> PipedValsetOperation \<Rightarrow> SlashInfo option \<Rightarrow>
    ValsetUpdate \<times> err option \<Rightarrow> ('x ctx, bool \<times> ValsetUpdate \<times> err option) call" where
  "report_op k valAddr op slashInfo a = (\<lambda>ctx.
     let r = fst a; addr = val_string (lib k) valAddr in
     if op = ValidatorBonded then append_validator k (\<lambda>v. Additions_update (\<lambda>xs. xs @ [v])) valAddr a ctx
     else if op = ValidatorUnbonded then ret (False, r\<lparr>Removals := Removals r @ [addr]\<rparr>, snd a) ctx
     else if op = ValidatorJailed then ret (False, r\<lparr>Jailed := Jailed r @ [addr]\<rparr>, snd a) ctx
     else if op = ValidatorTombstoned then ret (False, r\<lparr>Tombstoned := Tombstoned r @ [addr]\<rparr>, snd a) ctx
     else if op = ValidatorUnjailed then ret (False, r\<lparr>Unjailed := Unjailed r @ [addr]\<rparr>, snd a) ctx
     else if op = ValidatorModified then append_validator k (\<lambda>v. Updated_update (\<lambda>xs. xs @ [v])) valAddr a ctx
     else if op = ValidatorSlashed then
       (case slashInfo of
          None \<Rightarrow> panic ''nil pointer dereference'' ctx
        | Some si \<Rightarrow> ret (False, r\<lparr>Slashed := Slashed r @ [slash_entry (lib k) ctx valAddr si]\<rparr>, snd a) ctx)
     else ret (True, r, Some (Wrapped ErrInvalid ''undefined operation type'')) ctx)"

definition ValsetUpdateReport :: "'x Keeper \<Rightarrow> ('x ctx, ValsetUpdate) call" where
  "ValsetUpdateReport k =
     bind (iteratePipedValsetOperations k (report_op k) (empty_report, None)) (\<lambda>(r, innerErr).
     case innerErr of Some e \<Rightarrow> fail e | None \<Rightarrow> ret r)"

definition ClearPipedValsetOperations :: "'x Keeper \<Rightarrow> 'x ctx \<Rightarrow> 'x ctx" where
  "ClearPipedValsetOperations k ctx =
     (let keys = map fst (kv_prefix (mmem ctx) PipedValsetPrefix) in
      ctx\<lparr>mmem := foldl (\<lambda>s key. kv_delete s (PipedValsetPrefix @ key)) (mmem ctx) keys\<rparr>)"

end
