(* ===== verification/ValsetReport.thy ===== *)
theory ValsetReport
  imports Valset
begin

text \<open>
  What becomes of a validator-set change: the key decodes to the operation and the validator, a
  slash with its power and height in exchanged positions; sending it off notifies every contract
  with a positive limit once per block; the report lists the operations by kind in the order of
  their keys; and clearing removes them all.
\<close>

section \<open>Keys decode\<close>

lemma byte_add:
  fixes a b :: byte
  shows "unat a + unat b < 256 \<Longrightarrow> unat (a + b) = unat a + unat b"
  by (simp add: unat_word_ariths)

lemma byte_of_nat: "n < 256 \<Longrightarrow> unat (word_of_nat n :: byte) = n"
  by (simp add: unat_of_nat)

lemma piped_key_parts:
  "op \<noteq> ValidatorSlashed \<Longrightarrow> piped_key op val si = word_of_nat (length val) # val @ [op]"
  "piped_key ValidatorSlashed val (Some si') = word_of_nat (length val) # val @ [ValidatorSlashed] @ slash_bytes si'"
  by (simp_all add: piped_key_def split: option.split)

text \<open>The part that all keys share.\<close>

lemma decode_head:
  assumes "length val \<le> 254" and key: "key = word_of_nat (length val) # val @ op # rest"
  shows "go_index key 0 = Ok (word_of_nat (length val))"
    and "slice_b key 1 (word_of_nat (length val) + 1) = Ok val"
    and "index_b key (word_of_nat (length val) + 1) = Ok op"
proof -
  have n: "unat (word_of_nat (length val) + 1 :: byte) = 1 + length val"
    using assms(1) by (simp add: byte_add byte_of_nat)
  show "go_index key 0 = Ok (word_of_nat (length val))"
    by (simp add: key go_index_def)
  show "slice_b key 1 (word_of_nat (length val) + 1) = Ok val"
    unfolding slice_b_def n by (simp add: key go_slice_def)
  show "index_b key (word_of_nat (length val) + 1) = Ok op"
    unfolding index_b_def n by (simp add: key go_index_def nth_append)
qed

lemma decode_plain:
  assumes "length val \<le> 254" and "op \<noteq> ValidatorSlashed"
  shows "decode_piped L (piped_key op val si) = Ok (val, op, None)"
proof -
  have "piped_key op val si = word_of_nat (length val) # val @ op # []"
    using assms(2) by (simp add: piped_key_parts)
  note head = decode_head [OF assms(1) this]
  show ?thesis
    using assms(2) by (simp add: decode_piped_def head)
qed

lemma decode_slashed:
  assumes L: "layout_laws L" and len: "length val + 19 + length (TotalSlashAmount si) \<le> 255"
    and some: "TotalSlashAmount si \<noteq> [] \<or> SlashFraction si \<noteq> []"
  shows "decode_piped L (piped_key ValidatorSlashed val (Some si)) =
    Ok (val, ValidatorSlashed, Some (si\<lparr>Power := InfractionHeight si, InfractionHeight := Power si\<rparr>))"
proof -
  define n where "n = length val"
  define t where "t = length (TotalSlashAmount si)"
  let ?key = "piped_key ValidatorSlashed val (Some si)" and ?a = "word_of_nat n :: byte"
  let ?h = "put_uint64 (InfractionHeight si)" and ?p = "put_uint64 (Power si)"
  let ?t = "string_bytes (TotalSlashAmount si)" and ?f = "string_bytes (SlashFraction si)"
  have key: "?key = ?a # val @ ValidatorSlashed # ?h @ ?p @ word_of_nat t # ?t @ ?f"
    by (simp add: piped_key_parts slash_bytes_def n_def t_def)
  have lens: "length val = n" "length ?t = t"
    by (simp_all add: n_def t_def)
  have small: "n + 19 + t \<le> 255"
    using len by (simp add: n_def t_def)
  have off: "unat (?a + 2) = n + 2" "unat (?a + 2 + 8) = n + 10" "unat (?a + 2 + 8 + 8) = n + 18"
      "unat (?a + 2 + 8 + 8 + 1) = n + 19" "unat (?a + 2 + 8 + 8 + 1 + word_of_nat t) = n + 19 + t"
    using small by (simp_all add: byte_add byte_of_nat unat_of_nat unat_word_ariths)
  have tn: "index_b ?key (?a + 2 + 8 + 8) = Ok (word_of_nat t)"
    unfolding index_b_def off
    using go_index_is [of "n + 18" "?a # val @ ValidatorSlashed # ?h @ ?p" "word_of_nat t" "?t @ ?f"]
    by (simp add: key lens)
  have hs: "slice_b ?key (?a + 2) (?a + 2 + 8) = Ok ?h"
    unfolding slice_b_def off
    using go_slice_is [of "n + 2" "?a # val @ [ValidatorSlashed]" "n + 10" ?h "?p @ word_of_nat t # ?t @ ?f"]
    by (simp add: key lens)
  have ps: "slice_b ?key (?a + 2 + 8) (?a + 2 + 8 + 8) = Ok ?p"
    unfolding slice_b_def off
    using go_slice_is [of "n + 10" "?a # val @ ValidatorSlashed # ?h" "n + 18" ?p "word_of_nat t # ?t @ ?f"]
    by (simp add: key lens)
  have ts: "slice_b ?key (?a + 2 + 8 + 8 + 1) (?a + 2 + 8 + 8 + 1 + word_of_nat t) = Ok ?t"
    unfolding slice_b_def off
    using go_slice_is [of "n + 19" "?a # val @ ValidatorSlashed # ?h @ ?p @ [word_of_nat t]" "n + 19 + t" ?t ?f]
    by (simp add: key lens(1) t_def)
  have fs: "go_slice_from ?key (unat (?a + 2 + 8 + 8 + 1 + word_of_nat t)) = Ok ?f"
    unfolding off
    using go_slice_from_is [of "n + 19 + t" "?a # val @ ValidatorSlashed # ?h @ ?p @ word_of_nat t # ?t" ?f]
    by (simp add: key lens(1) t_def)
  have "\<not> length ?key \<le> 1 + unat ?a + 1 + 8 + 8 + 1"
    using small some by (auto simp: key lens(1) byte_of_nat t_def)
  then have "decode_slash L ?key ?a = Ok (si\<lparr>Power := InfractionHeight si, InfractionHeight := Power si\<rparr>)"
    using tn hs ps ts fs by (simp only: decode_slash_def if_False bindR_simps)
      (simp add: layout_lawsD [OF L])
  moreover have "length val \<le> 254"
    using small lens by simp
  ultimately show ?thesis
    using decode_head [of val ?key ValidatorSlashed] by (simp add: decode_piped_def key lens)
qed

text \<open>A length byte of 255 makes the first slice expression panic.\<close>

lemma decode_length_255:
  assumes "length val = 255"
  shows "decode_piped L (piped_key op val si) = Panic ''slice bounds out of range''"
proof -
  have "(word_of_nat 255 + 1 :: byte) = 0"
    by simp
  then show ?thesis
    using assms by (simp add: decode_piped_def piped_key_def go_index_def slice_b_def go_slice_def)
qed

section \<open>Sending off a change\<close>

text \<open>The part of the store that the scheduler does not own.\<close>

definition off_schedule :: "bytes \<Rightarrow> bool" where
  "off_schedule key \<longleftrightarrow> take 1 key \<noteq> SchedulerKeyPrefix"

lemma off_schedule_task [simp]: "\<not> off_schedule (SchedulerKeyPrefix @ key)"
  by (simp add: off_schedule_def prefix_defs)

lemma put_task_off_schedule [simp]: "off_schedule key \<Longrightarrow> kv_get (put_task s tp x r) key = kv_get s key"
  by (auto simp: put_task_def)

lemma del_task_off_schedule [simp]: "off_schedule key \<Longrightarrow> kv_get (del_task s tp x) key = kv_get s key"
  by (auto simp: del_task_def)

text \<open>One contract is notified: it has a task at the current height afterwards.\<close>

definition notified :: "u64 \<Rightarrow> bytes \<times> int \<Rightarrow> kvstore \<Rightarrow> kvstore" where
  "notified cur e s = (if 0 < snd e \<and> task_at s SchedulerTaskValsetUpdate (cur, fst e) = None
     then put_task s SchedulerTaskValsetUpdate (cur, fst e) False else s)"

lemma notify_run:
  assumes "layout_laws (lib k)"
  obtains d where "notify k a m None c = (Ok (False, None), d)"
    and "mstore d = notified (BlockHeight c) (a, m) (mstore c)" and "mmem d = mmem c"
    and "chain d = chain c" and "BlockHeight d = BlockHeight c"
proof -
  obtain v d where out: "notify k a m None c = (v, d)"
    by (cases "notify k a m None c")
  have "v = Ok (False, None) \<and> mstore d = notified (BlockHeight c) (a, m) (mstore c) \<and>
      mmem d = mmem c \<and> chain d = chain c \<and> BlockHeight d = BlockHeight c"
    using out unfolding notify_def bind_apply attempt_apply
    by (auto simp: ScheduleOneShotTask_run [OF assms] notified_def split: if_splits)
  then show ?thesis
    using out by (intro that [of d]) simp_all
qed

lemma iterate_notify:
  assumes L: "layout_laws (lib k)"
  shows "\<forall>(key, v) \<in> set es. int_unmarshal (lib k) v = Ok (int_value (lib k) v) \<Longrightarrow>
    \<exists>d. iterate (decode_cap k (notify k)) es None c = (Ok None, d) \<and>
      mstore d = fold (notified (BlockHeight c)) (map (\<lambda>(key, v). (key, int_value (lib k) v)) es) (mstore c) \<and>
      mmem d = mmem c \<and> chain d = chain c \<and> BlockHeight d = BlockHeight c"
proof (induction es arbitrary: c)
  case (Cons e es)
  obtain a v where e: "e = (a, v)"
    by (cases e)
  with Cons.prems have v: "int_unmarshal (lib k) v = Ok (int_value (lib k) v)"
    by simp
  obtain d where step: "notify k a (int_value (lib k) v) None c = (Ok (False, None), d)"
    and d: "mstore d = notified (BlockHeight c) (a, int_value (lib k) v) (mstore c)" "mmem d = mmem c"
      "chain d = chain c" "BlockHeight d = BlockHeight c"
    by (rule notify_run [OF L])
  obtain d' where "iterate (decode_cap k (notify k)) es None d = (Ok None, d')"
    and "mstore d' = fold (notified (BlockHeight c)) (map (\<lambda>(key, v). (key, int_value (lib k) v)) es) (mstore d)"
      "mmem d' = mmem c" "chain d' = chain c" "BlockHeight d' = BlockHeight c"
    using Cons.IH [of d] Cons.prems d by auto
  then show ?case
    using step d(1) by (intro exI [of _ d']) (simp add: e bind_apply decode_cap_Ok [OF v])
qed simp

lemma notified_off_schedule: "off_schedule key \<Longrightarrow> kv_get (fold (notified cur) es s) key = kv_get s key"
  by (induction es arbitrary: s) (simp_all add: notified_def)

lemma notified_tasks_ok: "tasks_ok (fold (notified cur) es s) tp \<longleftrightarrow> tasks_ok s tp"
  by (induction es arbitrary: s) (simp_all add: notified_def)

lemma notified_other_type:
  "tp \<noteq> SchedulerTaskValsetUpdate \<Longrightarrow> task_at (fold (notified cur) es s) tp x = task_at s tp x"
  by (induction es arbitrary: s) (simp_all add: notified_def queue.at_put)

lemma notified_tasks:
  "task_at (fold (notified cur) es s) SchedulerTaskValsetUpdate x =
     (case task_at s SchedulerTaskValsetUpdate x of
        None \<Rightarrow> if fst x = cur \<and> (\<exists>m. (snd x, m) \<in> set es \<and> 0 < m) then Some False else None
      | Some r \<Rightarrow> Some r)"
proof (induction es arbitrary: s)
  case (Cons e es)
  obtain h a where x: "x = (h, a)"
    by (cases x)
  have "task_at (notified cur e s) SchedulerTaskValsetUpdate (h, a) =
      (case task_at s SchedulerTaskValsetUpdate (h, a) of
         None \<Rightarrow> if h = cur \<and> a = fst e \<and> 0 < snd e then Some False else None
       | Some r \<Rightarrow> Some r)"
    by (auto simp: notified_def queue.at_put split: option.split)
  then show ?case
    by (cases e) (auto simp: Cons.IH [unfolded x] x split: option.split)
qed (simp split: option.split)

lemma sendAsync_run:
  assumes L: "layout_laws (lib k)" and caps: "caps_ok k c"
    and key: "BuildPipedValsetOpKey (lib k) op val si = Ok key"
  obtains d where "sendAsync k op val si c = (Ok (), d)"
    and "mstore d = fold (notified (BlockHeight c)) (max_caps k c) (mstore c)"
    and "mmem d = kv_set (mmem c) key []" and "chain d = chain c" and "BlockHeight d = BlockHeight c"
proof -
  let ?c = "c\<lparr>mmem := kv_set (mmem c) key []\<rparr>"
  obtain d where "iterate (decode_cap k (notify k)) (kv_prefix (mstore ?c) MaxCapLimitKeyPrefix) None ?c = (Ok None, d)"
    and "mstore d = fold (notified (BlockHeight ?c)) (max_caps k c) (mstore ?c)"
      "mmem d = mmem ?c" "chain d = chain ?c" "BlockHeight d = BlockHeight ?c"
    using iterate_notify [OF L, of "kv_prefix (mstore c) MaxCapLimitKeyPrefix" ?c] caps_okD [OF caps]
    by (fastforce simp: max_caps_def)
  then show ?thesis
    using key by (intro that [of d]) (simp_all add: sendAsync_def bind_apply IterateMaxCapLimit_def)
qed

section \<open>The report\<close>

definition piped_ops :: "sdk_lib \<Rightarrow> kvstore \<Rightarrow> (bytes \<times> PipedValsetOperation \<times> SlashInfo option) list" where
  "piped_ops L s = concat (map (\<lambda>e. case decode_piped L (fst e) of Ok x \<Rightarrow> [x] | _ \<Rightarrow> [])
     (kv_prefix s PipedValsetPrefix))"

text \<open>Every key decodes, the operations are defined, and the validators to look up exist.\<close>

definition piped_ok :: "'x Keeper \<Rightarrow> 'x ctx \<Rightarrow> bool" where
  "piped_ok k ctx \<longleftrightarrow>
     list_all (\<lambda>e. is_ok (decode_piped (lib k) (fst e))) (kv_prefix (mmem ctx) PipedValsetPrefix) \<and>
     list_all (\<lambda>(a, op, si). op \<in> {ValidatorBonded, ValidatorUnbonded, ValidatorJailed, ValidatorTombstoned,
         ValidatorUnjailed, ValidatorModified, ValidatorSlashed} \<and>
       (op = ValidatorBonded \<or> op = ValidatorModified \<longrightarrow> GetValidator (Staking k) (chain ctx) a \<noteq> None))
       (piped_ops (lib k) (mmem ctx))"

definition validators_of :: "PipedValsetOperation \<Rightarrow> (bytes \<times> PipedValsetOperation \<times> SlashInfo option) list \<Rightarrow> bytes list" where
  "validators_of op ops = map fst (filter (\<lambda>x. fst (snd x) = op) ops)"

definition wasm_validator_at :: "'x Keeper \<Rightarrow> 'x ctx \<Rightarrow> bytes \<Rightarrow> WasmValidator" where
  "wasm_validator_at k ctx a = ConvertSdkValidatorToWasm (lib k) (the (GetValidator (Staking k) (chain ctx) a))"

text \<open>The report as a list per kind of operation.\<close>

definition report_of ::
  "'x Keeper \<Rightarrow> 'x ctx \<Rightarrow> (bytes \<times> PipedValsetOperation \<times> SlashInfo option) list \<Rightarrow> ValsetUpdate" where
  "report_of k ctx ops = (let addr = val_string (lib k) in
     \<lparr>Additions = map (wasm_validator_at k ctx) (validators_of ValidatorBonded ops),
      Removals = map addr (validators_of ValidatorUnbonded ops),
      Updated = map (wasm_validator_at k ctx) (validators_of ValidatorModified ops),
      Jailed = map addr (validators_of ValidatorJailed ops),
      Unjailed = map addr (validators_of ValidatorUnjailed ops),
      Tombstoned = map addr (validators_of ValidatorTombstoned ops),
      Slashed = map (\<lambda>x. slash_entry (lib k) ctx (fst x) (the (snd (snd x))))
        (filter (\<lambda>x. fst (snd x) = ValidatorSlashed) ops)\<rparr>)"

lemma ops_distinct [simp]:
  "distinct [ValidatorBonded, ValidatorUnbonded, ValidatorJailed, ValidatorTombstoned, ValidatorUnjailed,
     ValidatorModified, ValidatorSlashed]"
  by (simp add: op_defs)

lemmas op_neqs = ops_distinct [simplified distinct.simps list.set insert_iff empty_iff de_Morgan_disj]

lemma report_op_snoc:
  assumes "op \<in> {ValidatorBonded, ValidatorUnbonded, ValidatorJailed, ValidatorTombstoned,
      ValidatorUnjailed, ValidatorModified, ValidatorSlashed}"
    and "op = ValidatorBonded \<or> op = ValidatorModified \<Longrightarrow> GetValidator (Staking k) (chain c) a \<noteq> None"
    and "op = ValidatorSlashed \<Longrightarrow> si \<noteq> None"
  shows "report_op k a op si (report_of k c ops, None) c = (Ok (False, report_of k c (ops @ [(a, op, si)]), None), c)"
  using assms op_neqs
  by (auto simp: report_op_def append_validator_def report_of_def Let_def validators_of_def wasm_validator_at_def
      split: option.split)

lemma decode_slash_info: "decode_piped L key = Ok (a, ValidatorSlashed, si) \<Longrightarrow> si \<noteq> None"
  by (auto simp: decode_piped_def bindR_eq_Ok split: if_splits)

lemma iterate_report:
  assumes "\<forall>e \<in> set es. is_ok (decode_piped (lib k) (fst e))"
    and "\<forall>(a, op, si) \<in> set (concat (map (\<lambda>e. case decode_piped (lib k) (fst e) of Ok x \<Rightarrow> [x] | _ \<Rightarrow> []) es)).
      op \<in> {ValidatorBonded, ValidatorUnbonded, ValidatorJailed, ValidatorTombstoned,
         ValidatorUnjailed, ValidatorModified, ValidatorSlashed} \<and>
       (op = ValidatorBonded \<or> op = ValidatorModified \<longrightarrow> GetValidator (Staking k) (chain c) a \<noteq> None)"
  shows "iterate (\<lambda>e a. bind (reading (\<lambda>_. decode_piped (lib k) (fst e))) (\<lambda>(addr, op, si). report_op k addr op si a))
      es (report_of k c ops, None) c =
    (Ok (report_of k c (ops @ concat (map (\<lambda>e. case decode_piped (lib k) (fst e) of Ok x \<Rightarrow> [x] | _ \<Rightarrow> []) es)), None), c)"
  using assms
proof (induction es arbitrary: ops)
  case (Cons e es)
  then obtain a op si where e: "decode_piped (lib k) (fst e) = Ok (a, op, si)"
    by (auto simp: is_ok_iff)
  then have "report_op k a op si (report_of k c ops, None) c = (Ok (False, report_of k c (ops @ [(a, op, si)]), None), c)"
    using Cons.prems(2) by (intro report_op_snoc) (auto dest: decode_slash_info)
  moreover note Cons.IH [of "ops @ [(a, op, si)]"]
  ultimately show ?case
    using Cons.prems e by (simp add: bind_apply)
qed simp

lemma ValsetUpdateReport_run:
  assumes "piped_ok k c"
  shows "ValsetUpdateReport k c = (Ok (report_of k c (piped_ops (lib k) (mmem c))), c)"
proof -
  have "report_of k c [] = empty_report"
    by (simp add: report_of_def empty_report_def validators_of_def)
  then show ?thesis
    using iterate_report [of "kv_prefix (mmem c) PipedValsetPrefix" k c "[]"] assms
    by (simp add: ValsetUpdateReport_def iteratePipedValsetOperations_def bind_apply piped_ok_def
        piped_ops_def list_all_iff)
qed

section \<open>Clearing\<close>

lemma Clear_scan: "ClearPipedValsetOperations k c = c\<lparr>mmem := kvs.del_scan (mmem c) PipedValsetPrefix\<rparr>"
  by (simp add: ClearPipedValsetOperations_def kvs.del_scan_def foldl_map)

lemma Clear_empties: "kv_prefix (mmem (ClearPipedValsetOperations k c)) PipedValsetPrefix = []"
  by (simp add: Clear_scan kvs.scan_del_scan)

lemma Clear_frame [simp]:
  "mstore (ClearPipedValsetOperations k c) = mstore c" "chain (ClearPipedValsetOperations k c) = chain c"
  "emitted (ClearPipedValsetOperations k c) = emitted c" "BlockHeight (ClearPipedValsetOperations k c) = BlockHeight c"
  by (simp_all add: Clear_scan)

end
