(* ===== verification/EndBlock.thy ===== *)
theory EndBlock
  imports ValsetReport Stake
begin

text \<open>
  \<open>abci.go\<close>, the hooks of \<open>module.go\<close> and the decorators of \<open>keeper/adapter.go\<close>: how slashes, jails and
  tombstones of the chain's other modules are captured, and the end blocker that reports them to
  the contracts and runs the epoch callbacks.  Logging has no effect on the state and is left out.
\<close>

section \<open>Decorators\<close>

text \<open>What the decorators use of the slashing module's staking keeper and of the evidence module's
  slashing keeper.  A validator is the address of its operator.\<close>

record 'x slashing_StakingKeeper =
  ValidatorByConsAddr :: "'x \<Rightarrow> bytes \<Rightarrow> bytes option"
  sk_Slash :: "bytes \<Rightarrow> u64 \<Rightarrow> u64 \<Rightarrow> dec \<Rightarrow> ('x ctx, int) call"
  sk_Jail :: "bytes \<Rightarrow> ('x ctx, unit) call"
  sk_Unjail :: "bytes \<Rightarrow> ('x ctx, unit) call"

record 'x evidence_SlashingKeeper =
  ek_Tombstone :: "bytes \<Rightarrow> ('x ctx, unit) call"

text \<open>A call whose error is logged only.\<close>

definition log_error :: "('x ctx, unit) call \<Rightarrow> ('x ctx, unit) call" where
  "log_error m = bind (attempt m) (\<lambda>_. ret ())"

definition decorator_Tombstone :: "'x Keeper \<Rightarrow> 'x SDKStakingKeeper \<Rightarrow> 'x evidence_SlashingKeeper \<Rightarrow> bytes \<Rightarrow>
    ('x ctx, unit) call" where
  "decorator_Tombstone k stakingKeeper ek addr = (\<lambda>ctx.
     bind (case GetValidatorByConsAddr stakingKeeper (chain ctx) addr of
         None \<Rightarrow> ret ()
       | Some v \<Rightarrow> log_error (ScheduleTombstoned k (GetOperator stakingKeeper v)))
       (\<lambda>_. ek_Tombstone ek addr) ctx)"

definition decorator_Slash :: "'x Keeper \<Rightarrow> 'x slashing_StakingKeeper \<Rightarrow> bytes \<Rightarrow> u64 \<Rightarrow> u64 \<Rightarrow> dec \<Rightarrow>
    ('x ctx, int) call" where
  "decorator_Slash k sk consAddr pwr height slashRatio = (\<lambda>ctx.
     let val = ValidatorByConsAddr sk (chain ctx) consAddr in
     bind (sk_Slash sk consAddr pwr height slashRatio) (\<lambda>totalSlashAmount.
     bind (case val of
         None \<Rightarrow> ret ()
       | Some operator \<Rightarrow> log_error (ScheduleSlashed k operator pwr height totalSlashAmount slashRatio))
       (\<lambda>_. ret totalSlashAmount)) ctx)"

definition decorator_SlashWithInfractionReason :: "'x Keeper \<Rightarrow> 'x slashing_StakingKeeper \<Rightarrow> bytes \<Rightarrow> u64 \<Rightarrow> u64 \<Rightarrow>
    dec \<Rightarrow> nat \<Rightarrow> ('x ctx, int) call" where
  "decorator_SlashWithInfractionReason k sk consAddr infractionHeight pwr slashFactor infraction =
     decorator_Slash k sk consAddr infractionHeight pwr slashFactor"

definition decorator_Jail :: "'x Keeper \<Rightarrow> 'x slashing_StakingKeeper \<Rightarrow> bytes \<Rightarrow> ('x ctx, unit) call" where
  "decorator_Jail k sk consAddr = (\<lambda>ctx.
     bind (case ValidatorByConsAddr sk (chain ctx) consAddr of
         None \<Rightarrow> ret () | Some operator \<Rightarrow> log_error (ScheduleJailed k operator))
       (\<lambda>_. sk_Jail sk consAddr) ctx)"

definition decorator_Unjail :: "'x Keeper \<Rightarrow> 'x slashing_StakingKeeper \<Rightarrow> bytes \<Rightarrow> ('x ctx, unit) call" where
  "decorator_Unjail k sk consAddr = (\<lambda>ctx.
     bind (case ValidatorByConsAddr sk (chain ctx) consAddr of
         None \<Rightarrow> ret () | Some operator \<Rightarrow> log_error (ScheduleUnjailed k operator))
       (\<lambda>_. sk_Unjail sk consAddr) ctx)"

section \<open>The callbacks\<close>

text \<open>The contract's part of a slash: its share of the validator's shares.\<close>

definition delegator_slash :: "'x Keeper \<Rightarrow> 'x ctx \<Rightarrow> bytes \<Rightarrow> bytes \<Rightarrow> validator \<Rightarrow> int \<Rightarrow> dec res" where
  "delegator_slash k ctx contract valAddr v totalSlashAmount =
     (if DelegatorShares v = 0 then Ok 0
      else
        let shares = (case GetDelegation (Staking k) (chain ctx) contract valAddr of
            None \<Rightarrow> 0 | Some s \<Rightarrow> s) in
        bindR (dec_quo (lib k) shares (DelegatorShares v)) (\<lambda>q. dec_mul_int (lib k) q totalSlashAmount))"

definition adjust_slash :: "'x Keeper \<Rightarrow> 'x ctx \<Rightarrow> bytes \<Rightarrow> ValidatorSlash \<Rightarrow> ValidatorSlash res" where
  "adjust_slash k ctx contract slash =
     (case val_from_bech32 (lib k) (vs_ValidatorAddr slash) of
        Err _ \<Rightarrow> Err (Errorf ''invalid validator address'')
      | Panic p \<Rightarrow> Panic p
      | Ok valAddr \<Rightarrow> (case int_from_string (lib k) (vs_SlashAmount slash) of
          None \<Rightarrow> Err (Errorf ''invalid slash amount'')
        | Some totalSlashAmount \<Rightarrow> (case GetValidator (Staking k) (chain ctx) valAddr of
            None \<Rightarrow> Err (Errorf ''validator not found'')
          | Some v \<Rightarrow>
              bindR (delegator_slash k ctx contract valAddr v totalSlashAmount) (\<lambda>d.
              bindR (dec_round_int (lib k) d) (\<lambda>i.
              Ok (slash\<lparr>vs_SlashAmount := int_string (lib k) i\<rparr>))))))"

primrec adjust_slashes :: "'x Keeper \<Rightarrow> 'x ctx \<Rightarrow> bytes \<Rightarrow> ValidatorSlash list \<Rightarrow> ValidatorSlash list res" where
  "adjust_slashes k ctx contract [] = Ok []"
| "adjust_slashes k ctx contract (s # ss) =
     bindR (adjust_slash k ctx contract s) (\<lambda>t.
     bindR (adjust_slashes k ctx contract ss) (\<lambda>ts. Ok (t # ts)))"

definition valset_executor :: "'x Keeper \<Rightarrow> 'x executor" where
  "valset_executor k contract =
     bind (ValsetUpdateReport k) (\<lambda>report.
     bind (reading (\<lambda>ctx. adjust_slashes k ctx contract (Slashed report))) (\<lambda>slashed.
     SendValsetUpdate k contract (report\<lparr>Slashed := slashed\<rparr>)))"

definition epoch_executor :: "'x Keeper \<Rightarrow> 'x executor" where
  "epoch_executor k contract = SendHandleEpoch k contract"

section \<open>The end blocker\<close>

type_synonym 'x TaskExecutionResponseHandler = "ExecResult \<Rightarrow> ('x ctx, unit) call"

text \<open>\<open>DefaultExecutionResponseHandler\<close> panics on a rescheduling error and logs otherwise.\<close>

definition DefaultExecutionResponseHandler :: "'x TaskExecutionResponseHandler" where
  "DefaultExecutionResponseHandler r =
     (if ExecErr r \<noteq> None then ret ()
      else if RescheduleErr r \<noteq> None then panic ''failed to reschedule task''
      else ret ())"

definition PanicOnErrorExecutionResponseHandler :: "'x TaskExecutionResponseHandler" where
  "PanicOnErrorExecutionResponseHandler r =
     (if ExecErr r \<noteq> None then panic ''failed to execute scheduled task''
      else if RescheduleErr r \<noteq> None then panic ''failed to reschedule task''
      else if DeleteTaskErr r \<noteq> None then panic ''failed to delete scheduled task after completion''
      else ret ())"

primrec handle_all :: "'x TaskExecutionResponseHandler \<Rightarrow> ExecResult list \<Rightarrow> ('x ctx, unit) call" where
  "handle_all h [] = ret ()"
| "handle_all h (r # rs) = bind (h r) (\<lambda>_. handle_all h rs)"

definition rspHandler ::
  "'x TaskExecutionResponseHandler \<Rightarrow> ExecResult list res \<Rightarrow> ('x ctx, unit) call" where
  "rspHandler h outcome = (case outcome of
     Ok results \<Rightarrow> handle_all h results
   | Err e \<Rightarrow> panic ''task scheduler''
   | Panic p \<Rightarrow> panic p)"

definition EndBlocker :: "'x Keeper \<Rightarrow> 'x TaskExecutionResponseHandler \<Rightarrow> ('x ctx, unit) call" where
  "EndBlocker k h =
     bind (reading (GetRebalanceEpochLength k)) (\<lambda>epochLength.
     bind (attempt (ExecScheduledTasks k SchedulerTaskValsetUpdate epochLength (valset_executor k))) (\<lambda>r1.
     bind (rspHandler h r1) (\<lambda>_.
     bind (update_state (ClearPipedValsetOperations k)) (\<lambda>_.
     bind (attempt (ExecScheduledTasks k SchedulerTaskHandleEpoch epochLength (epoch_executor k))) (\<lambda>r2.
     rspHandler h r2)))))"

section \<open>The module\<close>

record 'x AppModule =
  am_k :: "'x Keeper"
  asyncTaskRspHandler :: "'x TaskExecutionResponseHandler"

definition NewAppModuleX :: "'x Keeper \<Rightarrow> 'x TaskExecutionResponseHandler \<Rightarrow> 'x AppModule" where
  "NewAppModuleX k h = \<lparr>am_k = k, asyncTaskRspHandler = h\<rparr>"

definition NewAppModule :: "'x Keeper \<Rightarrow> 'x AppModule" where
  "NewAppModule k = NewAppModuleX k DefaultExecutionResponseHandler"

definition EndBlock :: "'x AppModule \<Rightarrow> ('x ctx, unit) call" where
  "EndBlock am = EndBlocker (am_k am) (asyncTaskRspHandler am)"

text \<open>The genesis comes in as JSON, which the codec of the chain decodes or panics.\<close>

definition module_InitGenesis :: "'x AppModule \<Rightarrow> (bytes \<Rightarrow> GenesisState res) \<Rightarrow> bytes \<Rightarrow> ('x ctx, unit) call" where
  "module_InitGenesis am unmarshal bz =
     bind (reading (\<lambda>_. must (unmarshal bz))) (\<lambda>gs. InitGenesis (am_k am) gs)"

definition module_ExportGenesis :: "'x AppModule \<Rightarrow> (GenesisState \<Rightarrow> bytes res) \<Rightarrow> 'x ctx \<Rightarrow> bytes res" where
  "module_ExportGenesis am marshal ctx = bindR (ExportGenesis (am_k am) ctx) (\<lambda>gs. must (marshal gs))"

end
