(* ===== verification/Example.thy ===== *)
theory Example
  imports Handlers EndBlock
begin

text \<open>
  A concrete instance of the parameters: the SDK's integers as decimal text, coins with their wire
  format, addresses whose text is their bytes, and a small chain with validators and contracts.  It
  satisfies every law that \<open>Sdk\<close> and \<open>Messages\<close> name, and the witnesses evaluate the model on it.
\<close>

section \<open>Integers\<close>

definition demo_int_string :: "int \<Rightarrow> string" where
  "demo_int_string a = (if a < 0 then CHR ''-'' # decimal (nat (- a)) else decimal (nat a))"

definition demo_int_parse :: "string \<Rightarrow> int option" where
  "demo_int_parse s = (case s of [] \<Rightarrow> None
   | c # cs \<Rightarrow> Some (if c = CHR ''-'' then - int (undecimal cs) else int (undecimal s)))"

definition demo_int_unmarshal :: "bytes \<Rightarrow> int res" where
  "demo_int_unmarshal bz = (case demo_int_parse (bytes_string bz) of
     Some a \<Rightarrow> if int_fits a then Ok a else Err (Errorf ''integer out of range'')
   | None \<Rightarrow> Err (Errorf ''math.Int''))"

lemma decimal_cons: "\<exists>c cs. decimal n = c # cs \<and> c \<noteq> CHR ''-''"
proof (induction n rule: decimal.induct)
  case (1 n)
  show ?case
  proof (cases "n < 10")
    case True
    have "char_of (48 + n) \<noteq> CHR ''-''"
    proof
      assume "char_of (48 + n) = CHR ''-''"
      then have "of_char (char_of (48 + n)) = (of_char (CHR ''-'') :: nat)"
        by (rule arg_cong)
      then show False
        using True by simp
    qed
    with True show ?thesis
      by (simp add: decimal.simps [of n])
  next
    case False
    then show ?thesis
      using 1 by (auto simp: decimal.simps [of n])
  qed
qed

lemma demo_int_parse_string: "demo_int_parse (demo_int_string a) = Some a"
proof -
  obtain c cs where d: "decimal (nat a) = c # cs" "c \<noteq> CHR ''-''"
    using decimal_cons by blast
  show ?thesis
    using d undecimal_decimal [of "nat a"] by (auto simp: demo_int_parse_def demo_int_string_def)
qed

section \<open>Coins\<close>

definition demo_amount :: "coin \<Rightarrow> string" where
  "demo_amount c = demo_int_string (case amount c of None \<Rightarrow> 0 | Some a \<Rightarrow> a)"

definition demo_coin_fields :: "(nat \<times> coin field) list" where
  "demo_coin_fields =
     [(1, StringField ''Denom'' (\<lambda>v. denom_update (\<lambda>_. v))),
      (2, MessageField ''Amount'' (\<lambda>bs c. bindR (demo_int_unmarshal bs) (\<lambda>a. Ok (amount_update (\<lambda>_. Some a) c))))]"

definition demo_coin_wire :: "coin \<Rightarrow> bytes" where
  "demo_coin_wire c = string_field 0xa (denom c) @ delimited 0x12 (string_bytes (demo_amount c))"

definition demo_coin_marshal :: "coin \<Rightarrow> bytes \<Rightarrow> (bytes \<times> nat) res" where
  "demo_coin_marshal c = marshal_to_sized_buffer (\<lambda>i.
     bindR (put_message_field 0x12 (\<lambda>d.
         bindR (go_copy_at d (length d - length (demo_amount c)) (string_bytes (demo_amount c)))
           (\<lambda>d'. Ok (d', length (demo_amount c)))) i)
       (put_string_field 0xa (denom c)))"

definition same_denom :: "coin \<Rightarrow> coin \<Rightarrow> (int \<Rightarrow> int \<Rightarrow> 'a res) \<Rightarrow> 'a res" where
  "same_denom c d f = (if denom c \<noteq> denom d then Panic ''invalid coin denominations''
     else bindR (int_of (amount c)) (\<lambda>a. bindR (int_of (amount d)) (f a)))"

definition demo_new_coin :: "string \<Rightarrow> int \<Rightarrow> coin res" where
  "demo_new_coin d a = (if d \<noteq> [] \<and> 0 \<le> a then Ok (coin_of d a) else Panic ''invalid coin'')"

definition demo_int_add :: "int \<Rightarrow> int \<Rightarrow> int res" where
  "demo_int_add a b = (if int_fits (a + b) then Ok (a + b) else Panic ''integer overflow'')"

definition scale :: int where "scale = 1000000000000000000"

definition demo_lib :: sdk_lib where
  "demo_lib = \<lparr>
     int_add = demo_int_add,
     int_string = demo_int_string,
     int_from_string = demo_int_parse,
     int_marshal = (\<lambda>a. Ok (string_bytes (demo_int_string a))),
     int_unmarshal = demo_int_unmarshal,
     ValidateDenom = (\<lambda>d. d \<noteq> []),
     new_coin = demo_new_coin,
     coin_add = (\<lambda>c d. same_denom c d (\<lambda>a b. bindR (demo_int_add a b) (\<lambda>s. Ok (coin_of (denom c) s)))),
     coin_sub = (\<lambda>c d. same_denom c d (\<lambda>a b. if b \<le> a then Ok (coin_of (denom c) (a - b)) else Panic ''negative coin amount'')),
     coin_is_lt = (\<lambda>c d. same_denom c d (\<lambda>a b. Ok (a < b))),
     coin_validate = (\<lambda>c. case amount c of
         None \<Rightarrow> Err (Errorf ''amount is nil'')
       | Some a \<Rightarrow> if denom c = [] then Err (Errorf ''invalid denom'')
           else if a < 0 then Err (Errorf ''negative coin amount'') else Ok ()),
     coin_string = (\<lambda>c. demo_amount c @ denom c),
     new_coins = (\<lambda>c. Ok [c]),
     amount_of = (\<lambda>cs d. Ok (sum_list (map (\<lambda>c. if denom c = d then (case amount c of None \<Rightarrow> 0 | Some a \<Rightarrow> a) else 0) cs))),
     coin_equal = (\<lambda>c d. Ok (c = d)),
     coin_size = (\<lambda>c. length (demo_coin_wire c)),
     coin_marshal_to = demo_coin_marshal,
     coin_unmarshal = unmarshal_with ''Coin'' demo_coin_fields,
     convert_wasm_coin = (\<lambda>w. case demo_int_parse (wasm_amount w) of
         None \<Rightarrow> Err (Errorf ''amount'') | Some a \<Rightarrow> Ok (coin_of (wasm_denom w) a)),
     convert_sdk_coin = (\<lambda>c. Ok \<lparr>wasm_denom = denom c, wasm_amount = demo_amount c\<rparr>),
     validator_json = (\<lambda>v. json_string (wv_Address v)),
     wasm_coin_json = (\<lambda>w. json_string (wasm_amount w @ wasm_denom w)),
     dec_quo = (\<lambda>a b. if b = 0 then Panic ''division by zero'' else Ok (a * scale div b)),
     dec_mul_int = (\<lambda>a i. Ok (a * i)),
     dec_round_int = (\<lambda>a. Ok ((a + scale div 2) div scale)),
     dec_string = demo_int_string,
     acc_from_bech32 = (\<lambda>s. if s = [] then Err (Errorf ''empty address'') else Ok (string_bytes s)),
     acc_string = bytes_string,
     val_from_bech32 = (\<lambda>s. if s = [] then Err (Errorf ''empty address'') else Ok (string_bytes s)),
     val_string = bytes_string,
     length_prefix = (\<lambda>bs. if bs = [] then Ok []
       else if length bs > 255 then Panic ''address length'' else Ok (word_of_nat (length bs) # bs)),
     uint64_be = put_uint64,
     be_uint64 = (\<lambda>bs. if length bs = 8 then Ok (get_uint64 bs) else Panic ''index out of range'')\<rparr>"

section \<open>The laws hold\<close>

lemma demo_int_laws [simp]: "int_laws demo_lib"
  by (auto simp: int_laws_def demo_lib_def demo_int_add_def demo_int_unmarshal_def demo_int_parse_string
      split: option.splits if_splits)

lemma demo_coin_laws [simp]: "coin_laws demo_lib"
  by (simp add: coin_laws_def demo_lib_def demo_new_coin_def same_denom_def demo_int_add_def)

lemma demo_layout_laws [simp]: "layout_laws demo_lib"
  by (simp add: layout_laws_def demo_lib_def)

lemma demo_coin_writes: "sized (demo_coin_marshal c) (demo_coin_wire c)"
proof -
  let ?a = "string_bytes (demo_amount c)"
  have "sized (\<lambda>d. bindR (go_copy_at d (length d - length (demo_amount c)) ?a) (\<lambda>d'. Ok (d', length (demo_amount c)))) ?a"
    by (simp add: sized_def go_copy_at_def)
  then show ?thesis
    unfolding demo_coin_marshal_def demo_coin_wire_def
    by (intro sized_of_writes writes_then writes_message_field writes_string_field)
qed

lemma demo_coin_decodes:
  assumes "amount c = Some a" and "length (demo_coin_wire c) < 2 ^ 63" and "int_fits a"
  shows "unmarshal_with ''Coin'' demo_coin_fields empty_coin (demo_coin_wire c) = Ok c"
proof (rule decodes_whole [OF _ assms(2)])
  show "decodes ''Coin'' demo_coin_fields empty_coin (demo_coin_wire c)
      (amount_update (\<lambda>_. Some a) (denom_update (\<lambda>_. denom c) empty_coin))"
    unfolding demo_coin_wire_def
    by (rule decodes_append decodes_string [OF tag_of_tags(1) field_1 [OF demo_coin_fields_def] refl]
        decodes_message [OF tag_of_tags(2) field_2 [OF demo_coin_fields_def] refl]
      | simp add: empty_coin_def demo_amount_def assms(1,3) demo_int_unmarshal_def demo_int_parse_string)+
qed (simp add: assms(1) empty_coin_def)

lemma demo_coin_ok:
  assumes "amount c = Some a" and "length (demo_coin_wire c) < 2 ^ 63" and "int_fits a"
  shows "coin_ok demo_lib c" and "coin_bytes demo_lib c = demo_coin_wire c"
proof -
  show bytes: "coin_bytes demo_lib c = demo_coin_wire c"
    using sizedD [OF demo_coin_writes, of c "go_make (length (demo_coin_wire c))"]
    by (simp add: coin_bytes_def demo_lib_def)
  show "coin_ok demo_lib c"
    using demo_coin_writes demo_coin_decodes [OF assms] bytes
    by (simp add: coin_ok_def) (simp add: demo_lib_def)
qed

section \<open>A chain\<close>

record demo_chain =
  demo_validators :: "(bytes \<times> validator) list"
  demo_refuse :: bool
  demo_supply :: int
  demo_calls :: "(bytes \<times> bytes) list"

definition demo_validator :: "string \<Rightarrow> validator" where
  "demo_validator s = \<lparr>OperatorAddress = s, commission_rate = scale, commission_max_rate = scale,
     commission_max_change_rate = scale, IsBonded = True, DelegatorShares = 10 * scale\<rparr>"

definition demo_amount_of :: "coin list \<Rightarrow> int" where
  "demo_amount_of cs = sum_list (map (\<lambda>c. if denom c = ''stake'' then (case amount c of None \<Rightarrow> 0 | Some a \<Rightarrow> a) else 0) cs)"

definition add_supply :: "int \<Rightarrow> (demo_chain ctx, unit) call" where
  "add_supply a = update_state (\<lambda>c. c\<lparr>chain := (chain c)\<lparr>demo_supply := demo_supply (chain c) + a\<rparr>\<rparr>)"

definition demo_bank :: "demo_chain SDKBankKeeper" where
  "demo_bank = \<lparr>
     MintCoins = (\<lambda>_ coins. add_supply (demo_amount_of coins)),
     BurnCoins = (\<lambda>_ coins. add_supply (- demo_amount_of coins)),
     SendCoinsFromAccountToModule = (\<lambda>_ _ _. ret ()),
     SendCoinsFromModuleToAccount = (\<lambda>_ _ _. ret ()),
     UndelegateCoinsFromModuleToAccount = (\<lambda>_ _ _. ret ())\<rparr>"

definition demo_staking :: "demo_chain SDKStakingKeeper" where
  "demo_staking = \<lparr>
     BondDenom = (\<lambda>_. ''stake''),
     GetValidator = (\<lambda>x. map_of (demo_validators x)),
     GetOperator = (\<lambda>v. string_bytes (OperatorAddress v)),
     GetValidatorByConsAddr = (\<lambda>x. map_of (demo_validators x)),
     GetDelegation = (\<lambda>_ _ _. Some (5 * scale)),
     ValidateUnbondAmount = (\<lambda>_ _ _ a. Ok a),
     StakingDelegate = (\<lambda>_ a _ _ _ c. if demo_refuse (chain c)
        then (Err (Sentinel ''stakingtypes.ErrDelegatorShareExRateInvalid''), c) else (Ok a, c)),
     Unbond = (\<lambda>_ _ sh. ret sh)\<rparr>"

text \<open>The contract \<open>bad\<close> spends its gas and changes state before it panics.\<close>

definition demo_sudo :: "bytes \<Rightarrow> bytes \<Rightarrow> (demo_chain ctx, bytes) call" where
  "demo_sudo a msg c =
     (let c' = c\<lparr>chain := (chain c)\<lparr>demo_calls := demo_calls (chain c) @ [(a, msg)]\<rparr>,
                gas_used := gas_used c + 7\<rparr> in
      if a = string_bytes ''bad'' then (Panic ''out of gas'', c') else (Ok [], c'))"

definition demo_wasm :: "demo_chain WasmKeeper" where
  "demo_wasm = \<lparr>Sudo = demo_sudo, HasContractInfo = (\<lambda>_ _. True)\<rparr>"

definition demo_keeper :: "demo_chain Keeper" where
  "demo_keeper = NewKeeper demo_lib demo_bank demo_staking demo_wasm ''gov'' []"

definition demo_params :: Params where
  "demo_params = \<lparr>TotalContractsMaxCap = coin_of ''stake'' 1000, EpochLength = 50, MaxGasEndBlocker = 500000\<rparr>"

definition val_a :: bytes where "val_a = string_bytes ''vala''"
definition con_a :: bytes where "con_a = string_bytes ''cona''"
definition con_bad :: bytes where "con_bad = string_bytes ''bad''"

definition demo_blank :: "demo_chain ctx" where
  "demo_blank = \<lparr>mstore = kv_empty, mmem = kv_empty,
     chain = \<lparr>demo_validators = [(val_a, demo_validator ''vala'')], demo_refuse = False,
              demo_supply = 0, demo_calls = []\<rparr>,
     emitted = [], BlockHeight = 100, BlockTime = 1000, gas_limit = 0, gas_used = 0\<rparr>"

text \<open>A start with parameters, then two contracts with limits, and one task for each.\<close>

definition demo_start :: "demo_chain ctx" where
  "demo_start = demo_blank\<lparr>mstore := kv_set kv_empty ParamsKey (Params_wire demo_lib demo_params)\<rparr>"

definition demo_int :: "int \<Rightarrow> bytes" where
  "demo_int a = string_bytes (demo_int_string a)"

definition demo_capped :: "demo_chain ctx" where
  "demo_capped = demo_start\<lparr>mstore :=
     kv_set (kv_set (mstore demo_start) (BuildMaxCapLimitKey con_a) (demo_int 500))
       (BuildMaxCapLimitKey con_bad) (demo_int 200)\<rparr>"

definition demo_scheduled :: "demo_chain ctx" where
  "demo_scheduled = demo_capped\<lparr>mstore :=
     put_task (put_task (mstore demo_capped) SchedulerTaskHandleEpoch (100, con_a) True)
       SchedulerTaskHandleEpoch (100, con_bad) True\<rparr>"

section \<open>Facts about the instance\<close>

lemma demo_keeper_simps [simp]:
  "lib demo_keeper = demo_lib" "wasm demo_keeper = demo_wasm" "authority demo_keeper = ''gov''"
  "bank demo_keeper = NewBankKeeperAdapter demo_bank"
  "Staking demo_keeper = NewStakingKeeperAdapter demo_lib demo_staking demo_bank"
  by (simp_all add: demo_keeper_def NewKeeper_def NewKeeperX_def)

lemma demo_staking_simps [simp]:
  "BondDenom (NewStakingKeeperAdapter demo_lib demo_staking demo_bank) x = ''stake''"
  "GetValidator (NewStakingKeeperAdapter demo_lib demo_staking demo_bank) x = map_of (demo_validators x)"
  "ValidateUnbondAmount (NewStakingKeeperAdapter demo_lib demo_staking demo_bank) x d v a = Ok a"
  "StakingDelegate (NewStakingKeeperAdapter demo_lib demo_staking demo_bank) d a st vl b c =
     (if demo_refuse (chain c) then (Err (Sentinel ''stakingtypes.ErrDelegatorShareExRateInvalid''), c) else (Ok a, c))"
  "InstantUndelegate (NewStakingKeeperAdapter demo_lib demo_staking demo_bank) =
     adapter_InstantUndelegate demo_lib demo_staking demo_bank"
  by (simp_all add: NewStakingKeeperAdapter_def demo_staking_def SDKStakingKeeper.defs XStakingKeeper.defs)

lemma demo_bank_simps [simp]:
  "MintCoins (NewBankKeeperAdapter demo_bank) m coins = add_supply (demo_amount_of coins)"
  "BurnCoins (NewBankKeeperAdapter demo_bank) m coins = add_supply (- demo_amount_of coins)"
  "SendCoinsFromAccountToModule (NewBankKeeperAdapter demo_bank) a m coins = ret ()"
  "SendCoinsFromModuleToAccount (NewBankKeeperAdapter demo_bank) m a coins = ret ()"
  "AddSupplyOffset (NewBankKeeperAdapter demo_bank) d i = ret ()"
  by (simp_all add: NewBankKeeperAdapter_def demo_bank_def SDKBankKeeper.defs XBankKeeper.defs)

lemma demo_bond_denom [simp]: "bond_denom demo_keeper c = ''stake''"
  by (simp add: bond_denom_def)

lemma demo_lib_simps [simp]:
  "ValidateDenom demo_lib d \<longleftrightarrow> d \<noteq> []" "int_unmarshal demo_lib = demo_int_unmarshal"
  "int_marshal demo_lib a = Ok (demo_int a)" "new_coins demo_lib c = Ok [c]"
  "acc_from_bech32 demo_lib s = (if s = [] then Err (Errorf ''empty address'') else Ok (string_bytes s))"
  "val_from_bech32 demo_lib s = (if s = [] then Err (Errorf ''empty address'') else Ok (string_bytes s))"
  "val_string demo_lib = bytes_string" "int_string demo_lib = demo_int_string"
  by (simp_all add: demo_lib_def demo_int_def)

lemma int_fits_numerals [simp]: "int_fits 0" "int_fits 1" "int_fits (numeral n) \<longleftrightarrow> (numeral n :: int) < 2 ^ 256"
  by (simp_all add: int_fits_def)

lemma demo_int_unmarshal [simp]: "int_fits a \<Longrightarrow> demo_int_unmarshal (demo_int a) = Ok a"
  by (simp add: demo_int_unmarshal_def demo_int_def demo_int_parse_string)

lemma demo_int_value [simp]: "int_fits a \<Longrightarrow> int_value demo_lib (demo_int a) = a"
  by (simp add: int_value_def)

text \<open>Fields are short.\<close>

lemma length_delimited_le: "length (delimited tag w) \<le> 11 + length w"
  using sov_le [of "word_of_nat (length w)"] by (simp add: delimited_def length_varint)

lemma length_string_field_le: "length (string_field tag v) \<le> 11 + length v"
  using length_delimited_le [of tag "string_bytes v"] by (simp add: string_field_def)

lemma length_uint32_field_le: "length (uint32_field tag v) \<le> 11"
  using sov_le [of "ucast v"] by (simp add: uint32_field_def length_varint)

lemma length_demo_coin_le: "length (demo_coin_wire c) \<le> 22 + length (denom c) + length (demo_amount c)"
  using length_string_field_le [of "0xa" "denom c"] length_delimited_le [of "0x12" "string_bytes (demo_amount c)"]
  by (simp add: demo_coin_wire_def)

lemma demo_params_small: "length (Params_wire demo_lib demo_params) \<le> 64"
  and demo_params_coin: "coin_ok demo_lib (coin_of ''stake'' 1000)"
proof -
  let ?c = "coin_of ''stake'' 1000"
  have len: "length (demo_coin_wire ?c) \<le> 31"
    using length_demo_coin_le [of ?c] by (simp add: demo_amount_def demo_int_string_def decimal.simps)
  then have small: "length (demo_coin_wire ?c) < 2 ^ 63"
    by simp
  note ok = demo_coin_ok [of ?c 1000, simplified, OF small [simplified]]
  show "length (Params_wire demo_lib demo_params) \<le> 64"
    using length_delimited_le [of "0xa" "demo_coin_wire ?c"] len
      length_uint32_field_le [of "0x10" 50] length_uint32_field_le [of "0x18" 500000]
    by (simp add: Params_wire_def demo_params_def ok)
  show "coin_ok demo_lib ?c"
    by (rule ok(1))
qed

lemma demo_params_good [simp]: "Params_good demo_lib demo_params"
  using demo_params_small demo_params_coin by (simp add: Params_good_def) (simp add: demo_params_def)

lemma demo_GetParams:
  "kv_get (mstore c) ParamsKey = Some (Params_wire demo_lib demo_params) \<Longrightarrow> GetParams demo_keeper c = Ok demo_params"
  by (rule GetParams_stored) simp_all

lemma demo_heights [simp]:
  "BlockHeight demo_start = 100" "BlockHeight demo_capped = 100" "BlockHeight demo_scheduled = 100"
  by (simp_all add: demo_start_def demo_capped_def demo_scheduled_def demo_blank_def)

lemma demo_params_stored [simp]:
  "kv_get (mstore demo_start) ParamsKey = Some (Params_wire demo_lib demo_params)"
  "kv_get (mstore demo_capped) ParamsKey = Some (Params_wire demo_lib demo_params)"
  "kv_get (mstore demo_scheduled) ParamsKey = Some (Params_wire demo_lib demo_params)"
  by (simp_all add: demo_start_def demo_capped_def demo_scheduled_def cap_key put_task_def prefix_defs)

lemma demo_gets [simp]:
  "GetMaxSudoGas demo_keeper demo_scheduled = Ok 500000" "GetMaxSudoGas demo_keeper demo_capped = Ok 500000"
  "GetTotalContractsMaxCap demo_keeper demo_start = Ok (coin_of ''stake'' 1000)"
  "GetTotalContractsMaxCap demo_keeper demo_capped = Ok (coin_of ''stake'' 1000)"
  "GetRebalanceEpochLength demo_keeper demo_scheduled = Ok 50"
  by (simp_all add: GetMaxSudoGas_def GetTotalContractsMaxCap_def GetRebalanceEpochLength_def
      demo_GetParams) (simp_all add: demo_params_def)

text \<open>The store before any limit or task is set holds nothing but the parameters.\<close>

lemma demo_start_empty: "p \<noteq> [] \<Longrightarrow> take 1 p \<noteq> ParamsKey \<Longrightarrow> kv_prefix (mstore demo_start) p = []"
proof -
  assume p: "p \<noteq> []" "take 1 p \<noteq> ParamsKey"
  have "(key, v) \<notin> set (kv_prefix (mstore demo_start) p)" for key v
    using p by (cases p) (auto simp: kvs.scan_iff demo_start_def prefix_defs)
  then show ?thesis
    by (cases "kv_prefix (mstore demo_start) p") fastforce+
qed

lemma demo_caps_ok [simp]: "caps_ok demo_keeper demo_start" "caps_ok demo_keeper demo_capped"
proof -
  show start: "caps_ok demo_keeper demo_start"
    by (simp add: caps_ok_def demo_start_empty prefix_defs)
  let ?c = "demo_start\<lparr>mstore := kv_set (mstore demo_start) (BuildMaxCapLimitKey con_a) (demo_int 500)\<rparr>"
  have "caps_ok demo_keeper ?c"
    by (rule max_caps_set(5) [OF _ start, of _ con_a "demo_int 500" 500]) simp_all
  then show "caps_ok demo_keeper demo_capped"
    by (rule max_caps_set(5) [rotated, of _ _ "demo_int 200" 200 _ con_bad]) (simp_all add: demo_capped_def)
qed

lemma demo_tasks_ok [simp]:
  "tasks_ok (mstore demo_start) tp" "tasks_ok (mstore demo_capped) tp" "tasks_ok (mstore demo_scheduled) tp"
proof -
  show start: "tasks_ok (mstore demo_start) tp"
    by (simp add: tasks_ok_def demo_start_empty prefix_defs)
  show "tasks_ok (mstore demo_capped) tp"
    using start by (simp add: tasks_ok_iff demo_capped_def cap_key prefix_defs)
  then show "tasks_ok (mstore demo_scheduled) tp"
    by (simp add: demo_scheduled_def)
qed

text \<open>The schedule of the instance, and its callback, which reads and writes the chain only.\<close>

lemma demo_task_at [simp]:
  "task_at (mstore demo_start) tp x = None" "task_at (mstore demo_capped) tp x = None"
  "task_at (mstore demo_scheduled) tp x =
     (if tp = SchedulerTaskHandleEpoch \<and> (x = (100, con_a) \<or> x = (100, con_bad)) then Some True else None)"
proof -
  show capped: "task_at (mstore demo_capped) tp x = None" for tp x
    by (simp add: task_at_def demo_capped_def demo_start_def cap_key prefix_defs)
  show "task_at (mstore demo_start) tp x = None"
    by (simp add: task_at_def demo_start_def prefix_defs)
  show "task_at (mstore demo_scheduled) tp x =
     (if tp = SchedulerTaskHandleEpoch \<and> (x = (100, con_a) \<or> x = (100, con_bad)) then Some True else None)"
    by (simp add: demo_scheduled_def queue.at_put capped)
qed

lemma demo_contracts_distinct [simp]: "con_a \<noteq> con_bad" "con_bad \<noteq> con_a"
  by (simp_all add: con_a_def con_bad_def string_bytes_inject)

lemma demo_sudo_store: "mstore (snd (demo_sudo a msg c)) = mstore c"
  by (simp add: demo_sudo_def Let_def)

lemma demo_epoch_leaves [simp]: "leaves_schedule (epoch_executor demo_keeper)"
proof -
  have "keeps (\<lambda>c. sched_view (mstore c)) (Sudo demo_wasm a msg)" for a msg
    by (simp add: keeps_def demo_wasm_def demo_sudo_store)
  then show ?thesis
    by (auto simp: leaves_schedule_def epoch_executor_def SendHandleEpoch_def intro!: keeps_doSudoCall)
qed

text \<open>The table of limits of the instance.\<close>

lemma demo_limits [simp]:
  "max_cap demo_keeper demo_start a = 0" "other_caps demo_keeper a demo_start = 0"
  "max_cap demo_keeper demo_capped a = (if a = con_a then 500 else if a = con_bad then 200 else 0)"
  "HasMaxCapLimit demo_capped a \<longleftrightarrow> a = con_a \<or> a = con_bad"
  "total_delegated demo_keeper demo_capped a = 0" "total_delegated demo_keeper demo_start a = 0"
  by (auto simp: max_cap_def other_caps_def max_caps_def demo_capped_def demo_start_def HasMaxCapLimit_def
      total_delegated_def total_key cap_key prefix_defs demo_start_empty [unfolded demo_start_def prefix_defs, simplified])

lemma demo_sums [simp]:
  "total_caps demo_keeper demo_start = 0" "total_caps demo_keeper demo_capped = 700"
  "other_caps demo_keeper con_a demo_capped = 200" "other_caps demo_keeper con_bad demo_capped = 500"
proof -
  let ?c = "demo_start\<lparr>mstore := kv_set (mstore demo_start) (BuildMaxCapLimitKey con_a) (demo_int 500)\<rparr>"
  have has: "\<not> HasMaxCapLimit demo_start con_bad" "\<not> HasMaxCapLimit demo_start con_a" "\<not> HasMaxCapLimit ?c con_bad"
    "HasMaxCapLimit ?c con_a"
    by (auto simp: HasMaxCapLimit_def demo_start_def cap_key prefix_defs)
  show start: "total_caps demo_keeper demo_start = 0"
    using other_caps_absent [OF has(1), of demo_keeper] by simp
  have "other_caps demo_keeper con_a ?c = 0" "max_cap demo_keeper ?c con_a = 500"
    using max_caps_set(1,2) [of ?c demo_start con_a "demo_int 500" demo_keeper] by simp_all
  then have one: "total_caps demo_keeper ?c = 500"
    using total_caps_split [OF has(4), of demo_keeper] by simp
  show bad: "other_caps demo_keeper con_bad demo_capped = 500"
    using max_caps_set(1) [of demo_capped ?c con_bad "demo_int 200" demo_keeper]
      other_caps_absent [OF has(3), of demo_keeper] one by (simp add: demo_capped_def)
  show all: "total_caps demo_keeper demo_capped = 700"
    using total_caps_split [of demo_capped con_bad demo_keeper] bad by simp
  show "other_caps demo_keeper con_a demo_capped = 200"
    using total_caps_split [of demo_capped con_a demo_keeper] all by simp
qed

lemma demo_ledger_ok [simp]: "ledger_ok demo_keeper demo_capped"
proof -
  have "kv_prefix (mstore demo_capped) TotalDelegatedAmountKeyPrefix = []"
    by (simp add: demo_capped_def cap_key kvs.scan_put_other prefix_defs demo_start_empty)
  then show ?thesis
    by (simp add: ledger_ok_def totals_ok_def)
qed

text \<open>The same chain with a staking keeper that refuses delegations.\<close>

definition demo_refusing :: "demo_chain ctx" where
  "demo_refusing = demo_capped\<lparr>chain := (chain demo_capped)\<lparr>demo_refuse := True\<rparr>\<rparr>"

lemma demo_refusing_store [simp]: "mstore demo_refusing = mstore demo_capped"
  by (simp add: demo_refusing_def)

lemma demo_refusing_ledger [simp]:
  "ledger_ok demo_keeper demo_refusing" "max_cap demo_keeper demo_refusing a = max_cap demo_keeper demo_capped a"
  "total_delegated demo_keeper demo_refusing a = 0"
  using demo_ledger_ok demo_limits(5) [of a] by (simp_all add: ledger_ok_def caps_ok_def totals_ok_def max_cap_def total_delegated_def)

lemma demo_chain_simps:
  "demo_validators (chain demo_capped) = [(val_a, demo_validator ''vala'')]"
  "demo_validators (chain demo_refusing) = [(val_a, demo_validator ''vala'')]"
  "demo_supply (chain demo_capped) = 0" "demo_supply (chain demo_refusing) = 0"
  "demo_refuse (chain demo_refusing)" "\<not> demo_refuse (chain demo_capped)" "con_a \<noteq> val_a"
  by (simp_all add: demo_refusing_def demo_capped_def demo_start_def demo_blank_def con_a_def val_a_def string_bytes_inject)

text \<open>And the chain after contract \<open>con_a\<close> has bonded a hundred.\<close>

definition demo_bonded :: "demo_chain ctx" where
  "demo_bonded = demo_capped\<lparr>mstore := kv_set (mstore demo_capped) (BuildTotalDelegatedAmountKey con_a) (demo_int 100)\<rparr>"

lemma demo_bonded_chain [simp]: "chain demo_bonded = chain demo_capped"
  by (simp add: demo_bonded_def)

lemma demo_bonded_total [simp]: "total_delegated demo_keeper demo_bonded a = (if a = con_a then 100 else 0)"
  using demo_limits(5) [of a] by (simp add: total_delegated_def demo_bonded_def total_key)

lemma demo_bonded_ledger [simp]: "ledger_ok demo_keeper demo_bonded"
proof -
  have "totals_ok demo_keeper demo_bonded"
    using demo_ledger_ok by (auto simp: ledger_ok_def totals_ok_def list_all_iff demo_bonded_def total_key
        kvs.scan_put split: if_splits)
  moreover have "caps_ok demo_keeper demo_bonded"
    using demo_caps_ok(2) by (simp add: caps_ok_def demo_bonded_def total_key kvs.scan_put_other prefix_defs)
  ultimately show ?thesis
    using demo_ledger_ok by (simp add: ledger_ok_def)
qed

lemma demo_addresses [simp]:
  "val_a \<noteq> []" "length val_a = 4" "con_a \<noteq> val_a" "con_bad \<noteq> val_a" "val_a \<noteq> con_a" "val_a \<noteq> con_bad"
  by (simp_all add: val_a_def con_a_def con_bad_def string_bytes_inject) (simp add: string_bytes_def)

lemma demo_mem [simp]: "mmem demo_start = kv_empty" "mmem demo_capped = kv_empty" "mmem demo_scheduled = kv_empty"
  by (simp_all add: demo_scheduled_def demo_capped_def demo_start_def demo_blank_def)

end
