(* ===== verification/StakeProps.thy ===== *)
theory StakeProps
  imports Example
begin

text \<open>
  The properties of the ledger: the limits of the contracts against the module's total, the
  delegated totals against the limits, and what a bond and an unbond leave behind on each branch.
\<close>

section \<open>Limits\<close>

text \<open>
  C10.  A successful \<open>SetMaxCapLimit\<close> keeps the sum of all limits within \<open>TotalContractsMaxCap\<close>,
  stores the new limit of the contract and changes no other limit.
\<close>
theorem max_caps_within_total:
  assumes laws: "int_laws (lib k)" and caps: "caps_ok k c" and new: "amount new = Some a" "0 \<le> a"
    and cap: "GetTotalContractsMaxCap k c = Ok (coin_of dn cap)"
    and run: "SetMaxCapLimit k contract new c = (Ok u, d)"
  shows "total_caps k d \<le> cap \<and> max_cap k d contract = a \<and> HasMaxCapLimit d contract \<and> caps_ok k d \<and>
    (\<forall>b. b \<noteq> contract \<longrightarrow> max_cap k d b = max_cap k c b \<and> HasMaxCapLimit d b = HasMaxCapLimit c b)"
  by (rule SetMaxCapLimit_within [OF assms])

theorem max_caps_within_total_witness:
  "\<exists>d. SetMaxCapLimit demo_keeper con_a (coin_of ''stake'' 800) demo_capped = (Ok (), d) \<and>
    total_caps demo_keeper d \<le> 1000 \<and> max_cap demo_keeper d con_a = 800 \<and> max_cap demo_keeper d con_bad = 200"
proof -
  obtain d where "SetMaxCapLimit demo_keeper con_a (coin_of ''stake'' 800) demo_capped = (Ok (), d)"
    using SetMaxCapLimit_run [of demo_keeper demo_capped "''stake''" 1000 con_a 800 "demo_int 800" "coin_of ''stake'' 800"]
    by (simp add: int_fits_def)
  then show ?thesis
    using max_caps_within_total [of demo_keeper demo_capped "coin_of ''stake'' 800" 800 "''stake''" 1000 con_a "()" d]
    by simp
qed

text \<open>
  C21.  Every outcome of \<open>SetMaxCapLimit\<close>: a coin of another denomination and a limit for which there
  is no room are refused and leave the state as it was; otherwise the limit is stored.
\<close>
theorem set_max_cap_outcomes:
  assumes laws: "int_laws (lib k)" and caps: "caps_ok k c" and new: "amount new = Some a" "0 \<le> a"
    and cap: "GetTotalContractsMaxCap k c = Ok (coin_of dn cap)"
    and fits: "int_fits (other_caps k contract c + a)"
  shows "\<exists>bz. int_unmarshal (lib k) bz = Ok a \<and> SetMaxCapLimit k contract new c =
    (if denom new \<noteq> bond_denom k c then (Err ErrInvalidCoins, c)
     else if cap < other_caps k contract c + a
       then (Err (Wrapped ErrInvalid ''amount exceeds total available max cap''), c)
     else (Ok (), EmitMaxCapLimitUpdatedEvent (lib k) contract new
       (c\<lparr>mstore := kv_set (mstore c) (BuildMaxCapLimitKey contract) bz\<rparr>)))"
proof -
  have "int_fits a"
    using fits other_caps_nonneg [OF caps, of contract] new by (simp add: int_fits_def)
  then obtain bz where "int_marshal (lib k) a = Ok bz" "int_unmarshal (lib k) bz = Ok a"
    using int_lawsD(3) [OF laws] by blast
  then show ?thesis
    using SetMaxCapLimit_run [OF laws caps cap fits new(2) _ new(1), of bz] by auto
qed

theorem set_max_cap_outcomes_witness:
  "SetMaxCapLimit demo_keeper con_a (coin_of ''stake'' 900) demo_capped =
     (Err (Wrapped ErrInvalid ''amount exceeds total available max cap''), demo_capped) \<and>
   SetMaxCapLimit demo_keeper con_a (coin_of ''other'' 100) demo_capped = (Err ErrInvalidCoins, demo_capped) \<and>
   fst (SetMaxCapLimit demo_keeper con_a (coin_of ''stake'' 800) demo_capped) = Ok ()"
proof -
  note run = set_max_cap_outcomes [where k = demo_keeper and c = demo_capped and contract = con_a]
  show ?thesis
    using run [of "coin_of ''stake'' 900" 900 "''stake''" 1000] run [of "coin_of ''other'' 100" 100 "''stake''" 1000]
      run [of "coin_of ''stake'' 800" 800 "''stake''" 1000]
    by (auto simp: int_fits_def)
qed

section \<open>Bonding\<close>

text \<open>
  C15.  A contract never gets beyond its limit by bonding: whatever the outcome of \<open>Delegate\<close>, either
  it failed and nothing but the gas meter has changed, or its total has grown by the amount and is
  still within its limit.
\<close>
theorem delegate_within_limit:
  assumes laws: "int_laws (lib k)" "coin_laws (lib k)" and ok: "ledger_ok k c"
    and a: "amount amt = Some a" and run: "Delegate k actor valAddr amt c = (r, c')"
  shows "(\<exists>b. c' = drop_cache c b) \<and> \<not> is_ok r \<or>
    may_delegate k c actor valAddr amt a \<and>
      total_delegated k c' actor = total_delegated k c actor + a \<and>
      total_delegated k c' actor \<le> max_cap k c actor"
  by (rule Delegate_outcome [OF laws ok a run])

theorem delegate_within_limit_witness:
  "Delegate demo_keeper con_a val_a (coin_of ''stake'' 501) demo_capped = (Err (Wrapped ErrMaxCapExceeded ''exceeds''), demo_capped) \<and>
   (case Delegate demo_keeper con_a val_a (coin_of ''stake'' 500) demo_capped of (r, c') \<Rightarrow>
      (\<exists>b. c' = drop_cache demo_capped b) \<and> \<not> is_ok r \<or> total_delegated demo_keeper c' con_a = 500)"
proof
  show "Delegate demo_keeper con_a val_a (coin_of ''stake'' 501) demo_capped =
      (Err (Wrapped ErrMaxCapExceeded ''exceeds''), demo_capped)"
    using Delegate_checks [of demo_keeper demo_capped con_a "coin_of ''stake'' 501" val_a]
    by (simp add: int_fits_def demo_chain_simps)
next
  obtain r c' where run: "Delegate demo_keeper con_a val_a (coin_of ''stake'' 500) demo_capped = (r, c')"
    by fastforce
  show "case Delegate demo_keeper con_a val_a (coin_of ''stake'' 500) demo_capped of (r, c') \<Rightarrow>
      (\<exists>b. c' = drop_cache demo_capped b) \<and> \<not> is_ok r \<or> total_delegated demo_keeper c' con_a = 500"
    using delegate_within_limit [OF _ _ _ _ run] run by auto
qed

text \<open>
  The checks of \<open>Delegate\<close>, in their order, on any amount: each refusal returns its error and
  leaves the state as it was.
\<close>
theorem delegate_refusals:
  assumes "int_laws (lib k)" "coin_laws (lib k)" and "ledger_ok k c"
    and "int_fits (total_delegated k c actor + the (amount amt))"
    and "\<not> may_delegate k c actor valAddr amt (the (amount amt))"
  shows "Delegate k actor valAddr amt c =
    (Err (if \<not> positive (amount amt) then Wrapped ErrInvalidRequest ''amount''
       else if denom amt \<noteq> bond_denom k c then Wrapped ErrInvalidRequest ''invalid coin denomination''
       else if GetValidator (Staking k) (chain c) valAddr = None then ErrNoValidatorFound
       else Wrapped ErrMaxCapExceeded ''exceeds''), c)"
  using assms(5) by (auto simp: Delegate_checks [OF assms(1-4)] may_delegate_def positive_iff Let_def split: option.split)

theorem delegate_refusals_witness:
  "Delegate demo_keeper con_a val_a (coin_of ''stake'' 0) demo_capped =
     (Err (Wrapped ErrInvalidRequest ''amount''), demo_capped) \<and>
   Delegate demo_keeper con_a con_a (coin_of ''stake'' 100) demo_capped = (Err ErrNoValidatorFound, demo_capped)"
  using delegate_refusals [of demo_keeper demo_capped con_a "coin_of ''stake'' 0" val_a]
    delegate_refusals [of demo_keeper demo_capped con_a "coin_of ''stake'' 100" con_a]
  by (simp add: may_delegate_def demo_chain_simps)

text \<open>
  C25.  When the staking keeper refuses the delegation, \<open>Delegate\<close> returns its error only after the
  branch was written: the error is reported, but the minted coins stay and the contract's total has
  grown by an amount that is not delegated anywhere.
\<close>
theorem refused_delegation_is_committed:
  assumes laws: "int_laws (lib k)" "coin_laws (lib k)" and ok: "ledger_ok k c"
    and may: "may_delegate k c actor valAddr amt a" and fits: "int_fits (total_delegated k c actor + a)"
    and coins: "new_coins (lib k) amt = Ok coins"
    and mint: "MintCoins (bank k) ModuleName coins (open_cache c) = (Ok (), s1)"
    and offset: "AddSupplyOffset (bank k) (bond_denom k c) (- a) s1 = (Ok (), s2)"
    and send: "SendCoinsFromModuleToAccount (bank k) ModuleName actor coins s2 = (Ok (), s3)"
    and refuse: "StakingDelegate (Staking k) actor a Unbonded
      (the (GetValidator (Staking k) (chain c) valAddr)) True s3 = (Err e, s4)"
    and same: "bond_denom k s4 = bond_denom k c"
  shows "\<exists>c'. Delegate k actor valAddr amt c = (Err e, c') \<and>
    total_delegated k c' actor = total_delegated k c actor + a \<and> chain c' = chain s4"
  using Delegate_runs [where r = "Err e", OF laws ok may fits coins mint offset send _ same] refuse
  by (auto simp: attempt_apply)

theorem refused_delegation_is_committed_witness:
  "\<exists>c'. Delegate demo_keeper con_a val_a (coin_of ''stake'' 100) demo_refusing =
      (Err (Sentinel ''stakingtypes.ErrDelegatorShareExRateInvalid''), c') \<and>
    total_delegated demo_keeper c' con_a = 100 \<and> demo_supply (chain c') = 100"
proof -
  let ?s = "(open_cache demo_refusing)\<lparr>chain := (chain demo_refusing)\<lparr>demo_supply := 100\<rparr>\<rparr>"
  let ?e = "Sentinel ''stakingtypes.ErrDelegatorShareExRateInvalid''"
  have "\<exists>c'. Delegate demo_keeper con_a val_a (coin_of ''stake'' 100) demo_refusing = (Err ?e, c') \<and>
    total_delegated demo_keeper c' con_a = 100 \<and> chain c' = chain ?s"
    using refused_delegation_is_committed [of demo_keeper demo_refusing con_a val_a "coin_of ''stake'' 100" 100
      "[coin_of ''stake'' 100]" ?s ?s ?s ?e ?s]
    by (simp add: may_delegate_def demo_chain_simps add_supply_def demo_amount_of_def)
  then show ?thesis by auto
qed

text \<open>
  C22.  When the bank and the staking keeper do their part, a bond within the limit succeeds with the
  shares that the staking keeper reports, and the total has grown by the amount.
\<close>
theorem delegate_succeeds:
  assumes laws: "int_laws (lib k)" "coin_laws (lib k)" and ok: "ledger_ok k c"
    and may: "may_delegate k c actor valAddr amt a" and fits: "int_fits (total_delegated k c actor + a)"
    and coins: "new_coins (lib k) amt = Ok coins"
    and mint: "MintCoins (bank k) ModuleName coins (open_cache c) = (Ok (), s1)"
    and offset: "AddSupplyOffset (bank k) (bond_denom k c) (- a) s1 = (Ok (), s2)"
    and send: "SendCoinsFromModuleToAccount (bank k) ModuleName actor coins s2 = (Ok (), s3)"
    and staking: "StakingDelegate (Staking k) actor a Unbonded
      (the (GetValidator (Staking k) (chain c) valAddr)) True s3 = (Ok sh, s4)"
    and same: "bond_denom k s4 = bond_denom k c"
  shows "\<exists>c'. Delegate k actor valAddr amt c = (Ok sh, c') \<and>
    total_delegated k c' actor = total_delegated k c actor + a \<and> chain c' = chain s4"
  using Delegate_runs [where r = "Ok sh", OF laws ok may fits coins mint offset send _ same] staking
  by (auto simp: attempt_apply)

theorem delegate_succeeds_witness:
  "\<exists>c'. Delegate demo_keeper con_a val_a (coin_of ''stake'' 500) demo_capped = (Ok 500, c') \<and>
    total_delegated demo_keeper c' con_a = 500 \<and> demo_supply (chain c') = 500"
proof -
  let ?s = "(open_cache demo_capped)\<lparr>chain := (chain demo_capped)\<lparr>demo_supply := 500\<rparr>\<rparr>"
  have "\<exists>c'. Delegate demo_keeper con_a val_a (coin_of ''stake'' 500) demo_capped = (Ok 500, c') \<and>
    total_delegated demo_keeper c' con_a = 500 \<and> chain c' = chain ?s"
    using delegate_succeeds [of demo_keeper demo_capped con_a val_a "coin_of ''stake'' 500" 500
      "[coin_of ''stake'' 500]" ?s ?s ?s 500 ?s]
    by (simp add: may_delegate_def demo_chain_simps add_supply_def demo_amount_of_def)
  then show ?thesis by auto
qed

section \<open>Unbonding\<close>

text \<open>
  C24.  Unbonding never raises a total, and lowers it by at most what was delegated; a failure changes
  nothing but the gas meter.
\<close>
theorem undelegate_only_lowers:
  assumes laws: "int_laws (lib k)" "coin_laws (lib k)" and ok: "ledger_ok k c"
    and a: "amount amt = Some a" and run: "Undelegate k actor valAddr amt c = (r, c')"
  shows "(\<exists>b. c' = drop_cache c b) \<or>
    is_ok r \<and> 0 < a \<and> a \<le> total_delegated k c actor \<and>
      (\<exists>x. 0 \<le> x \<and> x \<le> total_delegated k c actor \<and>
         total_delegated k c' actor = total_delegated k c actor - x)"
  by (rule Undelegate_outcome [OF laws ok a run])

theorem undelegate_only_lowers_witness:
  "case Undelegate demo_keeper con_a val_a (coin_of ''stake'' 100) demo_capped of (r, c') \<Rightarrow>
     \<exists>b. c' = drop_cache demo_capped b"
proof -
  obtain r c' where run: "Undelegate demo_keeper con_a val_a (coin_of ''stake'' 100) demo_capped = (r, c')"
    by fastforce
  show ?thesis
    using undelegate_only_lowers [OF _ _ _ _ run] run by simp
qed

text \<open>
  C23.  When the staking and the bank keeper do their part, an unbond takes exactly the undelegated
  coins off the contract's total, and the coins are burned.
\<close>
theorem undelegate_succeeds:
  assumes laws: "int_laws (lib k)" "coin_laws (lib k)" and ok: "ledger_ok k c"
    and a: "amt = coin_of (bond_denom k c) a" "0 < a" "a \<le> total_delegated k c actor"
    and shares: "ValidateUnbondAmount (Staking k) (chain c) actor valAddr a = Ok sh"
    and undelegate: "InstantUndelegate (Staking k) actor valAddr sh (open_cache c) = (Ok coins, s1)"
    and send: "SendCoinsFromAccountToModule (bank k) actor ModuleName coins s1 = (Ok (), s2)"
    and burn: "BurnCoins (bank k) ModuleName coins s2 = (Ok (), s3)"
    and x: "amount_of (lib k) coins (bond_denom k c) = Ok x" "0 \<le> x" "x \<le> total_delegated k c actor"
    and offset: "AddSupplyOffset (bank k) (bond_denom k c) x s3 = (Ok (), s4)"
    and same: "bond_denom k s4 = bond_denom k c"
  shows "\<exists>c'. Undelegate k actor valAddr amt c = (Ok (), c') \<and>
    total_delegated k c' actor = total_delegated k c actor - x \<and> chain c' = chain s4"
  using Undelegate_runs [OF assms] by blast

theorem undelegate_succeeds_witness:
  "\<exists>c'. Undelegate demo_keeper con_a val_a (coin_of ''stake'' 60) demo_bonded = (Ok (), c') \<and>
    total_delegated demo_keeper c' con_a = 40 \<and> demo_supply (chain c') = - 60"
proof -
  let ?b = "open_cache demo_bonded"
  let ?s = "?b\<lparr>chain := (chain demo_bonded)\<lparr>demo_supply := - 60\<rparr>\<rparr>"
  have "adapter_InstantUndelegate demo_lib demo_staking demo_bank con_a val_a 60 ?b = (Ok [coin_of ''stake'' 60], ?b)"
    by (simp add: adapter_InstantUndelegate_def demo_staking_def demo_bank_def demo_lib_def demo_new_coin_def
        demo_chain_simps bind_apply)
  moreover have "amount_of demo_lib [coin_of ''stake'' 60] ''stake'' = Ok 60"
    by (simp add: demo_lib_def)
  ultimately have "\<exists>c'. Undelegate demo_keeper con_a val_a (coin_of ''stake'' 60) demo_bonded = (Ok (), c') \<and>
    total_delegated demo_keeper c' con_a = 40 \<and> chain c' = chain ?s"
    using undelegate_succeeds [where actor = con_a, of demo_keeper demo_bonded "coin_of ''stake'' 60" 60 val_a 60
      "[coin_of ''stake'' 60]" ?b ?b ?s 60 ?s]
    by (simp add: demo_chain_simps add_supply_def demo_amount_of_def)
  then show ?thesis by auto
qed

end
