(* ===== verification/SchedulerProps.thy ===== *)
theory SchedulerProps
  imports Example
begin

text \<open>
  The scheduler's properties, on the queue that \<open>TaskQueue\<close> makes of the store: the lookups and the
  deletion first, as lemmas on walks over the due tasks, then the claims with their witnesses.
\<close>

section \<open>Walks over all tasks\<close>

lemma due_all: "due_tasks s tp MaxUint = tasks s tp"
proof -
  have "h \<le> MaxUint" for h
    by (simp add: MaxUint_def)
  then show ?thesis
    by (simp add: due_tasks_def)
qed

lemma walk_has:
  "iterate (visit (\<lambda>addr height repeat a. if addr = contract
      then ret (rep = repeat, rep = repeat) else ret (False, a))) ts False c =
    (Ok (\<exists>t \<in> set ts. snd (fst t) = contract \<and> snd t = rep), c)"
  by (induction ts) (auto simp: visit_def bind_apply)

lemma walk_next:
  "iterate (visit (\<lambda>addr height repeat a. if addr = contract then ret (True, Some height) else ret (False, a))) ts None c =
    (Ok (map_option (\<lambda>t. fst (fst t)) (find (\<lambda>t. snd (fst t) = contract) ts)), c)"
  by (induction ts) (auto simp: visit_def bind_apply)

lemma HasScheduledTask_run:
  assumes "layout_laws (lib k)" and "tp \<noteq> SchedulerTaskUndefined" and "tasks_ok (mstore c) tp"
  shows "HasScheduledTask k tp contract rep c =
    (Ok (\<exists>h. task_at (mstore c) tp (h, contract) = Some rep), c)"
proof -
  have "(\<exists>t \<in> set (tasks (mstore c) tp). snd (fst t) = contract \<and> snd t = rep) \<longleftrightarrow>
      (\<exists>h. task_at (mstore c) tp (h, contract) = Some rep)"
    by (force simp: tasks_iff [symmetric])
  then show ?thesis
    by (simp add: HasScheduledTask_def iterateScheduledContractTasks_def bind_apply attempt_apply
        IterateScheduledTasks_due [OF assms] due_all walk_has)
qed

text \<open>The first task of a contract in a list sorted by height is the one that runs next.\<close>

lemma find_first:
  assumes "sorted (map (\<lambda>t. fst (fst t)) ts)" and "find (\<lambda>t. snd (fst t) = contract) ts = Some t"
    and "t' \<in> set ts" and "snd (fst t') = contract"
  shows "fst (fst t) \<le> fst (fst t')"
  using assms by (induction ts) (auto split: if_splits)

lemma GetNext_run:
  assumes "layout_laws (lib k)" and "tp \<noteq> SchedulerTaskUndefined" and "tasks_ok (mstore c) tp"
  shows "\<exists>r. GetNextScheduledTaskHeight k tp contract c = (Ok r, c) \<and>
    (case r of None \<Rightarrow> \<forall>h. task_at (mstore c) tp (h, contract) = None
     | Some h \<Rightarrow> task_at (mstore c) tp (h, contract) \<noteq> None \<and>
         (\<forall>h' < h. task_at (mstore c) tp (h', contract) = None))"
proof -
  let ?ts = "tasks (mstore c) tp"
  let ?f = "find (\<lambda>t. snd (fst t) = contract) ?ts"
  have run: "GetNextScheduledTaskHeight k tp contract c = (Ok (map_option (\<lambda>t. fst (fst t)) ?f), c)"
    by (simp add: GetNextScheduledTaskHeight_def iterateScheduledContractTasks_def bind_apply attempt_apply
        IterateScheduledTasks_due [OF assms] due_all walk_next)
  have sorted: "sorted (map (\<lambda>t. fst (fst t)) ?ts)"
    using due_tasks_sorted [of "mstore c" tp MaxUint] by (simp add: due_all)
  have entry: "task_at (mstore c) tp (h, contract) = Some r \<Longrightarrow> ((h, contract), r) \<in> set ?ts" for h r
    by (simp add: tasks_iff)
  show ?thesis
  proof (cases ?f)
    case None
    then have "task_at (mstore c) tp (h, contract) = None" for h
      using entry by (cases "task_at (mstore c) tp (h, contract)") (auto simp: find_None_iff)
    with run None show ?thesis by simp
  next
    case (Some t)
    then have t: "t \<in> set ?ts" "snd (fst t) = contract"
      by (auto simp: find_Some_iff)
    then have "task_at (mstore c) tp (fst (fst t), contract) = Some (snd t)"
      using tasks_iff [of "fst t" "snd t" "mstore c" tp] by auto
    moreover have "task_at (mstore c) tp (h', contract) = None" if "h' < fst (fst t)" for h'
    proof (cases "task_at (mstore c) tp (h', contract)")
      case (Some r)
      have "fst (fst t) \<le> fst (fst ((h', contract), r))"
        using find_first [OF sorted \<open>?f = Some t\<close> entry [OF Some]] by simp
      with that show ?thesis by simp
    qed
    ultimately show ?thesis
      using run Some by simp
  qed
qed

text \<open>Deleting while walking: the walk is over the tasks there were at the start.\<close>

definition delete_visit :: "'x Keeper \<Rightarrow> SchedulerTaskType \<Rightarrow> bytes \<Rightarrow> bytes \<Rightarrow> u64 \<Rightarrow> bool \<Rightarrow> err option \<Rightarrow>
    ('x ctx, bool \<times> err option) call" where
  "delete_visit k tp contract addr height repeat a = (if addr = contract then
     bind (attempt (deleteScheduledTask k tp contract height)) (\<lambda>r.
       case err_of r of
         Some e \<Rightarrow> ret (True, Some (Wrapped e ''remove task height''))
       | None \<Rightarrow> ret (False, a))
     else ret (False, a))"

lemma walk_delete:
  assumes "layout_laws (lib k)" and "tp \<noteq> SchedulerTaskUndefined"
  shows "iterate (visit (delete_visit k tp contract)) ts None c =
    (Ok None, c\<lparr>mstore := fold (\<lambda>t s. if snd (fst t) = contract then del_task s tp (fst t) else s) ts (mstore c)\<rparr>)"
proof (induction ts arbitrary: c)
  case (Cons t ts)
  then show ?case
    by (cases t; cases "fst t")
      (auto simp: visit_def delete_visit_def bind_apply attempt_apply deleteScheduledTask_run [OF assms])
qed simp

lemma fold_delete:
  "task_at (fold (\<lambda>t s. if snd (fst t) = contract then del_task s tp (fst t) else s) ts s) tp' x =
     (if tp' = tp \<and> snd x = contract \<and> x \<in> set (map fst ts) then None else task_at s tp' x)"
  by (induction ts arbitrary: s) (auto simp: queue.at_del)

lemma DeleteAll_run:
  assumes L: "layout_laws (lib k)" and tp: "tp \<noteq> SchedulerTaskUndefined" and wf: "tasks_ok (mstore c) tp"
  obtains s where "DeleteAllScheduledTasks k tp contract c = (Ok (), c\<lparr>mstore := s\<rparr>)"
    and "\<And>tp' x. task_at s tp' x = (if tp' = tp \<and> snd x = contract then None else task_at (mstore c) tp' x)"
    and "\<And>key. off_schedule key \<Longrightarrow> kv_get s key = kv_get (mstore c) key"
proof -
  let ?ts = "tasks (mstore c) tp"
  let ?s = "fold (\<lambda>t s. if snd (fst t) = contract then del_task s tp (fst t) else s) ?ts (mstore c)"
  have fn: "(\<lambda>addr height repeat a. if addr = contract
      then bind (attempt (deleteScheduledTask k tp contract height)) (\<lambda>r. case err_of r of
          None \<Rightarrow> ret (False, a) | Some e \<Rightarrow> ret (True, Some (Wrapped e ''remove task height'')))
      else ret (False, a)) = delete_visit k tp contract"
    by (intro ext) (simp add: delete_visit_def)
  have "DeleteAllScheduledTasks k tp contract c = (Ok (), c\<lparr>mstore := ?s\<rparr>)"
    by (simp add: DeleteAllScheduledTasks_def iterateScheduledContractTasks_def bind_apply attempt_apply fn
        IterateScheduledTasks_due [OF L tp wf] due_all walk_delete [OF L tp])
  moreover have "task_at ?s tp' x = (if tp' = tp \<and> snd x = contract then None else task_at (mstore c) tp' x)" for tp' x
  proof -
    have "x \<notin> set (map fst ?ts) \<Longrightarrow> task_at (mstore c) tp x = None"
      by (cases "task_at (mstore c) tp x") (force simp: tasks_iff [symmetric])+
    then show ?thesis
      unfolding fold_delete by auto
  qed
  moreover have "kv_get ?s key = kv_get (mstore c) key" if "off_schedule key" for key
  proof -
    have "kv_get (fold (\<lambda>t s. if snd (fst t) = contract then del_task s tp (fst t) else s) ts s) key = kv_get s key" for ts s
      using that by (induction ts arbitrary: s) (auto simp: del_task_def)
    then show ?thesis .
  qed
  ultimately show ?thesis
    by (rule that)
qed

section \<open>What an execution may touch\<close>

text \<open>Everything but the schedule: the other keys of the store, the in-memory store, the chain.\<close>

definition world :: "'x ctx \<Rightarrow> (bytes \<Rightarrow> bytes option) \<times> kvstore \<times> 'x" where
  "world c = (\<lambda>key. if off_schedule key then kv_get (mstore c) key else None, mmem c, chain c)"

lemma world_cong:
  "(\<And>key. off_schedule key \<Longrightarrow> kv_get (mstore c) key = kv_get (mstore d) key) \<Longrightarrow>
     mmem c = mmem d \<Longrightarrow> chain c = chain d \<Longrightarrow> world c = world d"
  by (simp add: world_def fun_eq_iff)

lemma world_run_ctx [simp]: "world ((open_cache c)\<lparr>gas_limit := g, gas_used := u\<rparr>) = world c"
  by (rule world_cong) simp_all

lemma run_task_off_schedule [simp]:
  "off_schedule key \<Longrightarrow> kv_get (queue.run_task cur epoch tp e s) key = kv_get s key"
  by (auto simp: queue.run_task_def split: prod.splits)

lemma world_visit_task:
  assumes L: "layout_laws (lib k)" and tp: "tp \<noteq> SchedulerTaskUndefined" and inv: "P (world c)"
    and cb: "\<And>a c c'. P (world c) \<Longrightarrow> cb a c = (Ok (), c') \<Longrightarrow> P (world c')"
  shows "P (world (snd (visit_task k m (exec_task k tp epoch cb) e acc c)))"
proof -
  have exec: "P (world (snd (exec_task k tp epoch cb a h rep acc c)))" for a h rep
  proof (cases "GetMaxSudoGas k c")
    case (Ok g)
    obtain r d where run: "cb a ((open_cache c)\<lparr>gas_limit := g, gas_used := 0\<rparr>) = (r, d)"
      by (cases "cb a ((open_cache c)\<lparr>gas_limit := g, gas_used := 0\<rparr>)") simp
    obtain res p' where p': "exec_task k tp epoch cb a h rep acc c = (Ok (False, acc @ [res]), p')"
      "mstore p' = queue.run_task (BlockHeight c) epoch tp ((h, a), rep) (if is_ok r then mstore d else mstore c)"
      "mmem p' = (if is_ok r then mmem d else mmem c)" "chain p' = (if is_ok r then chain d else chain c)"
      by (rule exec_task_run [where k = k and cb = cb and p = c and g = g and a = a and r = r and c = d
        and tp = tp and epoch = epoch and h = h and rep = rep and acc = acc, OF L tp Ok run])
    have "world p' = (if is_ok r then world d else world c)"
      using p' by (auto intro!: world_cong)
    moreover have "P (world d)" if "is_ok r"
      using cb [of "(open_cache c)\<lparr>gas_limit := g, gas_used := 0\<rparr>" a d] run that inv
      by (auto simp: is_ok_iff)
    ultimately show ?thesis
      using p'(1) inv by simp
  qed (simp_all add: exec_task_def bind_apply inv)
  show ?thesis
    by (auto simp: visit_task_def bind_apply inv split: res.split)
      (insert exec, simp_all)
qed

lemma ExecScheduledTasks_world:
  assumes L: "layout_laws (lib k)" and inv: "P (world c)"
    and cb: "\<And>a c c'. P (world c) \<Longrightarrow> cb a c = (Ok (), c') \<Longrightarrow> P (world c')"
  shows "P (world (snd (ExecScheduledTasks k tp epoch cb c)))"
proof (cases "tp = SchedulerTaskUndefined")
  case True
  then show ?thesis by (simp add: undefined_type_refused inv)
next
  case False
  note visit = world_visit_task [where P = P, OF L False _ cb]
  show ?thesis
    using iterate_invariant [where P = "\<lambda>c. P (world c)", OF visit inv] False
    by (simp add: ExecScheduledTasks_def IterateScheduledTasks_def bind_apply BuildSchedulerTypeKeyPrefix_def)
qed

section \<open>The calls of the callback\<close>

text \<open>
  A run from the side of the callback: it is called once for every task of the list, in its order, each
  time in a branch of the state that the calls before have left, with the whole gas limit and a fresh
  meter; the result has its error, a panic included, and the gas it used; and the state afterwards is
  what the call made of it if it succeeded, and otherwise what it was.
\<close>

primrec called :: "'x executor \<Rightarrow> u64 \<Rightarrow> ((u64 \<times> bytes) \<times> bool) list \<Rightarrow> 'x ctx \<Rightarrow> ExecResult list \<Rightarrow> 'x ctx \<Rightarrow> bool" where
  "called cb gas [] c rs d \<longleftrightarrow> rs = [] \<and> d = c"
| "called cb gas (t # ts) c rs d \<longleftrightarrow> (\<exists>r e res rs' c'.
     cb (snd (fst t)) ((open_cache c)\<lparr>gas_limit := gas, gas_used := 0\<rparr>) = (r, e) \<and>
     rs = res # rs' \<and> ExecErr res = safeExec r \<and> GasUsed res = gas_used e \<and>
     world c' = (if is_ok r then world e else world c) \<and> BlockHeight c' = BlockHeight c \<and>
     called cb gas ts c' rs' d)"

lemma exec_tasks_called:
  assumes L: "layout_laws (lib k)" and tp: "tp \<noteq> SchedulerTaskUndefined" and cb: "leaves_schedule cb"
  shows "GetMaxSudoGas k c = Ok g \<Longrightarrow>
    iterate (visit (exec_task k tp epoch cb)) ts acc c = (Ok (acc @ rs), d) \<Longrightarrow> called cb g ts c rs d"
proof (induction ts arbitrary: acc c rs)
  case (Cons t ts)
  obtain h a rep where t: "t = ((h, a), rep)"
    by (cases t) auto
  obtain r e where run: "cb a ((open_cache c)\<lparr>gas_limit := g, gas_used := 0\<rparr>) = (r, e)"
    by fastforce
  obtain res c1 where step: "exec_task k tp epoch cb a h rep acc c = (Ok (False, acc @ [res]), c1)"
    and c1: "mstore c1 = queue.run_task (BlockHeight c) epoch tp ((h, a), rep) (if is_ok r then mstore e else mstore c)"
      "mmem c1 = (if is_ok r then mmem e else mmem c)" "chain c1 = (if is_ok r then chain e else chain c)"
      "BlockHeight c1 = BlockHeight c"
    and res: "ExecErr res = safeExec r" "GasUsed res = gas_used e"
    by (rule exec_task_run [where cb = cb and a = a and epoch = epoch and h = h and rep = rep and acc = acc,
        OF L tp Cons.prems(1) run]) auto
  have "sched_view (mstore e) = sched_view (mstore c)"
    using cb run keepsD [of "\<lambda>c. sched_view (mstore c)" "cb a"] by (fastforce simp: leaves_schedule_def)
  then have "kv_get (mstore c1) ParamsKey = kv_get (mstore c) ParamsKey"
    by (simp add: c1(1) sched_view_eq)
  then have g: "GetMaxSudoGas k c1 = Ok g"
    using Cons.prems(1) GetParams_cong [of c1 c k] by (simp add: GetMaxSudoGas_def)
  have rest: "iterate (visit (exec_task k tp epoch cb)) ts (acc @ [res]) c1 = (Ok (acc @ rs), d)"
  proof -
    have "visit (exec_task k tp epoch cb) t acc c = (Ok (False, acc @ [res]), c1)"
      by (simp add: visit_def t step)
    with Cons.prems(2) show ?thesis by (simp add: bind_apply)
  qed
  obtain rs' where rs: "rs = res # rs'"
    using exec_tasks_run [OF L tp cb g, of epoch ts "acc @ [res]"] rest by auto
  have "called cb g ts c1 rs' d"
    using Cons.IH [OF g, of "acc @ [res]" rs'] rest by (simp add: rs)
  moreover have "world c1 = (if is_ok r then world e else world c)"
    using c1 by (auto intro!: world_cong)
  ultimately show ?case
    using run res rs c1(4) by (auto simp: t)
qed simp

lemma Exec_called:
  assumes "layout_laws (lib k)" and "tp \<noteq> SchedulerTaskUndefined" and "leaves_schedule cb"
    and "tasks_ok (mstore c) tp" and "GetMaxSudoGas k c = Ok g" and "ExecScheduledTasks k tp epoch cb c = (Ok rs, d)"
  shows "called cb g (due_tasks (mstore c) tp (BlockHeight c)) c rs d"
  using exec_tasks_called [OF assms(1-3,5), of epoch _ "[]" rs d] assms(6)
  by (simp add: ExecScheduledTasks_def IterateScheduledTasks_due [OF assms(1,2,4)])

section \<open>Properties\<close>

text \<open>
  C8.  The end blocker's loop, for a callback that writes neither the schedule nor the parameters: it is
  called exactly once for every task that is due, in the order of the heights, in a branch with the
  gas limit of the parameters; each call is reported with its error and its gas, and only the effects
  of the calls that succeed are kept.  Afterwards no task of the type is left up to the current height,
  a repeating task is back exactly one epoch later (unless the epoch is zero or the sum wraps), and
  no other task of any type has moved.  A failing callback changes none of this.
\<close>
theorem exec_runs_due_tasks:
  assumes L: "layout_laws (lib k)" and tp: "tp \<noteq> SchedulerTaskUndefined" and cb: "leaves_schedule cb"
    and wf: "tasks_ok (mstore c) tp" and g: "GetMaxSudoGas k c = Ok g"
  shows "\<exists>rs c'. ExecScheduledTasks k tp epoch cb c = (Ok rs, c') \<and>
    called cb g (due_tasks (mstore c) tp (BlockHeight c)) c rs c' \<and>
    list_all2 (reports (BlockHeight c) epoch g) (due_tasks (mstore c) tp (BlockHeight c)) rs \<and>
    due_tasks (mstore c') tp (BlockHeight c) = [] \<and>
    (\<forall>tp' h a. task_at (mstore c') tp' (h, a) =
      (if tp' \<noteq> tp then task_at (mstore c) tp' (h, a)
       else if epoch \<noteq> 0 \<and> BlockHeight c \<le> BlockHeight c + epoch \<and> h = BlockHeight c + epoch \<and>
          (\<exists>h' \<le> BlockHeight c. task_at (mstore c) tp (h', a) = Some True) then Some True
       else if h \<le> BlockHeight c then None
       else task_at (mstore c) tp (h, a)))"
proof -
  let ?s = "fold (queue.run_task (BlockHeight c) epoch tp) (due_tasks (mstore c) tp (BlockHeight c)) (mstore c)"
  obtain rs c' where run: "ExecScheduledTasks k tp epoch cb c = (Ok rs, c')"
      "list_all2 (reports (BlockHeight c) epoch g) (due_tasks (mstore c) tp (BlockHeight c)) rs"
    and view: "sched_view (mstore c') = sched_view ?s"
    by (rule ExecScheduledTasks_run [OF assms])
  note same = sched_viewD [OF view]
  show ?thesis
    using run Exec_called [OF assms run(1)] queue.nothing_due [of "BlockHeight c" epoch tp "mstore c"]
    by (auto simp: same queue.run_due queue.run_tasks_other queue.again_def)
qed

text \<open>In the instance two callbacks are due, and one of them panics: its message leaves no trace.\<close>

lemma demo_due:
  "due_tasks (mstore demo_scheduled) SchedulerTaskHandleEpoch 100 \<in>
    {[((100, con_a), True), ((100, con_bad), True)], [((100, con_bad), True), ((100, con_a), True)]}"
proof -
  let ?ts = "due_tasks (mstore demo_scheduled) SchedulerTaskHandleEpoch 100"
  have set: "set ?ts = {((100, con_a), True), ((100, con_bad), True)}"
    by (auto simp: queue.due_iff split: if_splits)
  have "distinct ?ts"
    using queue.due_distinct [of "mstore demo_scheduled" SchedulerTaskHandleEpoch 100] by (simp add: distinct_map)
  then have "length ?ts = 2"
    using distinct_card [of ?ts] by (simp add: set)
  then obtain x y where xy: "?ts = [x, y]"
    by (auto simp: numeral_2_eq_2 length_Suc_conv)
  then show ?thesis
    using set \<open>distinct ?ts\<close> by (auto simp: doubleton_eq_iff)
qed

theorem exec_runs_due_tasks_witness:
  "\<exists>rs c'. ExecScheduledTasks demo_keeper SchedulerTaskHandleEpoch 50 (epoch_executor demo_keeper) demo_scheduled = (Ok rs, c') \<and>
    map ExecErr rs \<in> {[None, Some (Wrapped ErrPanic ''execution'')], [Some (Wrapped ErrPanic ''execution''), None]} \<and>
    map fst (demo_calls (chain c')) = [con_a] \<and> map GasUsed rs = [7, 7] \<and>
    task_at (mstore c') SchedulerTaskHandleEpoch (150, con_a) = Some True \<and>
    task_at (mstore c') SchedulerTaskHandleEpoch (150, con_bad) = Some True \<and>
    task_at (mstore c') SchedulerTaskHandleEpoch (100, con_a) = None"
proof -
  obtain rs c' where run: "ExecScheduledTasks demo_keeper SchedulerTaskHandleEpoch 50 (epoch_executor demo_keeper) demo_scheduled = (Ok rs, c')"
    and calls: "called (epoch_executor demo_keeper) 500000 (due_tasks (mstore demo_scheduled) SchedulerTaskHandleEpoch 100) demo_scheduled rs c'"
    and at: "task_at (mstore c') SchedulerTaskHandleEpoch (150, con_a) = Some True"
      "task_at (mstore c') SchedulerTaskHandleEpoch (150, con_bad) = Some True"
      "task_at (mstore c') SchedulerTaskHandleEpoch (100, con_a) = None"
    using exec_runs_due_tasks [of demo_keeper SchedulerTaskHandleEpoch "epoch_executor demo_keeper"
      demo_scheduled 500000 50] by auto
  have start: "demo_calls (chain demo_scheduled) = []"
    by (simp add: demo_scheduled_def demo_capped_def demo_start_def demo_blank_def)
  note executor = epoch_executor_def SendHandleEpoch_def doSudoCall_def bind_apply demo_wasm_def demo_sudo_def con_bad_def [symmetric]
  have "map ExecErr rs \<in> {[None, Some (Wrapped ErrPanic ''execution'')], [Some (Wrapped ErrPanic ''execution''), None]} \<and>
      map fst (demo_calls (chain c')) = [con_a] \<and> map GasUsed rs = [7, 7]"
    using calls demo_due start by (auto simp: executor safeExec_def world_def)
  with run at show ?thesis
    by (intro exI [of _ rs] exI [of _ c'] conjI) simp_all
qed

text \<open>
  C13.  A callback that fails or panics leaves no trace: whatever holds of the rest of the state
  (the module's other keys, the in-memory store, the chain) and is kept by the callbacks that
  return without an error still holds after the run, however the others end.
\<close>
theorem exec_isolates_failures:
  assumes L: "layout_laws (lib k)" and inv: "P (world c)"
    and cb: "\<And>a c c'. P (world c) \<Longrightarrow> cb a c = (Ok (), c') \<Longrightarrow> P (world c')"
  shows "P (world (snd (ExecScheduledTasks k tp epoch cb c)))"
  by (rule ExecScheduledTasks_world [where P = P, OF L inv cb])

theorem exec_isolates_failures_witness:
  "\<not> demo_refuse (chain (snd (ExecScheduledTasks demo_keeper SchedulerTaskHandleEpoch 50
    (\<lambda>a c. (Panic ''callback'', c\<lparr>chain := (chain c)\<lparr>demo_refuse := True\<rparr>\<rparr>)) demo_scheduled)))"
  using exec_isolates_failures [of demo_keeper "\<lambda>w. \<not> demo_refuse (snd (snd w))" demo_scheduled
    "\<lambda>a c. (Panic ''callback'', c\<lparr>chain := (chain c)\<lparr>demo_refuse := True\<rparr>\<rparr>)" SchedulerTaskHandleEpoch 50]
  by (simp add: world_def demo_scheduled_def demo_capped_def demo_start_def demo_blank_def)

text \<open>
  C17.  Walking the schedule is a walk over the abstract queue: the callback sees exactly the tasks
  up to the given height, each once, the oldest first.
\<close>
theorem iteration_refines_queue:
  assumes "layout_laws (lib k)" and "tp \<noteq> SchedulerTaskUndefined" and "tasks_ok (mstore c) tp"
  shows "IterateScheduledTasks k tp m cb a c = iterate (visit cb) (due_tasks (mstore c) tp m) a c \<and>
    sorted (map (\<lambda>t. fst (fst t)) (due_tasks (mstore c) tp m)) \<and>
    distinct (map fst (due_tasks (mstore c) tp m)) \<and>
    (\<forall>x r. (x, r) \<in> set (due_tasks (mstore c) tp m) \<longleftrightarrow> task_at (mstore c) tp x = Some r \<and> fst x \<le> m)"
  using IterateScheduledTasks_due [OF assms] due_tasks_sorted queue.due_distinct queue.due_iff
  by auto

theorem iteration_refines_queue_witness:
  "IterateScheduledTasks demo_keeper SchedulerTaskHandleEpoch 100 (\<lambda>a h r n. ret (False, n + 1)) (0 :: nat) demo_scheduled =
    iterate (visit (\<lambda>a h r n. ret (False, n + 1))) (due_tasks (mstore demo_scheduled) SchedulerTaskHandleEpoch 100) 0 demo_scheduled \<and>
   ((100, con_a), True) \<in> set (due_tasks (mstore demo_scheduled) SchedulerTaskHandleEpoch 100)"
  using iteration_refines_queue [where cb = "\<lambda>a h r n. ret (False, n + 1)" and a = "0 :: nat",
    of demo_keeper SchedulerTaskHandleEpoch demo_scheduled 100] by simp

text \<open>
  C33.  Scheduling: a height in the past is refused; a one-shot task never replaces a task that is
  already there, a repeating one does; nothing else in the schedule moves.
\<close>
theorem scheduling_outcomes:
  assumes "layout_laws (lib k)" and "tp \<noteq> SchedulerTaskUndefined"
    and "r = (if rep then ScheduleRepeatingTask k tp a h c else ScheduleOneShotTask k tp a h c)"
  shows "if h < BlockHeight c then r = (Err past_block, c)
    else fst r = Ok () \<and> world (snd r) = world c \<and>
      (\<forall>tp' x. task_at (mstore (snd r)) tp' x =
        (if tp' = tp \<and> x = (h, a) \<and> (rep \<or> task_at (mstore c) tp (h, a) = None) then Some rep
         else task_at (mstore c) tp' x))"
  using assms
  by (auto simp: ScheduleRepeatingTask_run ScheduleOneShotTask_run queue.at_put intro!: world_cong)

theorem scheduling_outcomes_witness:
  "ScheduleOneShotTask demo_keeper SchedulerTaskHandleEpoch con_a 99 demo_scheduled = (Err past_block, demo_scheduled) \<and>
   task_at (mstore (snd (ScheduleOneShotTask demo_keeper SchedulerTaskHandleEpoch con_a 100 demo_scheduled)))
     SchedulerTaskHandleEpoch (100, con_a) = Some True \<and>
   task_at (mstore (snd (ScheduleRepeatingTask demo_keeper SchedulerTaskHandleEpoch con_a 120 demo_scheduled)))
     SchedulerTaskHandleEpoch (120, con_a) = Some True"
  using scheduling_outcomes [OF _ _ refl, where k = demo_keeper and tp = SchedulerTaskHandleEpoch
      and rep = False and a = con_a and h = 99 and c = demo_scheduled]
    scheduling_outcomes [OF _ _ refl, where k = demo_keeper and tp = SchedulerTaskHandleEpoch
      and rep = False and a = con_a and h = 100 and c = demo_scheduled]
    scheduling_outcomes [OF _ _ refl, where k = demo_keeper and tp = SchedulerTaskHandleEpoch
      and rep = True and a = con_a and h = 120 and c = demo_scheduled]
  by simp

text \<open>\<open>HasScheduledTask\<close> says whether the contract has a task of the type with that repeat flag.\<close>
theorem has_scheduled_task:
  assumes "layout_laws (lib k)" and "tp \<noteq> SchedulerTaskUndefined" and "tasks_ok (mstore c) tp"
  shows "HasScheduledTask k tp contract rep c =
    (Ok (\<exists>h. task_at (mstore c) tp (h, contract) = Some rep), c)"
  by (rule HasScheduledTask_run [OF assms])

theorem has_scheduled_task_witness:
  "HasScheduledTask demo_keeper SchedulerTaskHandleEpoch con_a True demo_scheduled = (Ok True, demo_scheduled) \<and>
   HasScheduledTask demo_keeper SchedulerTaskHandleEpoch con_a False demo_scheduled = (Ok False, demo_scheduled)"
  using has_scheduled_task [of demo_keeper SchedulerTaskHandleEpoch demo_scheduled con_a] by simp

text \<open>
  C38.  \<open>GetNextScheduledTaskHeight\<close> finds the least height at which the contract has a task, and
  reports that there is none only if there is none.
\<close>
theorem next_scheduled_height:
  assumes "layout_laws (lib k)" and "tp \<noteq> SchedulerTaskUndefined" and "tasks_ok (mstore c) tp"
  shows "\<exists>r. GetNextScheduledTaskHeight k tp contract c = (Ok r, c) \<and>
    (case r of None \<Rightarrow> \<forall>h. task_at (mstore c) tp (h, contract) = None
     | Some h \<Rightarrow> task_at (mstore c) tp (h, contract) \<noteq> None \<and>
         (\<forall>h' < h. task_at (mstore c) tp (h', contract) = None))"
  by (rule GetNext_run [OF assms])

theorem next_scheduled_height_witness:
  "GetNextScheduledTaskHeight demo_keeper SchedulerTaskHandleEpoch con_a demo_scheduled = (Ok (Some 100), demo_scheduled)"
  using next_scheduled_height [of demo_keeper SchedulerTaskHandleEpoch demo_scheduled con_a]
  by (auto split: option.splits if_splits)

text \<open>
  C37.  \<open>DeleteAllScheduledTasks\<close> removes every task of the type that the contract has, although it
  deletes while it iterates, and nothing else.
\<close>
theorem delete_all_tasks:
  assumes "layout_laws (lib k)" and "tp \<noteq> SchedulerTaskUndefined" and "tasks_ok (mstore c) tp"
  shows "\<exists>c'. DeleteAllScheduledTasks k tp contract c = (Ok (), c') \<and> world c' = world c \<and>
    (\<forall>tp' x. task_at (mstore c') tp' x =
      (if tp' = tp \<and> snd x = contract then None else task_at (mstore c) tp' x))"
proof -
  obtain s where "DeleteAllScheduledTasks k tp contract c = (Ok (), c\<lparr>mstore := s\<rparr>)"
    and "\<And>tp' x. task_at s tp' x = (if tp' = tp \<and> snd x = contract then None else task_at (mstore c) tp' x)"
    and "\<And>key. off_schedule key \<Longrightarrow> kv_get s key = kv_get (mstore c) key"
    using DeleteAll_run [where contract = contract, OF assms] by blast
  then show ?thesis
    by (auto intro!: world_cong)
qed

theorem delete_all_tasks_witness:
  "\<exists>c'. DeleteAllScheduledTasks demo_keeper SchedulerTaskHandleEpoch con_a demo_scheduled = (Ok (), c') \<and>
    task_at (mstore c') SchedulerTaskHandleEpoch (100, con_a) = None \<and>
    task_at (mstore c') SchedulerTaskHandleEpoch (100, con_bad) = Some True"
  using delete_all_tasks [of demo_keeper SchedulerTaskHandleEpoch demo_scheduled con_a] by auto

end
