(* ===== verification/ValsetProps.thy ===== *)
theory ValsetProps
  imports Example
begin

text \<open>
  The properties of the validator-set updates, from the key of a piped operation to the report: what
  a change leaves in the two stores, how its key decodes, and what becomes of it.
\<close>

section \<open>The piped operations of a store\<close>

lemma decoded_iff:
  "x \<in> set (concat (map (\<lambda>e. case f (fst e) of Ok x \<Rightarrow> [x] | _ \<Rightarrow> []) es)) \<longleftrightarrow>
     (\<exists>key v. (key, v) \<in> set es \<and> f key = Ok x)"
  by (induction es) (auto split: res.splits)

lemma piped_ops_iff:
  "x \<in> set (piped_ops L s) \<longleftrightarrow>
     (\<exists>key. kv_get s (PipedValsetPrefix @ key) \<noteq> None \<and> decode_piped L key = Ok x)"
  unfolding piped_ops_def decoded_iff kvs.scan_iff by blast

lemma piped_ops_add:
  assumes "decode_piped L key = Ok x"
  shows "set (piped_ops L (kv_set s (PipedValsetPrefix @ key) [])) = insert x (set (piped_ops L s))"
proof (rule set_eqI)
  fix y
  have "y \<in> set (piped_ops L (kv_set s (PipedValsetPrefix @ key) [])) \<longleftrightarrow>
      (\<exists>key'. (key' = key \<or> kv_get s (PipedValsetPrefix @ key') \<noteq> None) \<and> decode_piped L key' = Ok y)"
    unfolding piped_ops_iff by (intro ex_cong1) simp
  then show "y \<in> set (piped_ops L (kv_set s (PipedValsetPrefix @ key) [])) \<longleftrightarrow> y \<in> insert x (set (piped_ops L s))"
    using assms unfolding insert_iff piped_ops_iff by (metis res.inject(1))
qed

lemma ops_defined [simp]:
  "ValidatorBonded \<noteq> ValsetOperationUndefined" "ValidatorUnbonded \<noteq> ValsetOperationUndefined"
  "ValidatorJailed \<noteq> ValsetOperationUndefined" "ValidatorTombstoned \<noteq> ValsetOperationUndefined"
  "ValidatorUnjailed \<noteq> ValsetOperationUndefined" "ValidatorModified \<noteq> ValsetOperationUndefined"
  "ValidatorSlashed \<noteq> ValsetOperationUndefined"
  by (simp_all add: op_defs)

lemma ops_not_slashed [simp]:
  "ValidatorBonded \<noteq> ValidatorSlashed" "ValidatorUnbonded \<noteq> ValidatorSlashed"
  "ValidatorJailed \<noteq> ValidatorSlashed" "ValidatorTombstoned \<noteq> ValidatorSlashed"
  "ValidatorUnjailed \<noteq> ValidatorSlashed" "ValidatorModified \<noteq> ValidatorSlashed"
  by (simp_all add: op_defs)

lemma positive_cap_iff: "(\<exists>m. (a, m) \<in> set (max_caps k c) \<and> 0 < m) \<longleftrightarrow> 0 < max_cap k c a"
  by (auto simp: max_caps_iff HasMaxCapLimit_def kv_has_def max_cap_def split: option.splits)

section \<open>Properties\<close>

text \<open>
  C16.  Sending off a change stores its key in the in-memory store and gives every contract with a
  positive limit a task at the current height, unless it has one; contracts without a limit, or with
  a limit of zero, are not notified, and nothing else in the module's state changes.
\<close>
theorem change_notifies_contracts:
  assumes L: "layout_laws (lib k)" and caps: "caps_ok k c" and op: "op \<noteq> ValsetOperationUndefined"
    and val: "val \<noteq> []" "length val \<le> 255" and si: "op = ValidatorSlashed \<Longrightarrow> si \<noteq> None"
  shows "\<exists>d. sendAsync k op val si c = (Ok (), d) \<and>
    mmem d = kv_set (mmem c) (PipedValsetPrefix @ piped_key op val si) [] \<and> chain d = chain c \<and>
    (\<forall>tp h a. task_at (mstore d) tp (h, a) =
      (if tp = SchedulerTaskValsetUpdate \<and> h = BlockHeight c \<and> 0 < max_cap k c a \<and>
          task_at (mstore c) tp (h, a) = None then Some False
       else task_at (mstore c) tp (h, a))) \<and>
    (\<forall>key. off_schedule key \<longrightarrow> kv_get (mstore d) key = kv_get (mstore c) key)"
proof -
  obtain d where d: "sendAsync k op val si c = (Ok (), d)"
      "mmem d = kv_set (mmem c) (PipedValsetPrefix @ piped_key op val si) []" "chain d = chain c"
    and store: "mstore d = fold (notified (BlockHeight c)) (max_caps k c) (mstore c)"
    using sendAsync_run [OF L caps BuildPipedValsetOpKey_Ok [OF L op val si]] by blast
  have "task_at (mstore d) tp (h, a) =
      (if tp = SchedulerTaskValsetUpdate \<and> h = BlockHeight c \<and> 0 < max_cap k c a \<and>
          task_at (mstore c) tp (h, a) = None then Some False
       else task_at (mstore c) tp (h, a))" for tp h a
    by (cases "tp = SchedulerTaskValsetUpdate")
      (auto simp: store notified_tasks positive_cap_iff notified_other_type split: option.split)
  then show ?thesis
    using d by (auto simp: store notified_off_schedule)
qed

theorem change_notifies_contracts_witness:
  "\<exists>d. sendAsync demo_keeper ValidatorBonded val_a None demo_capped = (Ok (), d) \<and>
    task_at (mstore d) SchedulerTaskValsetUpdate (100, con_a) = Some False \<and>
    task_at (mstore d) SchedulerTaskValsetUpdate (100, val_a) = None"
  using change_notifies_contracts [of demo_keeper demo_capped ValidatorBonded val_a None]
  by auto

text \<open>
  The key of a change that is not a slash decodes to the validator and the operation, for every
  address of up to 254 bytes.
\<close>
theorem plain_key_roundtrip:
  assumes "layout_laws L" and "op \<noteq> ValsetOperationUndefined" and "op \<noteq> ValidatorSlashed"
    and "val \<noteq> []" and "length val \<le> 254"
  shows "\<exists>key. BuildPipedValsetOpKey L op val si = Ok (PipedValsetPrefix @ key) \<and>
    decode_piped L key = Ok (val, op, None)"
  using BuildPipedValsetOpKey_Ok [OF assms(1,2,4), of si] decode_plain [OF assms(5,3)] assms(3,5) by simp

theorem plain_key_roundtrip_witness:
  "\<exists>key. BuildPipedValsetOpKey demo_lib ValidatorJailed val_a None = Ok (PipedValsetPrefix @ key) \<and>
    decode_piped demo_lib key = Ok (val_a, ValidatorJailed, None)"
  by (rule plain_key_roundtrip) simp_all

text \<open>
  C31.  The key of a slash decodes to the validator, the amount and the fraction, but with power and
  infraction height exchanged: the builder writes the height first, the decoder reads the power first.
\<close>
theorem slash_key_exchanges:
  assumes "layout_laws L" and "val \<noteq> []" and "length val + 19 + length (TotalSlashAmount si) \<le> 255"
    and "TotalSlashAmount si \<noteq> [] \<or> SlashFraction si \<noteq> []"
  shows "\<exists>key. BuildPipedValsetOpKey L ValidatorSlashed val (Some si) = Ok (PipedValsetPrefix @ key) \<and>
    decode_piped L key =
      Ok (val, ValidatorSlashed, Some (si\<lparr>Power := InfractionHeight si, InfractionHeight := Power si\<rparr>))"
  using BuildPipedValsetOpKey_Ok [OF assms(1) _ assms(2), of ValidatorSlashed "Some si"]
    decode_slashed [OF assms(1,3,4)] assms(3) by (simp add: op_defs)

theorem slash_key_exchanges_witness:
  "\<exists>key. BuildPipedValsetOpKey demo_lib ValidatorSlashed val_a (Some
      \<lparr>InfractionHeight = 7, Power = 3, TotalSlashAmount = ''12'', SlashFraction = ''1''\<rparr>) = Ok (PipedValsetPrefix @ key) \<and>
    decode_piped demo_lib key = Ok (val_a, ValidatorSlashed, Some
      \<lparr>InfractionHeight = 3, Power = 7, TotalSlashAmount = ''12'', SlashFraction = ''1''\<rparr>)"
  using slash_key_exchanges [of demo_lib val_a
    "\<lparr>InfractionHeight = 7, Power = 3, TotalSlashAmount = ''12'', SlashFraction = ''1''\<rparr>"]
  by simp

text \<open>
  C32.  An address of 255 bytes, which the builder accepts, makes the decoder panic for every
  operation: its length byte plus one wraps to zero, and the slice expression is out of order.
\<close>
theorem longest_address_panics:
  assumes L: "layout_laws L" and op: "op \<noteq> ValsetOperationUndefined"
    and si: "op = ValidatorSlashed \<Longrightarrow> si \<noteq> None" and len: "length val = 255"
  shows "\<exists>key. BuildPipedValsetOpKey L op val si = Ok (PipedValsetPrefix @ key) \<and>
    decode_piped L key = Panic ''slice bounds out of range''"
proof -
  have "val \<noteq> []"
    using len by auto
  then show ?thesis
    using BuildPipedValsetOpKey_Ok [OF L op _ _ si] decode_length_255 [OF len] len by simp
qed

theorem longest_address_panics_witness:
  "\<exists>key. BuildPipedValsetOpKey demo_lib ValidatorBonded (replicate 255 1) None = Ok (PipedValsetPrefix @ key) \<and>
    decode_piped demo_lib key = Panic ''slice bounds out of range''"
  by (rule longest_address_panics) simp_all

text \<open>
  C30.  Every change is in the report of its block: after it was sent off, the operations that the report
  is made of are those there were before and this one, for addresses of up to 254 bytes.  A slash whose
  address and amount fit the byte that counts them comes with infraction height and power exchanged, as
  its decoder has them; any other change comes without slash data, whatever was passed.
\<close>
theorem sent_change_is_reported:
  assumes L: "layout_laws (lib k)" and caps: "caps_ok k c"
    and op: "op \<noteq> ValsetOperationUndefined" and val: "val \<noteq> []" "length val \<le> 254"
    and slash: "op = ValidatorSlashed \<Longrightarrow> si = Some s \<and> length val + 19 + length (TotalSlashAmount s) \<le> 255 \<and>
      (TotalSlashAmount s \<noteq> [] \<or> SlashFraction s \<noteq> [])"
  shows "set (piped_ops (lib k) (mmem (snd (sendAsync k op val si c)))) =
    insert (val, op, if op = ValidatorSlashed
        then Some (s\<lparr>Power := InfractionHeight s, InfractionHeight := Power s\<rparr>) else None)
      (set (piped_ops (lib k) (mmem c)))"
proof -
  have len: "length val \<le> 255" and some: "op = ValidatorSlashed \<Longrightarrow> si \<noteq> None"
    using val slash by auto
  obtain d where "sendAsync k op val si c = (Ok (), d)"
    and mem: "mmem d = kv_set (mmem c) (PipedValsetPrefix @ piped_key op val si) []"
    using sendAsync_run [OF L caps BuildPipedValsetOpKey_Ok [OF L op val(1) len some]] by blast
  moreover have "decode_piped (lib k) (piped_key op val si) = Ok (val, op, if op = ValidatorSlashed
      then Some (s\<lparr>Power := InfractionHeight s, InfractionHeight := Power s\<rparr>) else None)"
    using decode_plain [OF val(2)] decode_slashed [OF L] slash by (cases "op = ValidatorSlashed") simp_all
  ultimately show ?thesis
    by (simp add: piped_ops_add)
qed

text \<open>A jailed validator, and then the same one slashed at height 7 with power 3.\<close>

theorem sent_change_is_reported_witness:
  "set (piped_ops demo_lib (mmem (snd (sendAsync demo_keeper ValidatorJailed val_a None demo_capped)))) =
    {(val_a, ValidatorJailed, None)} \<and>
   set (piped_ops demo_lib (mmem (snd (sendAsync demo_keeper ValidatorSlashed val_a
      (Some \<lparr>InfractionHeight = 7, Power = 3, TotalSlashAmount = ''12'', SlashFraction = ''1''\<rparr>) demo_capped)))) =
    {(val_a, ValidatorSlashed, Some \<lparr>InfractionHeight = 3, Power = 7, TotalSlashAmount = ''12'', SlashFraction = ''1''\<rparr>)}"
  using sent_change_is_reported [of demo_keeper demo_capped ValidatorJailed val_a None]
    sent_change_is_reported [of demo_keeper demo_capped ValidatorSlashed val_a
      "Some \<lparr>InfractionHeight = 7, Power = 3, TotalSlashAmount = ''12'', SlashFraction = ''1''\<rparr>"
      "\<lparr>InfractionHeight = 7, Power = 3, TotalSlashAmount = ''12'', SlashFraction = ''1''\<rparr>"]
  by (simp add: piped_ops_def)

text \<open>
  C27.  The report lists the operations by kind, each kind in the order of the keys, and reading it
  changes nothing.
\<close>
theorem report_lists_operations:
  assumes "piped_ok k c"
  shows "ValsetUpdateReport k c = (Ok (report_of k c (piped_ops (lib k) (mmem c))), c)"
  by (rule ValsetUpdateReport_run [OF assms])

definition demo_piped :: "demo_chain ctx" where
  "demo_piped = demo_capped\<lparr>mmem := kv_set kv_empty (PipedValsetPrefix @ piped_key ValidatorJailed val_a None) []\<rparr>"

lemma demo_piped_ops: "piped_ops demo_lib (mmem demo_piped) = [(val_a, ValidatorJailed, None)]"
  by (simp add: piped_ops_def demo_piped_def kv_prefix_single decode_plain)

lemma demo_piped_ok [simp]: "piped_ok demo_keeper demo_piped"
  using demo_piped_ops by (simp add: piped_ok_def) (simp add: demo_piped_def kv_prefix_single decode_plain op_defs)

theorem report_lists_operations_witness:
  "ValsetUpdateReport demo_keeper demo_piped = (Ok (empty_report\<lparr>Jailed := [''vala'']\<rparr>), demo_piped)"
  using report_lists_operations [of demo_keeper demo_piped]
  by (simp add: demo_piped_ops report_of_def validators_of_def empty_report_def) (simp add: op_defs val_a_def)

text \<open>Clearing removes every piped operation and touches nothing else.\<close>
theorem clearing_removes_operations:
  "piped_ops L (mmem (ClearPipedValsetOperations k c)) = [] \<and>
   (\<forall>key. take 1 key \<noteq> PipedValsetPrefix \<longrightarrow>
      kv_get (mmem (ClearPipedValsetOperations k c)) key = kv_get (mmem c) key) \<and>
   mstore (ClearPipedValsetOperations k c) = mstore c \<and> chain (ClearPipedValsetOperations k c) = chain c"
  using Clear_empties [of k c] by (simp add: piped_ops_def Clear_scan kvs.get_del_scan) (simp add: PipedValsetPrefix_def)

theorem clearing_removes_operations_witness:
  "piped_ops demo_lib (mmem demo_piped) \<noteq> [] \<and>
   piped_ops demo_lib (mmem (ClearPipedValsetOperations demo_keeper demo_piped)) = [] \<and>
   mstore (ClearPipedValsetOperations demo_keeper demo_piped) = mstore demo_piped"
  using clearing_removes_operations [of demo_lib demo_keeper demo_piped] demo_piped_ops by simp

section \<open>Slashes\<close>

lemma log_error_Ok: "m c = (Ok (), d) \<Longrightarrow> log_error m c = (Ok (), d)"
  by (simp add: log_error_def bind_apply attempt_apply)

text \<open>
  C26.  From the slashing module's call to the report, infraction height and power come out right: the
  decorator names the two numbers it is called with the other way round (the SDK passes the
  infraction height first), and the decoder exchanges them again.
\<close>
theorem slash_is_piped:
  assumes L: "layout_laws (lib k)" and val: "ValidatorByConsAddr sk (chain c) consAddr = Some operator"
    and slash: "sk_Slash sk consAddr infractionHeight power' ratio c = (Ok amt, c1)"
    and caps: "caps_ok k c1" and len: "operator \<noteq> []" "length operator + 19 + length (int_string (lib k) amt) \<le> 255"
    and some: "int_string (lib k) amt \<noteq> []"
  shows "\<exists>d. decorator_Slash k sk consAddr infractionHeight power' ratio c = (Ok amt, d) \<and> chain d = chain c1 \<and>
    set (piped_ops (lib k) (mmem d)) = insert (operator, ValidatorSlashed, Some
       \<lparr>InfractionHeight = infractionHeight, Power = power', TotalSlashAmount = int_string (lib k) amt,
        SlashFraction = dec_string (lib k) ratio\<rparr>) (set (piped_ops (lib k) (mmem c1)))"
proof -
  let ?si = "\<lparr>InfractionHeight = power', Power = infractionHeight, TotalSlashAmount = int_string (lib k) amt,
     SlashFraction = dec_string (lib k) ratio\<rparr>"
  have short: "length operator \<le> 255"
    using len(2) by simp
  have key: "BuildPipedValsetOpKey (lib k) ValidatorSlashed operator (Some ?si) =
      Ok (PipedValsetPrefix @ piped_key ValidatorSlashed operator (Some ?si))"
    by (rule BuildPipedValsetOpKey_Ok [OF L _ len(1) short]) simp_all
  obtain d where d: "ScheduleSlashed k operator infractionHeight power' amt ratio c1 = (Ok (), d)"
    and mem: "mmem d = kv_set (mmem c1) (PipedValsetPrefix @ piped_key ValidatorSlashed operator (Some ?si)) []"
    and chain: "chain d = chain c1"
    unfolding ScheduleSlashed_def using sendAsync_run [OF L caps key] by blast
  have "decorator_Slash k sk consAddr infractionHeight power' ratio c = (Ok amt, d)"
    using slash log_error_Ok [of "ScheduleSlashed k operator infractionHeight power' amt ratio", OF d]
    by (simp add: decorator_Slash_def val bind_apply)
  moreover have "set (piped_ops (lib k) (mmem d)) = insert (operator, ValidatorSlashed,
      Some (?si\<lparr>Power := InfractionHeight ?si, InfractionHeight := Power ?si\<rparr>)) (set (piped_ops (lib k) (mmem c1)))"
    unfolding mem by (rule piped_ops_add, rule decode_slashed [OF L]) (use len some in simp_all)
  ultimately show ?thesis
    using chain by simp
qed

definition demo_slashing :: "demo_chain slashing_StakingKeeper" where
  "demo_slashing = \<lparr>ValidatorByConsAddr = (\<lambda>x a. map_option (\<lambda>v. a) (map_of (demo_validators x) a)),
     sk_Slash = (\<lambda>a ih pw f. ret 12), sk_Jail = (\<lambda>a. ret ()), sk_Unjail = (\<lambda>a. ret ())\<rparr>"

theorem slash_is_piped_witness:
  "\<exists>d. decorator_Slash demo_keeper demo_slashing val_a 90 7 1 demo_capped = (Ok 12, d) \<and>
    set (piped_ops demo_lib (mmem d)) = {(val_a, ValidatorSlashed, Some
       \<lparr>InfractionHeight = 90, Power = 7, TotalSlashAmount = demo_int_string 12,
        SlashFraction = dec_string demo_lib 1\<rparr>)}"
  using slash_is_piped [of demo_keeper demo_slashing demo_capped val_a val_a 90 7 1 12 demo_capped]
  by (auto simp: demo_slashing_def demo_chain_simps demo_int_string_def decimal.simps piped_ops_def)

text \<open>
  Piping the same change twice in a block is piping it once: the key is the whole entry.  So two
  slashes of a validator that agree in height, power, amount and fraction are reported as one.
\<close>
theorem same_change_once:
  assumes L: "layout_laws (lib k)" and caps: "caps_ok k c" "caps_ok k c'" and op: "op \<noteq> ValsetOperationUndefined"
    and val: "val \<noteq> []" "length val \<le> 255" and si: "op = ValidatorSlashed \<Longrightarrow> si \<noteq> None"
    and first: "mmem c' = mmem (snd (sendAsync k op val si c))"
  shows "mmem (snd (sendAsync k op val si c')) = mmem c'"
proof -
  note key = BuildPipedValsetOpKey_Ok [OF L op val si]
  obtain d where "sendAsync k op val si c = (Ok (), d)"
      "mmem d = kv_set (mmem c) (PipedValsetPrefix @ piped_key op val si) []"
    using sendAsync_run [OF L caps(1) key] by blast
  moreover obtain d' where "sendAsync k op val si c' = (Ok (), d')"
      "mmem d' = kv_set (mmem c') (PipedValsetPrefix @ piped_key op val si) []"
    using sendAsync_run [OF L caps(2) key] by blast
  ultimately show ?thesis
    using first by (simp add: kv_set_same)
qed

theorem same_change_once_witness:
  "mmem (snd (sendAsync demo_keeper ValidatorJailed val_a None demo_piped)) = mmem demo_piped"
proof (rule same_change_once [of demo_keeper demo_capped])
  show "caps_ok demo_keeper demo_piped"
    using demo_caps_ok(2) by (simp add: caps_ok_def demo_piped_def)
  obtain d where "sendAsync demo_keeper ValidatorJailed val_a None demo_capped = (Ok (), d)"
      "mmem d = kv_set (mmem demo_capped) (PipedValsetPrefix @ piped_key ValidatorJailed val_a None) []"
    using sendAsync_run [OF _ _ BuildPipedValsetOpKey_Ok, of demo_keeper demo_capped ValidatorJailed val_a None]
    by auto
  then show "mmem demo_piped = mmem (snd (sendAsync demo_keeper ValidatorJailed val_a None demo_capped))"
    by (simp add: demo_piped_def)
qed simp_all

end
