(* ===== verification/Stable.thy ===== *)
theory Stable
  imports EndBlock
begin

text \<open>
  Invariants of the state along a call.  \<open>stable P m\<close> says that the call \<open>m\<close> leaves a state in
  which \<open>P\<close> holds in such a state, whatever the result; it goes through sequencing, iteration and
  branches of the state.  The locale \<open>store_invariant\<close> is a predicate on the stores and the chain,
  \<open>task_invariant\<close> one that does not mind tasks coming and going; for the latter, scheduling,
  piping of validator-set changes and the whole end blocker are stable.
\<close>

section \<open>Calls\<close>

definition stable :: "('s \<Rightarrow> bool) \<Rightarrow> ('s, 'a) call \<Rightarrow> bool" where
  "stable P m \<longleftrightarrow> (\<forall>s. P s \<longrightarrow> P (snd (m s)))"

named_theorems stable_intros

lemma stableI: "(\<And>s. P s \<Longrightarrow> P (snd (m s))) \<Longrightarrow> stable P m"
  by (simp add: stable_def)

lemma stableD: "stable P m \<Longrightarrow> P s \<Longrightarrow> P (snd (m s))"
  by (simp add: stable_def)

lemma stable_run: "stable P m \<Longrightarrow> P s \<Longrightarrow> m s = (r, t) \<Longrightarrow> P t"
  by (force dest: stableD)

lemma stable_unchanged [stable_intros]:
  "stable P (ret x)" "stable P (fail e)" "stable P (panic t)" "stable P (reading f)"
  by (simp_all add: stable_def reading_apply)

lemma stable_bind [stable_intros]: "stable P m \<Longrightarrow> (\<And>x. stable P (f x)) \<Longrightarrow> stable P (bind m f)"
  by (auto simp: stable_def bind_apply split: prod.splits res.splits)

text \<open>What was read can be relied on.\<close>

lemma stable_bind_reading:
  "(\<And>x. (\<exists>s. P s \<and> f s = Ok x) \<Longrightarrow> stable P (g x)) \<Longrightarrow> stable P (bind (reading f) g)"
  by (auto simp: stable_def bind_apply reading_apply split: res.splits)

lemma stable_attempt [stable_intros]: "stable P m \<Longrightarrow> stable P (attempt m)"
  by (auto simp: stable_def attempt_apply split: prod.splits res.splits)

lemma stable_update: "(\<And>s. P s \<Longrightarrow> P (f s)) \<Longrightarrow> stable P (update_state f)"
  by (simp add: stable_def)

text \<open>A call that looks at its state first.\<close>

lemma stable_looking: "(\<And>s. P s \<Longrightarrow> stable P (m s)) \<Longrightarrow> stable P (\<lambda>s. m s s)"
  by (simp add: stable_def)

lemma stable_iterate [stable_intros]: "(\<And>e a. stable P (cb e a)) \<Longrightarrow> stable P (iterate cb es a)"
  by (induction es arbitrary: a) (auto intro!: stable_intros split: prod.split)

lemma stable_if [stable_intros]: "stable P m \<Longrightarrow> stable P n \<Longrightarrow> stable P (if b then m else n)"
  by simp

lemma stable_case_option [stable_intros]:
  "stable P m \<Longrightarrow> (\<And>x. stable P (f x)) \<Longrightarrow> stable P (case y of None \<Rightarrow> m | Some x \<Rightarrow> f x)"
  by (cases y) simp_all

lemma stable_case_res [stable_intros]:
  "(\<And>x. stable P (f x)) \<Longrightarrow> (\<And>e. stable P (g e)) \<Longrightarrow> (\<And>p. stable P (h p)) \<Longrightarrow>
     stable P (case y of Ok x \<Rightarrow> f x | Err e \<Rightarrow> g e | Panic p \<Rightarrow> h p)"
  by (cases y) simp_all

lemma stable_log_error [stable_intros]: "stable P m \<Longrightarrow> stable P (log_error m)"
  by (auto simp: log_error_def intro!: stable_intros)

lemma stable_visits:
  assumes "\<And>a h r x. stable P (cb a h r x)"
  shows "stable P (IterateScheduledTasks k tp m cb x)"
proof -
  have "stable P (iterate (visit_task k m cb) es x)" for es
    unfolding visit_task_def by (intro stable_intros assms)
  then show ?thesis
    unfolding IterateScheduledTasks_def
    by (intro stable_bind stable_unchanged)
      (rule stable_looking [where m = "\<lambda>s. iterate _ (kv_prefix (mstore s) _) x"])
qed

section \<open>The callbacks\<close>

text \<open>The report reads only; a callback does to the state what the contract does.\<close>

lemma keeps_append_validator: "keeps f (append_validator k app a x)"
  by (simp add: keeps_def append_validator_def split: option.split)

lemma keeps_report_op: "keeps f (report_op k a op si x)"
  using keeps_append_validator [of f k] by (auto simp: keeps_def report_op_def Let_def split: option.split)

lemma keeps_ValsetUpdateReport: "keeps f (ValsetUpdateReport k)"
proof -
  have "keeps f (iteratePipedValsetOperations k (report_op k) x)" for x
  proof -
    have "keeps f (iterate (\<lambda>e a. bind (reading (\<lambda>_. decode_piped (lib k) (fst e)))
        (\<lambda>(addr, op, si). report_op k addr op si a)) es x)" for es
      by (intro keeps_iterate keeps_bind keeps_reading) (auto simp: keeps_report_op split: prod.split)
    then show ?thesis
      unfolding keeps_def iteratePipedValsetOperations_def by blast
  qed
  then show ?thesis
    unfolding ValsetUpdateReport_def by (intro keeps_bind) (auto split: prod.split option.split)
qed

lemma keeps_valset_executor:
  assumes "\<And>msg. keeps f (Sudo (wasm k) a msg)"
  shows "keeps f (valset_executor k a)"
  unfolding valset_executor_def SendValsetUpdate_def
  by (intro keeps_bind keeps_ValsetUpdateReport keeps_reading keeps_doSudoCall assms)

lemma keeps_epoch_executor:
  assumes "\<And>msg. keeps f (Sudo (wasm k) a msg)"
  shows "keeps f (epoch_executor k a)"
  unfolding epoch_executor_def SendHandleEpoch_def by (intro keeps_doSudoCall assms)

lemma stable_keeps: "keeps (\<lambda>s. s) m \<Longrightarrow> stable P m"
  by (simp add: keeps_def stable_def)

lemma stable_executors:
  assumes "\<And>a msg. stable P (Sudo (wasm k) a msg)"
  shows "stable P (valset_executor k a)" and "stable P (epoch_executor k a)"
  unfolding valset_executor_def epoch_executor_def SendValsetUpdate_def SendHandleEpoch_def doSudoCall_def
  by (intro stable_intros assms stable_keeps [OF keeps_ValsetUpdateReport])+

section \<open>Predicates on the stores\<close>

text \<open>
  A predicate on the stores, the chain and the height.  The height of a state may come from another
  one in which the predicate holds: a branch of the state has its header from the parent.
\<close>

locale height_invariant =
  fixes P :: "'x ctx \<Rightarrow> bool"
  assumes same_at: "P c \<Longrightarrow> P e \<Longrightarrow> mstore d = mstore c \<Longrightarrow> chain d = chain c \<Longrightarrow> BlockHeight d = BlockHeight e \<Longrightarrow> P d"
begin

lemma same_height: "P c \<Longrightarrow> mstore d = mstore c \<Longrightarrow> chain d = chain c \<Longrightarrow> BlockHeight d = BlockHeight c \<Longrightarrow> P d"
  by (rule same_at)

lemma branch: "P c \<Longrightarrow> P (open_cache c)" "P c \<Longrightarrow> P d \<Longrightarrow> P (write_cache c d)" "P c \<Longrightarrow> P (drop_cache c d)"
  using same_at [of d c "write_cache c d"] by (simp_all add: same_height [of c])

lemma cached_at: "P c \<Longrightarrow> P (snd (m (open_cache c))) \<Longrightarrow> P (snd (cached m c))"
  by (auto simp: cached_def intro: branch split: prod.split res.split bool.split)

lemma stable_cached: "stable P m \<Longrightarrow> stable P (cached m)"
  by (auto intro!: stableI cached_at dest: stableD branch(1))

lemma stable_ClearPiped: "stable P (update_state (ClearPipedValsetOperations k))"
  by (rule stable_update) (erule same_height, simp_all add: ClearPipedValsetOperations_def)

end

section \<open>Predicates on the tasks\<close>

text \<open>
  A predicate that does not mind the report of a change: a one-shot task at the current height, where
  there was none.  Recording a change is stable for it.
\<close>

locale report_invariant = height_invariant P for P :: "'x ctx \<Rightarrow> bool" +
  assumes put_report: "P c \<Longrightarrow> P e \<Longrightarrow> fst x = BlockHeight e \<Longrightarrow> task_at (mstore c) SchedulerTaskValsetUpdate x = None \<Longrightarrow>
      mstore d = put_task (mstore c) SchedulerTaskValsetUpdate x False \<Longrightarrow> chain d = chain c \<Longrightarrow>
      BlockHeight d = BlockHeight e \<Longrightarrow> P d"
begin

lemma stable_notify:
  assumes "layout_laws (lib k)"
  shows "stable P (notify k a m e)"
proof (rule stableI)
  fix s assume s: "P s"
  have "P (snd (ScheduleOneShotTask k SchedulerTaskValsetUpdate a (BlockHeight s) s))"
    using put_report [OF s s, of "(BlockHeight s, a)"] s
    by (simp add: ScheduleOneShotTask_run [OF assms])
  with s show "P (snd (notify k a m e s))"
    by (auto simp: notify_def bind_apply attempt_apply split: prod.split res.split option.split)
qed

lemma stable_sendAsync:
  assumes "layout_laws (lib k)"
  shows "stable P (sendAsync k op val si)"
proof -
  have "stable P (update_state (\<lambda>c. c\<lparr>mmem := f c\<rparr>))" for f
    by (rule stable_update) (erule same_height, simp_all)
  moreover have "stable P (IterateMaxCapLimit k (notify k) None)"
    unfolding IterateMaxCapLimit_def decode_cap_def
    by (rule stable_looking [where m = "\<lambda>s. iterate _ (kv_prefix (mstore s) MaxCapLimitKeyPrefix) None"])
      (intro stable_intros stable_notify assms)
  ultimately show ?thesis
    unfolding sendAsync_def by (intro stable_intros) (auto intro!: stable_intros split: option.split)
qed

lemma stable_changes:
  assumes "layout_laws (lib k)"
  shows "stable P (ScheduleBonded k a)" and "stable P (ScheduleUnbonded k a)" and "stable P (ScheduleModified k a)"
    and "stable P (ScheduleJailed k a)" and "stable P (ScheduleUnjailed k a)" and "stable P (ScheduleTombstoned k a)"
    and "stable P (ScheduleSlashed k a pw ih amt ratio)"
  using stable_sendAsync [OF assms]
  by (simp_all add: ScheduleBonded_def ScheduleUnbonded_def ScheduleModified_def ScheduleJailed_def
      ScheduleUnjailed_def ScheduleTombstoned_def ScheduleSlashed_def)

end

text \<open>
  A predicate that may say when tasks are due, as long as it minds neither the report of a change
  that is due at once nor tasks that are due later, and no deletion.
\<close>

locale timely_invariant = height_invariant P for P :: "'x ctx \<Rightarrow> bool" +
  assumes put_at: "P c \<Longrightarrow> P e \<Longrightarrow> tp = SchedulerTaskValsetUpdate \<and> fst x = BlockHeight e \<or> BlockHeight e < fst x \<Longrightarrow>
      mstore d = put_task (mstore c) tp x r \<Longrightarrow> chain d = chain c \<Longrightarrow> BlockHeight d = BlockHeight e \<Longrightarrow> P d"
    and del_at: "P c \<Longrightarrow> P e \<Longrightarrow>
      mstore d = del_task (mstore c) tp x \<Longrightarrow> chain d = chain c \<Longrightarrow> BlockHeight d = BlockHeight e \<Longrightarrow> P d"

sublocale timely_invariant \<subseteq> report_invariant
  by unfold_locales (rule put_at, auto)

context timely_invariant
begin

lemma stable_deleteScheduledTask:
  assumes "layout_laws (lib k)" and "tp \<noteq> SchedulerTaskUndefined"
  shows "stable P (deleteScheduledTask k tp a h)"
proof (rule stableI)
  fix c assume "P c"
  then show "P (snd (deleteScheduledTask k tp a h c))"
    using del_at [of c c _ tp "(h, a)"] by (simp add: deleteScheduledTask_run [OF assms])
qed

lemma stable_task_calls:
  assumes L: "layout_laws (lib k)" and tp: "tp \<noteq> SchedulerTaskUndefined"
  shows "stable P (HasScheduledTask k tp a rep)" and "stable P (DeleteAllScheduledTasks k tp a)"
proof -
  show "stable P (HasScheduledTask k tp a rep)"
    unfolding HasScheduledTask_def iterateScheduledContractTasks_def
    by (intro stable_intros stable_visits)
  show "stable P (DeleteAllScheduledTasks k tp a)"
    unfolding DeleteAllScheduledTasks_def iterateScheduledContractTasks_def
    by (intro stable_intros stable_visits stable_deleteScheduledTask L tp)
qed

text \<open>A task leaves the invariant if its callback does; so does a whole run.\<close>

lemma stable_exec_task:
  assumes L: "layout_laws (lib k)" and tp: "tp \<noteq> SchedulerTaskUndefined" and cb: "stable P (cb a)"
  shows "stable P (exec_task k tp epoch cb a h rep acc)"
proof (rule stableI)
  fix c assume c: "P c"
  show "P (snd (exec_task k tp epoch cb a h rep acc c))"
  proof (cases "GetMaxSudoGas k c")
    case (Ok g)
    obtain r d where run: "cb a ((open_cache c)\<lparr>gas_limit := g, gas_used := 0\<rparr>) = (r, d)"
      by fastforce
    have d: "P d"
      by (rule stable_run [OF cb _ run]) (rule same_at [OF c c], simp_all)
    obtain res c' where step: "exec_task k tp epoch cb a h rep acc c = (Ok (False, acc @ [res]), c')"
      and store: "mstore c' = queue.run_task (BlockHeight c) epoch tp ((h, a), rep) (if is_ok r then mstore d else mstore c)"
      and chain: "chain c' = (if is_ok r then chain d else chain c)" and height: "BlockHeight c' = BlockHeight c"
      by (rule exec_task_run [where cb = cb and rep = rep and h = h and acc = acc and epoch = epoch,
          OF L tp Ok run]) blast
    let ?e = "if is_ok r then d else c"
    let ?s = "if rep \<and> epoch \<noteq> 0 \<and> BlockHeight c \<le> BlockHeight c + epoch
      then put_task (mstore ?e) tp (BlockHeight c + epoch, a) True else mstore ?e"
    have e: "P ?e"
      using c d by simp
    have "P (?e\<lparr>mstore := ?s, BlockHeight := BlockHeight c\<rparr>)"
    proof (cases "rep \<and> epoch \<noteq> 0 \<and> BlockHeight c \<le> BlockHeight c + epoch")
      case True
      then have "BlockHeight c < BlockHeight c + epoch"
        by (metis add_cancel_left_right order_le_less)
      with True show ?thesis
        by (intro put_at [OF e c]) simp_all
    next
      case False
      then show ?thesis
        by (intro same_at [OF e c]) auto
    qed
    then have "P c'"
      by (rule del_at [OF _ c, where tp = tp and x = "(h, a)"]) (simp_all add: store chain queue.run_task_def height)
    with step show ?thesis by simp
  qed (use c in \<open>simp_all add: exec_task_def bind_apply\<close>)
qed

text \<open>With a gas limit it returns, reports no error but a wrap of the next height, and its task is gone.\<close>

lemma exec_task_P:
  assumes L: "layout_laws (lib k)" and tp: "tp \<noteq> SchedulerTaskUndefined" and cb: "stable P (cb a)"
    and c: "P c" and g: "GetMaxSudoGas k c = Ok g"
  obtains res d where "exec_task k tp epoch cb a h rep acc c = (Ok (False, acc @ [res]), d)" and "P d"
    and "BlockHeight d = BlockHeight c" and "task_at (mstore d) tp (h, a) = None"
    and "BlockHeight c \<le> BlockHeight c + epoch \<Longrightarrow> RescheduleErr res = None"
proof -
  obtain r b where run: "cb a ((open_cache c)\<lparr>gas_limit := g, gas_used := 0\<rparr>) = (r, b)"
    by fastforce
  obtain res d where step: "exec_task k tp epoch cb a h rep acc c = (Ok (False, acc @ [res]), d)"
    and store: "mstore d = queue.run_task (BlockHeight c) epoch tp ((h, a), rep) (if is_ok r then mstore b else mstore c)"
    and d: "BlockHeight d = BlockHeight c" "BlockHeight c \<le> BlockHeight c + epoch \<Longrightarrow> RescheduleErr res = None"
    by (rule exec_task_run [where cb = cb and rep = rep and h = h and acc = acc and epoch = epoch,
        OF L tp g run]) auto
  have "task_at (mstore d) tp (h, a) = None"
    by (simp add: store queue.run_task_def queue.at_del)
  then show ?thesis
    using that [OF step stable_run [OF stable_exec_task [where cb = cb, OF L tp cb] c step]] d by blast
qed

lemma stable_Exec:
  assumes "layout_laws (lib k)" and "tp \<noteq> SchedulerTaskUndefined" and "\<And>a. stable P (cb a)"
  shows "stable P (ExecScheduledTasks k tp epoch cb)"
proof (rule stableI)
  fix c assume c: "P c"
  have "stable P (iterate (visit_task k h (exec_task k tp epoch cb)) es [])" for h es
    unfolding visit_task_def by (intro stable_intros stable_exec_task assms)
  then have "stable P (IterateScheduledTasks k tp h (exec_task k tp epoch cb) [])" for h
    unfolding IterateScheduledTasks_def
    by (intro stable_bind stable_unchanged)
      (rule stable_looking [where m = "\<lambda>s. iterate _ (kv_prefix (mstore s) _) []"])
  from stableD [OF this c] show "P (snd (ExecScheduledTasks k tp epoch cb c))"
    by (simp add: ExecScheduledTasks_def)
qed

text \<open>The end blocker, with any response handler that only looks at the results.\<close>

lemma stable_EndBlocker:
  assumes L: "layout_laws (lib k)" and sudo: "\<And>a msg. stable P (Sudo (wasm k) a msg)"
    and h: "\<And>r. stable P (h r)"
  shows "stable P (EndBlocker k h)"
proof -
  have "stable P (handle_all h rs)" for rs
    by (induction rs) (simp_all only: handle_all.simps stable_intros h)
  then have "stable P (rspHandler h r)" for r
    by (auto simp: rspHandler_def intro!: stable_intros split: res.split)
  then show ?thesis
    unfolding EndBlocker_def
    by (intro stable_intros stable_Exec stable_executors stable_ClearPiped L sudo) simp_all
qed

end

text \<open>The authority also schedules the epochs of a contract, from the current block on.\<close>

locale scheduling_invariant = timely_invariant P for P :: "'x ctx \<Rightarrow> bool" +
  assumes put_epoch: "P c \<Longrightarrow> P e \<Longrightarrow> BlockHeight e \<le> fst x \<Longrightarrow>
    mstore d = put_task (mstore c) SchedulerTaskHandleEpoch x r \<Longrightarrow> chain d = chain c \<Longrightarrow>
    BlockHeight d = BlockHeight e \<Longrightarrow> P d"
begin

lemma stable_schedule_epoch:
  assumes L: "layout_laws (lib k)"
  shows "stable P (\<lambda>c. ScheduleOneShotTask k SchedulerTaskHandleEpoch a (BlockHeight c) c)"
    and "stable P (ScheduleRegularRebalanceTask k a)"
proof -
  have tp: "SchedulerTaskHandleEpoch \<noteq> SchedulerTaskUndefined" by simp
  show "stable P (\<lambda>c. ScheduleOneShotTask k SchedulerTaskHandleEpoch a (BlockHeight c) c)"
  proof (rule stableI)
    fix c assume c: "P c"
    then show "P (snd (ScheduleOneShotTask k SchedulerTaskHandleEpoch a (BlockHeight c) c))"
      using put_epoch [OF c c, of "(BlockHeight c, a)" _ False] by (simp add: ScheduleOneShotTask_run [OF L tp])
  qed
  show "stable P (ScheduleRegularRebalanceTask k a)"
  proof (rule stableI)
    fix c assume c: "P c"
    have "P (snd (ScheduleRepeatingTask k SchedulerTaskHandleEpoch a h c))" for h
      using put_epoch [OF c c, of "(h, a)" _ True] c by (simp add: ScheduleRepeatingTask_run [OF L tp])
    with c show "P (snd (ScheduleRegularRebalanceTask k a c))"
      by (simp add: ScheduleRegularRebalanceTask_def bind_apply reading_apply split: res.split)
  qed
qed

end

section \<open>Predicates that do not mind tasks\<close>

text \<open>A predicate that does not look at the height is one for any height.\<close>

locale store_invariant =
  fixes P :: "'x ctx \<Rightarrow> bool"
  assumes same: "mstore d = mstore c \<Longrightarrow> chain d = chain c \<Longrightarrow> P c \<Longrightarrow> P d"

sublocale store_invariant \<subseteq> height_invariant
  by unfold_locales (rule same)

locale task_invariant = store_invariant P for P :: "'x ctx \<Rightarrow> bool" +
  assumes put: "P c \<Longrightarrow> mstore d = put_task (mstore c) tp x r \<Longrightarrow> chain d = chain c \<Longrightarrow> P d"
    and del: "P c \<Longrightarrow> mstore d = del_task (mstore c) tp x \<Longrightarrow> chain d = chain c \<Longrightarrow> P d"

sublocale task_invariant \<subseteq> scheduling_invariant
  by unfold_locales (blast intro: put del)+

text \<open>The ledger is what is stored off the schedule.\<close>

lemma ledger_view:
  assumes "\<And>key. off_schedule key \<Longrightarrow> kv_get (mstore d) key = kv_get (mstore c) key"
  shows "max_caps k d = max_caps k c" and "total_caps k d = total_caps k c" and "caps_ok k d = caps_ok k c"
    and "totals_ok k d = totals_ok k c" and "total_delegated k d a = total_delegated k c a"
    and "HasMaxCapLimit d a = HasMaxCapLimit c a" and "GetParams k d = GetParams k c"
    and "max_cap k d a = max_cap k c a"
proof -
  have get: "kv_get (mstore d) (MaxCapLimitKeyPrefix @ x) = kv_get (mstore c) (MaxCapLimitKeyPrefix @ x)"
    "kv_get (mstore d) (TotalDelegatedAmountKeyPrefix @ x) = kv_get (mstore c) (TotalDelegatedAmountKeyPrefix @ x)"
    "kv_get (mstore d) ParamsKey = kv_get (mstore c) ParamsKey" for x
    by (rule assms, simp add: off_schedule_def prefix_defs)+
  have scan: "kv_prefix (mstore d) MaxCapLimitKeyPrefix = kv_prefix (mstore c) MaxCapLimitKeyPrefix"
    "kv_prefix (mstore d) TotalDelegatedAmountKeyPrefix = kv_prefix (mstore c) TotalDelegatedAmountKeyPrefix"
    by (rule kvs.scan_eqI, rule get)+
  show "max_caps k d = max_caps k c"
    by (simp add: max_caps_def scan)
  then show "total_caps k d = total_caps k c"
    by (simp add: total_caps_def)
  show "caps_ok k d = caps_ok k c" "totals_ok k d = totals_ok k c"
    by (simp_all add: caps_ok_def totals_ok_def scan)
  show "total_delegated k d a = total_delegated k c a" "HasMaxCapLimit d a = HasMaxCapLimit c a"
      "max_cap k d a = max_cap k c a"
    by (simp_all add: total_delegated_def total_key HasMaxCapLimit_def max_cap_def cap_key kv_has_def get)
  show "GetParams k d = GetParams k c"
    by (rule GetParams_cong) (rule get)
qed

end
