(* ===== verification/EndBlockProps.thy ===== *)
theory EndBlockProps
  imports SchedulerProps ValsetProps Stable
begin

text \<open>
  The end blocker: one run of each type, what the contracts are told of slashes, when they are told
  nothing, and how the two response handlers treat failed callbacks.
\<close>

section \<open>Callbacks that leave the module alone\<close>

text \<open>
  A contract that is called through \<open>Sudo\<close> may send messages, and bonding or unbonding may fire
  hooks, which schedule reports.  \<open>sudo_laws\<close> is the condition that the called contracts do not: the
  schedule, the parameters and the in-memory store stay.  It is no assumption of the model; a
  statement that needs it names it.
\<close>

definition sudo_laws :: "'x Keeper \<Rightarrow> bool" where
  "sudo_laws k \<longleftrightarrow> (\<forall>a msg. keeps (\<lambda>c. sched_view (mstore c)) (Sudo (wasm k) a msg) \<and>
     keeps mmem (Sudo (wasm k) a msg))"

lemma executors_leave_schedule:
  assumes "sudo_laws k"
  shows "leaves_schedule (valset_executor k)" and "leaves_schedule (epoch_executor k)"
  using assms by (auto simp: sudo_laws_def leaves_schedule_def intro!: keeps_valset_executor keeps_epoch_executor)

section \<open>One run of each type\<close>

lemma tasks_ok_view: "sched_view s = sched_view t \<Longrightarrow> tasks_ok s tp = tasks_ok t tp"
  by (simp add: tasks_ok_iff sched_view_eq)

lemma tasks_ok_run_task: "tasks_ok s tp \<Longrightarrow> tasks_ok (queue.run_task cur epoch tp' e s) tp"
  by (auto simp: queue.run_task_def intro!: tasks_ok_del split: prod.splits)

lemma tasks_ok_run_tasks: "tasks_ok s tp \<Longrightarrow> tasks_ok (fold (queue.run_task cur epoch tp') es s) tp"
  by (induction es arbitrary: s) (simp_all add: tasks_ok_run_task)

lemma run_tasks_params: "kv_get (fold (queue.run_task cur epoch tp) es s) ParamsKey = kv_get s ParamsKey"
  by (induction es arbitrary: s) simp_all

abbreviation after_run :: "u64 \<Rightarrow> u64 \<Rightarrow> SchedulerTaskType \<Rightarrow> kvstore \<Rightarrow> kvstore" where
  "after_run cur epoch tp s \<equiv> fold (queue.run_task cur epoch tp) (due_tasks s tp cur) s"

lemma handle_all_default:
  "list_all (\<lambda>r. RescheduleErr r = None) rs \<Longrightarrow> handle_all DefaultExecutionResponseHandler rs c = (Ok (), c)"
  by (induction rs) (simp_all add: DefaultExecutionResponseHandler_def bind_apply)

lemma reports_scheduled:
  "list_all2 (reports cur epoch g) ts rs \<Longrightarrow> cur \<le> cur + epoch \<Longrightarrow> list_all (\<lambda>r. RescheduleErr r = None) rs"
  by (induction rule: list_all2_induct) (simp_all add: reports_def)

lemma one_run:
  assumes L: "layout_laws (lib k)" and tp: "tp \<noteq> SchedulerTaskUndefined" and cb: "leaves_schedule cb"
    and mem: "\<And>a. keeps mmem (cb a)" and wf: "tasks_ok (mstore c) tp" and p: "GetParams k c = Ok p"
    and no_wrap: "BlockHeight c \<le> BlockHeight c + epoch"
  obtains d where "bind (attempt (ExecScheduledTasks k tp epoch cb)) (rspHandler DefaultExecutionResponseHandler) c = (Ok (), d)"
    and "sched_view (mstore d) = sched_view (after_run (BlockHeight c) epoch tp (mstore c))"
    and "mmem d = mmem c" and "BlockHeight d = BlockHeight c" and "GetParams k d = Ok p"
proof -
  have g: "GetMaxSudoGas k c = Ok (ucast (MaxGasEndBlocker p))"
    by (simp add: GetMaxSudoGas_def p)
  obtain rs d where run: "ExecScheduledTasks k tp epoch cb c = (Ok rs, d)"
      "list_all2 (reports (BlockHeight c) epoch (ucast (MaxGasEndBlocker p))) (due_tasks (mstore c) tp (BlockHeight c)) rs"
    and d: "BlockHeight d = BlockHeight c"
      "sched_view (mstore d) = sched_view (after_run (BlockHeight c) epoch tp (mstore c))"
    by (rule ExecScheduledTasks_run [OF L tp cb wf g])
  have "fst (snd (world (snd (ExecScheduledTasks k tp epoch cb c)))) = mmem c"
    by (rule ExecScheduledTasks_world [where P = "\<lambda>w. fst (snd w) = mmem c", OF L])
      (auto simp: world_def dest: keepsD [OF mem])
  then have "mmem d = mmem c"
    by (simp add: run world_def)
  moreover have "GetParams k d = Ok p"
    using d(2) by (auto simp: sched_view_eq run_tasks_params p [symmetric] intro!: GetParams_cong)
  ultimately show ?thesis
    using run d by (intro that [of d]) (simp_all add: bind_apply attempt_apply rspHandler_def
        handle_all_default reports_scheduled [OF run(2) no_wrap])
qed

section \<open>The whole block\<close>

lemma EndBlocker_parts:
  "EndBlocker k h = bind (reading (GetRebalanceEpochLength k)) (\<lambda>e.
     bind (bind (attempt (ExecScheduledTasks k SchedulerTaskValsetUpdate e (valset_executor k))) (rspHandler h)) (\<lambda>_.
     bind (update_state (ClearPipedValsetOperations k)) (\<lambda>_.
     bind (attempt (ExecScheduledTasks k SchedulerTaskHandleEpoch e (epoch_executor k))) (rspHandler h))))"
  by (simp add: EndBlocker_def bind_assoc)

lemma epoch_word: "unat (ucast (w :: u32) :: u64) = unat w"
proof -
  have "unat w < 2 ^ LENGTH(32)"
    by (rule unsigned_less)
  then show ?thesis
    by (simp add: unsigned_ucast_eq take_bit_nat_eq_self)
qed

lemma EndBlocker_run:
  assumes L: "layout_laws (lib k)" and sudo: "sudo_laws k" and p: "GetParams k c = Ok p"
    and wf: "tasks_ok (mstore c) SchedulerTaskValsetUpdate" "tasks_ok (mstore c) SchedulerTaskHandleEpoch"
    and no_wrap: "BlockHeight c \<le> BlockHeight c + ucast (EpochLength p)"
  obtains d where "EndBlocker k DefaultExecutionResponseHandler c = (Ok (), d)"
    and "sched_view (mstore d) = sched_view (after_run (BlockHeight c) (ucast (EpochLength p)) SchedulerTaskHandleEpoch
      (after_run (BlockHeight c) (ucast (EpochLength p)) SchedulerTaskValsetUpdate (mstore c)))"
    and "mmem d = mmem (ClearPipedValsetOperations k c)" and "BlockHeight d = BlockHeight c"
proof -
  let ?e = "ucast (EpochLength p) :: u64"
  note keep = executors_leave_schedule [OF sudo]
  have mem: "keeps mmem (valset_executor k a)" "keeps mmem (epoch_executor k a)" for a
    using sudo by (auto simp: sudo_laws_def intro: keeps_valset_executor keeps_epoch_executor)
  obtain d1 where d1: "bind (attempt (ExecScheduledTasks k SchedulerTaskValsetUpdate ?e (valset_executor k)))
      (rspHandler DefaultExecutionResponseHandler) c = (Ok (), d1)"
    and s1: "sched_view (mstore d1) = sched_view (after_run (BlockHeight c) ?e SchedulerTaskValsetUpdate (mstore c))"
    and m1: "mmem d1 = mmem c" "BlockHeight d1 = BlockHeight c" "GetParams k d1 = Ok p"
    by (rule one_run [OF L _ keep(1) mem(1) wf(1) p no_wrap]) simp
  define c2 where "c2 = ClearPipedValsetOperations k d1"
  have c2: "mstore c2 = mstore d1" "BlockHeight c2 = BlockHeight c" "GetParams k c2 = Ok p"
    using m1 GetParams_cong [of c2 d1 k] by (simp_all add: c2_def)
  have mem2: "mmem c2 = mmem (ClearPipedValsetOperations k c)"
    by (simp add: c2_def Clear_scan m1(1))
  have wf2: "tasks_ok (mstore c2) SchedulerTaskHandleEpoch"
    using tasks_ok_view [OF s1] wf(2) by (simp add: c2 tasks_ok_run_tasks)
  have no_wrap2: "BlockHeight c2 \<le> BlockHeight c2 + ?e"
    using no_wrap by (simp add: c2)
  obtain d where d: "bind (attempt (ExecScheduledTasks k SchedulerTaskHandleEpoch ?e (epoch_executor k)))
      (rspHandler DefaultExecutionResponseHandler) c2 = (Ok (), d)"
    and s2: "sched_view (mstore d) = sched_view (after_run (BlockHeight c2) ?e SchedulerTaskHandleEpoch (mstore c2))"
    and m2: "mmem d = mmem c2" "BlockHeight d = BlockHeight c2"
    by (rule one_run [OF L _ keep(2) mem(2) wf2 c2(3) no_wrap2]) simp
  have "EndBlocker k DefaultExecutionResponseHandler c = (Ok (), d)"
  proof -
    have "reading (GetRebalanceEpochLength k) c = (Ok ?e, c)"
      by (simp add: GetRebalanceEpochLength_def p)
    then show ?thesis
      unfolding EndBlocker_parts by (subst bind_Ok, assumption)
        (simp add: bind_Ok [where m = "bind (attempt _) _", OF d1] bind_Ok [OF update_state_apply] d [unfolded c2_def])
  qed
  moreover have "sched_view (mstore d) = sched_view (after_run (BlockHeight c) ?e SchedulerTaskHandleEpoch
      (after_run (BlockHeight c) ?e SchedulerTaskValsetUpdate (mstore c)))"
    using s2 sched_viewD(2) [OF s1] sched_view_run_tasks [OF s1] by (simp add: c2)
  ultimately show ?thesis
    using m2 mem2 c2 by (intro that [of d]) simp_all
qed

lemma demo_sudo_laws [simp]: "sudo_laws demo_keeper"
  by (simp add: sudo_laws_def keeps_def demo_wasm_def demo_sudo_def Let_def)

section \<open>What the contracts are told of slashes\<close>

text \<open>
  A \<open>Dec\<close> of the SDK is an integer scaled by \<open>10^18\<close>.  As it documents them: a quotient is rounded
  to a neighbouring decimal, a product with an integer is exact as long as it fits into 315 bits,
  and \<open>RoundInt\<close> is a nearest integer.
\<close>

definition dec_one :: int where "dec_one = 1000000000000000000"

definition dec_laws :: "sdk_lib \<Rightarrow> bool" where
  "dec_laws L \<longleftrightarrow>
     (\<forall>a b. 0 \<le> a \<and> a \<le> b \<and> 0 < b \<longrightarrow> (\<exists>q. dec_quo L a b = Ok q \<and> \<bar>q * b - a * dec_one\<bar> < b)) \<and>
     (\<forall>d i. \<bar>d * i\<bar> < 2 ^ 315 \<longrightarrow> dec_mul_int L d i = Ok (d * i)) \<and>
     (\<forall>d. 0 \<le> d \<and> d < 2 ^ 315 \<longrightarrow> (\<exists>i. dec_round_int L d = Ok i \<and> 2 * \<bar>i * dec_one - d\<bar> \<le> dec_one))"

lemma dec_lawsD:
  assumes "dec_laws L"
  shows "0 \<le> a \<Longrightarrow> a \<le> b \<Longrightarrow> 0 < b \<Longrightarrow> \<exists>q. dec_quo L a b = Ok q \<and> \<bar>q * b - a * dec_one\<bar> < b"
    and "\<bar>d * i\<bar> < 2 ^ 315 \<Longrightarrow> dec_mul_int L d i = Ok (d * i)"
    and "0 \<le> d \<Longrightarrow> d < 2 ^ 315 \<Longrightarrow> \<exists>i. dec_round_int L d = Ok i \<and> 2 * \<bar>i * dec_one - d\<bar> \<le> dec_one"
  using assms by (simp_all add: dec_laws_def)

text \<open>
  What a fair part of a total is, for a delegator with \<open>shares\<close> of \<open>all\<close>: between zero and the tot,
  nothing for no shares and the tot for all of them, and off the exact fraction by at most half a
  token and what the decimals cannot express.
\<close>

definition fair_part :: "int \<Rightarrow> int \<Rightarrow> int \<Rightarrow> int \<Rightarrow> bool" where
  "fair_part tot shares all part \<longleftrightarrow> 0 \<le> part \<and> part \<le> tot \<and>
     2 * dec_one * \<bar>part * all - tot * shares\<bar> \<le> all * (dec_one + 2 * tot) \<and>
     (shares = 0 \<longrightarrow> part = 0) \<and> (shares = all \<and> all \<noteq> 0 \<longrightarrow> part = tot)"

lemma rounding_within:
  fixes q s a :: int
  assumes "\<bar>q * b - a * s\<bar> < b" and "0 \<le> a" and "a \<le> b" and "0 \<le> s"
  shows "0 \<le> q" and "q \<le> s" and "a = 0 \<Longrightarrow> q = 0" and "a = b \<Longrightarrow> q = s"
proof -
  have b: "0 < b" using assms(1) by linarith
  have as: "0 \<le> a * s" "a * s \<le> b * s"
    using assms by (simp_all add: mult_right_mono)
  have "- 1 * b < q * b"
    using assms(1) as by linarith
  then show pos: "0 \<le> q"
    using b by (simp only: mult_less_cancel_right_pos)
  have up: "q * b < (s + 1) * b"
    using assms(1) as by (simp add: algebra_simps)
  then show "q \<le> s"
    using b by (simp only: mult_less_cancel_right_pos)
  show "q = 0" if "a = 0"
  proof -
    have "q * b < 1 * b"
      using assms(1) that by simp
    with pos b show ?thesis by (simp only: mult_less_cancel_right_pos)
  qed
  show "q = s" if "a = b"
  proof -
    have "(s - 1) * b < q * b"
      using assms(1) that by (simp add: algebra_simps)
    with \<open>q \<le> s\<close> b show ?thesis by (simp only: mult_less_cancel_right_pos)
  qed
qed

lemma half_abs: "2 * \<bar>x\<bar> \<le> s \<Longrightarrow> 2 * x \<le> s \<and> 2 * - x \<le> s" for x s :: int
  by linarith

lemma fair_partI:
  fixes q i :: int
  assumes q: "\<bar>q * all - shares * dec_one\<bar> < all" and i: "2 * \<bar>i * dec_one - q * tot\<bar> \<le> dec_one"
    and range: "0 \<le> shares" "shares \<le> all" "0 \<le> tot"
  shows "fair_part tot shares all i"
proof -
  have one: "0 < dec_one" by (simp add: dec_one_def)
  note q_range = rounding_within [OF q range(1,2) less_imp_le [OF one]]
  have prod: "0 \<le> q * tot" "q * tot \<le> dec_one * tot"
    using q_range range by (simp_all add: mult_right_mono)
  have near: "x = y" if "2 * \<bar>x * dec_one - y * dec_one\<bar> \<le> dec_one" for x y :: int
    using that by (simp add: dec_one_def)
  have "2 * (i * dec_one - q * tot) \<le> dec_one" "2 * (q * tot - i * dec_one) \<le> dec_one"
    using half_abs [OF i] by simp_all
  then have "- 1 * dec_one < i * dec_one" "i * dec_one < (tot + 1) * dec_one"
    using prod one unfolding distrib_right by (simp_all add: mult.commute)
  then have "0 \<le> i" "i \<le> tot"
    using one by (simp_all only: mult_less_cancel_right_pos)
  moreover have "2 * dec_one * \<bar>i * all - tot * shares\<bar> \<le> all * (dec_one + 2 * tot)"
  proof -
    define A B X where "A = i * dec_one - q * tot" and "B = q * all - shares * dec_one" and "X = i * all - tot * shares"
    have "dec_one * \<bar>X\<bar> = \<bar>dec_one * X\<bar>"
      using one by (simp add: abs_mult)
    also have "dec_one * X = all * A + tot * B"
      by (simp add: A_def B_def X_def algebra_simps)
    also have "\<bar>all * A + tot * B\<bar> \<le> \<bar>all * A\<bar> + \<bar>tot * B\<bar>"
      by (rule abs_triangle_ineq)
    also have "\<dots> = all * \<bar>A\<bar> + tot * \<bar>B\<bar>"
      using range by (simp add: abs_mult)
    finally have "2 * dec_one * \<bar>X\<bar> \<le> all * (2 * \<bar>A\<bar>) + 2 * (tot * \<bar>B\<bar>)"
      by simp
    also have "\<dots> \<le> all * dec_one + 2 * (tot * all)"
      using q i range unfolding A_def [symmetric] B_def [symmetric]
      by (intro add_mono mult_left_mono) simp_all
    also have "\<dots> = all * (dec_one + 2 * tot)"
      by (simp add: algebra_simps)
    finally show ?thesis
      by (simp only: X_def)
  qed
  moreover have "shares = 0 \<longrightarrow> i = 0" "shares = all \<and> all \<noteq> 0 \<longrightarrow> i = tot"
    using i q_range(3,4) near [of i 0] near [of i tot] by (auto simp: mult.commute)
  ultimately show ?thesis
    by (simp add: fair_part_def)
qed

text \<open>An entry of the report with the total it names and the shares that it is divided by.\<close>

definition slash_numbers :: "'x Keeper \<Rightarrow> 'x ctx \<Rightarrow> bytes \<Rightarrow> ValidatorSlash \<Rightarrow> int \<Rightarrow> int \<Rightarrow> int \<Rightarrow> bool" where
  "slash_numbers k c contract s tot shares all \<longleftrightarrow> (\<exists>val v.
     val_from_bech32 (lib k) (vs_ValidatorAddr s) = Ok val \<and> GetValidator (Staking k) (chain c) val = Some v \<and>
     vs_SlashAmount s = int_string (lib k) tot \<and> all = DelegatorShares v \<and>
     shares = (case GetDelegation (Staking k) (chain c) contract val of None \<Rightarrow> 0 | Some sh \<Rightarrow> sh))"

lemma adjust_slash_fair:
  assumes laws: "int_laws (lib k)" "dec_laws (lib k)" and s: "slash_numbers k c contract s tot shares all"
    and range: "0 \<le> shares" "shares \<le> all" "0 \<le> tot" "tot < 2 ^ 255"
  obtains part where "adjust_slash k c contract s = Ok (s\<lparr>vs_SlashAmount := int_string (lib k) part\<rparr>)"
    and "fair_part tot shares all part"
proof -
  obtain val v where val: "val_from_bech32 (lib k) (vs_ValidatorAddr s) = Ok val"
    and v: "GetValidator (Staking k) (chain c) val = Some v" "all = DelegatorShares v"
    and tot: "int_from_string (lib k) (vs_SlashAmount s) = Some tot"
    and shares: "shares = (case GetDelegation (Staking k) (chain c) contract val of None \<Rightarrow> 0 | Some sh \<Rightarrow> sh)"
    using s int_lawsD(4) [OF laws(1)] by (auto simp: slash_numbers_def)
  show ?thesis
  proof (cases "all = 0")
    case True
    obtain i where i: "dec_round_int (lib k) 0 = Ok i" "2 * \<bar>i * dec_one - 0\<bar> \<le> dec_one"
      using dec_lawsD(3) [OF laws(2), of 0] by auto
    have "i = 0"
      using i(2) by (simp add: dec_one_def)
    with True i range show ?thesis
      by (intro that [of 0]) (simp_all add: adjust_slash_def val v tot delegator_slash_def fair_part_def dec_one_def)
  next
    case False
    then have pos: "0 < all" using range by linarith
    obtain q where q: "dec_quo (lib k) shares all = Ok q" "\<bar>q * all - shares * dec_one\<bar> < all"
      using dec_lawsD(1) [OF laws(2) range(1,2) pos] by blast
    have q_range: "0 \<le> q" "q \<le> dec_one"
      by (rule rounding_within [OF q(2) range(1,2)], simp add: dec_one_def)+
    have "q * tot \<le> dec_one * (2 ^ 255 - 1)"
      using q_range range by (intro mult_mono) simp_all
    then have d: "0 \<le> q * tot" "q * tot < 2 ^ 315"
      using q_range range by (simp_all add: dec_one_def)
    obtain i where i: "dec_round_int (lib k) (q * tot) = Ok i" "2 * \<bar>i * dec_one - q * tot\<bar> \<le> dec_one"
      using dec_lawsD(3) [OF laws(2) d] by blast
    have "dec_mul_int (lib k) q tot = Ok (q * tot)"
      using d by (intro dec_lawsD(2) [OF laws(2)]) simp
    then show ?thesis
      using False q i v(2) shares fair_partI [OF q(2) i(2) range(1-3)]
      by (intro that [of i]) (simp_all add: adjust_slash_def val v(1) tot delegator_slash_def Let_def)
  qed
qed

lemma adjust_slashes_fair:
  assumes laws: "int_laws (lib k)" "dec_laws (lib k)"
  shows "\<forall>s \<in> set ss. \<exists>tot shares all. slash_numbers k c contract s tot shares all \<and>
      0 \<le> shares \<and> shares \<le> all \<and> 0 \<le> tot \<and> tot < 2 ^ 255 \<Longrightarrow>
    \<exists>ts. adjust_slashes k c contract ss = Ok ts \<and> list_all2 (\<lambda>s t. \<exists>tot shares all part.
      slash_numbers k c contract s tot shares all \<and> fair_part tot shares all part \<and>
      t = s\<lparr>vs_SlashAmount := int_string (lib k) part\<rparr>) ss ts"
proof (induction ss)
  case (Cons s ss)
  then obtain tot shares all where s: "slash_numbers k c contract s tot shares all"
    and range: "0 \<le> shares" "shares \<le> all" "0 \<le> tot" "tot < 2 ^ 255"
    by auto
  obtain part where "adjust_slash k c contract s = Ok (s\<lparr>vs_SlashAmount := int_string (lib k) part\<rparr>)"
    and "fair_part tot shares all part"
    by (rule adjust_slash_fair [OF laws s range])
  moreover obtain ts where "adjust_slashes k c contract ss = Ok ts" "list_all2 (\<lambda>s t. \<exists>tot shares all part.
      slash_numbers k c contract s tot shares all \<and> fair_part tot shares all part \<and>
      t = s\<lparr>vs_SlashAmount := int_string (lib k) part\<rparr>) ss ts"
    using Cons by auto
  ultimately show ?case
    using s by auto
qed simp

text \<open>
  C28.  What a contract is told of the slashes of a block: as long as their validators are known, the
  totals are below \<open>2 ^ 255\<close> and the contract's shares within those of the validator, the callback
  sends one message, the report of the piped operations, in which every slash is reduced
  to a fair part for the contract's share of the validator: never negative and never above the
  total, nothing without a delegation, everything for the only delegator, and otherwise within half
  a token of the exact fraction plus the total over \<open>10^18\<close>.
\<close>
theorem slashes_are_shared_fairly:
  assumes laws: "int_laws (lib k)" "dec_laws (lib k)" and ok: "piped_ok k c"
    and report: "report = report_of k c (piped_ops (lib k) (mmem c))"
    and known: "\<forall>s \<in> set (Slashed report). \<exists>tot shares all. slash_numbers k c contract s tot shares all \<and>
      0 \<le> shares \<and> shares \<le> all \<and> 0 \<le> tot \<and> tot < 2 ^ 255"
  shows "\<exists>sent. valset_executor k contract c =
      doSudoCall k contract (SudoMsg None (Some (report\<lparr>Slashed := sent\<rparr>))) c \<and>
    list_all2 (\<lambda>s t. \<exists>tot shares all part.
      slash_numbers k c contract s tot shares all \<and> fair_part tot shares all part \<and>
      t = s\<lparr>vs_SlashAmount := int_string (lib k) part\<rparr>) (Slashed report) sent"
proof -
  obtain sent where sent: "adjust_slashes k c contract (Slashed report) = Ok sent"
      "list_all2 (\<lambda>s t. \<exists>tot shares all part.
        slash_numbers k c contract s tot shares all \<and> fair_part tot shares all part \<and>
        t = s\<lparr>vs_SlashAmount := int_string (lib k) part\<rparr>) (Slashed report) sent"
    using adjust_slashes_fair [OF laws known] by blast
  then show ?thesis
    using ValsetUpdateReport_run [OF ok]
    by (intro exI [of _ sent]) (simp add: valset_executor_def bind_apply report SendValsetUpdate_def)
qed

text \<open>A slash of 12 tokens; the contract has half of the validator's shares.\<close>

definition demo_slash :: SlashInfo where
  "demo_slash = \<lparr>InfractionHeight = 7, Power = 90, TotalSlashAmount = ''12'', SlashFraction = ''1''\<rparr>"

definition demo_slashed :: "demo_chain ctx" where
  "demo_slashed = demo_capped\<lparr>mmem := kv_set kv_empty (PipedValsetPrefix @ piped_key ValidatorSlashed val_a (Some demo_slash)) []\<rparr>"

lemma demo_slashed_ops:
  "piped_ops demo_lib (mmem demo_slashed) = [(val_a, ValidatorSlashed, Some (demo_slash\<lparr>Power := 7, InfractionHeight := 90\<rparr>))]"
  using decode_slashed [of demo_lib val_a demo_slash]
  by (simp add: piped_ops_def demo_slashed_def kv_prefix_single) (simp add: demo_slash_def val_a_def)

lemma demo_slashed_ok [simp]: "piped_ok demo_keeper demo_slashed"
  using demo_slashed_ops decode_slashed [of demo_lib val_a demo_slash]
  by (simp add: piped_ok_def) (simp add: demo_slashed_def kv_prefix_single demo_slash_def val_a_def op_defs)

lemma demo_dec_laws [simp]: "dec_laws demo_lib"
proof -
  have "\<bar>(a * scale div b) * b - a * scale\<bar> < b" if "0 < b" for a b :: int
    using pos_mod_bound [OF that, of "a * scale"] pos_mod_sign [OF that, of "a * scale"]
    by (simp add: minus_mod_eq_div_mult [symmetric])
  then show ?thesis
    by (auto simp: dec_laws_def demo_lib_def dec_one_def scale_def)
qed

theorem slashes_are_shared_fairly_witness:
  "\<exists>v. valset_executor demo_keeper con_a demo_slashed =
    doSudoCall demo_keeper con_a (SudoMsg None (Some v)) demo_slashed \<and>
    map vs_SlashAmount (Slashed v) = [''6''] \<and> map vs_Power (Slashed v) = [7]"
proof -
  let ?r = "report_of demo_keeper demo_slashed (piped_ops demo_lib (mmem demo_slashed))"
  let ?s = "slash_entry demo_lib demo_slashed val_a (demo_slash\<lparr>Power := 7, InfractionHeight := 90\<rparr>)"
  have slashed: "Slashed ?r = [?s]"
    by (simp add: demo_slashed_ops report_of_def)
  have v: "demo_int_string 12 = ''12''" "demo_int_string 6 = ''6''"
    by code_simp+
  then have twelve: "demo_int_string tot = ''12'' \<longleftrightarrow> tot = 12" for tot
    using demo_int_parse_string by (metis option.inject)
  have lib: "bytes_string val_a = ''vala''" "string_bytes ''vala'' = val_a"
      "GetDelegation (NewStakingKeeperAdapter demo_lib demo_staking demo_bank) x a b = Some (5 * scale)" for x a b
    by (simp_all add: val_a_def) (simp add: NewStakingKeeperAdapter_def demo_staking_def SDKStakingKeeper.defs XStakingKeeper.defs)
  have numbers: "slash_numbers demo_keeper demo_slashed con_a ?s tot sh all \<longleftrightarrow>
      tot = 12 \<and> sh = 5 * scale \<and> all = 10 * scale" for tot sh all
    using twelve [of tot] by (auto simp: slash_numbers_def slash_entry_def demo_slash_def demo_validator_def lib
        demo_slashed_def demo_chain_simps)
  have part: "part = 6" if "fair_part 12 (5 * scale) (10 * scale) part" for part
  proof -
    have "\<bar>part * 10000000000000000000 - 60000000000000000000\<bar> \<le> 5000000000000000120"
      using that by (simp add: fair_part_def dec_one_def scale_def)
    then have "5 < part" "part < 7" by linarith+
    then show ?thesis by linarith
  qed
  obtain sent where "valset_executor demo_keeper con_a demo_slashed =
      doSudoCall demo_keeper con_a (SudoMsg None (Some (?r\<lparr>Slashed := sent\<rparr>))) demo_slashed"
    and "list_all2 (\<lambda>s t. \<exists>tot shares all part.
      slash_numbers demo_keeper demo_slashed con_a s tot shares all \<and> fair_part tot shares all part \<and>
      t = s\<lparr>vs_SlashAmount := int_string demo_lib part\<rparr>) [?s] sent"
    using slashes_are_shared_fairly [of demo_keeper demo_slashed ?r con_a]
    by (auto simp: slashed numbers scale_def)
  moreover from this(2) have "sent = [?s\<lparr>vs_SlashAmount := ''6''\<rparr>]"
    using part v by (auto simp: numbers list_all2_Cons1)
  ultimately show ?thesis
    by (intro exI [of _ "?r\<lparr>Slashed := sent\<rparr>"]) (simp add: slash_entry_def)
qed

text \<open>
  A run in which every call fails: the results say so, and only the schedule has moved.
\<close>

lemma exec_tasks_fail:
  assumes L: "layout_laws (lib k)" and tp: "tp \<noteq> SchedulerTaskUndefined"
    and fails: "\<And>a p. world p = w \<Longrightarrow> \<not> is_ok (fst (cb a p))"
  shows "world c = w \<Longrightarrow> GetMaxSudoGas k c = Ok g \<Longrightarrow>
    \<exists>rs d. iterate (visit (exec_task k tp epoch cb)) ts acc c = (Ok (acc @ rs), d) \<and> world d = w \<and>
      length rs = length ts \<and> (\<forall>r \<in> set rs. ExecErr r \<noteq> None) \<and>
      mstore d = fold (queue.run_task (BlockHeight c) epoch tp) ts (mstore c)"
proof (induction ts arbitrary: acc c)
  case (Cons t ts)
  obtain h a rep where t: "t = ((h, a), rep)"
    by (cases t) auto
  obtain r e where run: "cb a ((open_cache c)\<lparr>gas_limit := g, gas_used := 0\<rparr>) = (r, e)"
    by fastforce
  have r: "\<not> is_ok r"
    using fails [of "(open_cache c)\<lparr>gas_limit := g, gas_used := 0\<rparr>" a] Cons.prems(1) by (simp add: run)
  then have err: "safeExec r \<noteq> None"
    by (cases r) (simp_all add: safeExec_def)
  obtain res c1 where step: "exec_task k tp epoch cb a h rep acc c = (Ok (False, acc @ [res]), c1)"
    and c1: "mstore c1 = queue.run_task (BlockHeight c) epoch tp t (mstore c)" "mmem c1 = mmem c" "chain c1 = chain c"
      "BlockHeight c1 = BlockHeight c" and res: "ExecErr res \<noteq> None"
    by (rule exec_task_run [where cb = cb and a = a and epoch = epoch and h = h and rep = rep and acc = acc,
        OF L tp Cons.prems(2) run]) (use r err in \<open>simp add: t\<close>)
  have w: "world c1 = w"
    using c1 Cons.prems(1) by (auto intro: trans [OF world_cong])
  have g: "GetMaxSudoGas k c1 = Ok g"
    using Cons.prems(2) GetParams_cong [of c1 c k] by (simp add: GetMaxSudoGas_def c1(1))
  from Cons.IH [OF w g, of "acc @ [res]"] show ?case
    using step res by (force simp: bind_apply visit_def t c1(1,4) [unfolded t])
qed simp

lemma adjust_slashes_fails: "s \<in> set ss \<Longrightarrow> \<not> is_ok (adjust_slash k c contract s) \<Longrightarrow> \<not> is_ok (adjust_slashes k c contract ss)"
  by (induction ss) (auto simp: is_ok_iff bindR_eq_Ok)

lemma removed_validator_fails:
  assumes "piped_ok k c" and "(a, ValidatorSlashed, Some si) \<in> set (piped_ops (lib k) (mmem c))"
    and "val_from_bech32 (lib k) (val_string (lib k) a) = Ok a" and "GetValidator (Staking k) (chain c) a = None"
  shows "\<not> is_ok (fst (valset_executor k contract c))"
proof -
  have "slash_entry (lib k) c a si \<in> set (Slashed (report_of k c (piped_ops (lib k) (mmem c))))"
    using assms(2) by (force simp: report_of_def Let_def)
  then have "\<not> is_ok (adjust_slashes k c contract (Slashed (report_of k c (piped_ops (lib k) (mmem c)))))"
    by (rule adjust_slashes_fails) (simp add: adjust_slash_def slash_entry_def assms(3,4) is_ok_def split: option.split)
  then show ?thesis
    by (auto simp: valset_executor_def bind_apply ValsetUpdateReport_run [OF assms(1)] is_ok_def split: res.splits)
qed

text \<open>
  C29.  One slash of a validator that is gone by the end of the block silences the whole report: the
  callback of every contract that is due fails before anything is sent, nothing but the schedule
  changes, and the one-shot tasks are used up.  The end blocker then clears the operations, so that
  no contract learns of any change of this block.
\<close>
theorem removed_validator_silences_report:
  assumes L: "layout_laws (lib k)" and ok: "piped_ok k c"
    and op: "(a, ValidatorSlashed, Some si) \<in> set (piped_ops (lib k) (mmem c))"
    and addr: "val_from_bech32 (lib k) (val_string (lib k) a) = Ok a" and gone: "GetValidator (Staking k) (chain c) a = None"
    and wf: "tasks_ok (mstore c) SchedulerTaskValsetUpdate" and g: "GetMaxSudoGas k c = Ok g"
  shows "\<exists>rs d. ExecScheduledTasks k SchedulerTaskValsetUpdate epoch (valset_executor k) c = (Ok rs, d) \<and>
    length rs = length (due_tasks (mstore c) SchedulerTaskValsetUpdate (BlockHeight c)) \<and>
    (\<forall>r \<in> set rs. ExecErr r \<noteq> None) \<and> world d = world c \<and>
    (\<forall>h b. h \<le> BlockHeight c \<longrightarrow> task_at (mstore d) SchedulerTaskValsetUpdate (h, b) \<noteq> Some False) \<and>
    piped_ops (lib k) (mmem (ClearPipedValsetOperations k d)) = []"
proof -
  have tp: "SchedulerTaskValsetUpdate \<noteq> SchedulerTaskUndefined"
    by simp
  have fails: "\<not> is_ok (fst (valset_executor k b p))" if "world p = world c" for b p
  proof -
    have "mmem p = mmem c" "chain p = chain c"
      using that by (simp_all add: world_def)
    then show ?thesis
      using ok op addr gone by (intro removed_validator_fails) (auto simp: piped_ok_def)
  qed
  obtain rs d where "iterate (visit (exec_task k SchedulerTaskValsetUpdate epoch (valset_executor k)))
      (due_tasks (mstore c) SchedulerTaskValsetUpdate (BlockHeight c)) [] c = (Ok ([] @ rs), d)"
    and d: "world d = world c" "length rs = length (due_tasks (mstore c) SchedulerTaskValsetUpdate (BlockHeight c))"
      "\<forall>r \<in> set rs. ExecErr r \<noteq> None"
      "mstore d = fold (queue.run_task (BlockHeight c) epoch SchedulerTaskValsetUpdate)
        (due_tasks (mstore c) SchedulerTaskValsetUpdate (BlockHeight c)) (mstore c)"
    using exec_tasks_fail [where cb = "valset_executor k" and w = "world c" and epoch = epoch and acc = "[]",
        OF L tp fails refl g] by blast
  then have "ExecScheduledTasks k SchedulerTaskValsetUpdate epoch (valset_executor k) c = (Ok rs, d)"
    by (simp add: ExecScheduledTasks_def IterateScheduledTasks_due [OF L tp wf])
  moreover have "piped_ops (lib k) (mmem (ClearPipedValsetOperations k d)) = []"
    using Clear_empties [of k d] by (simp add: piped_ops_def)
  ultimately show ?thesis
    using d by (auto simp: queue.run_due)
qed

definition demo_gone :: "demo_chain ctx" where
  "demo_gone = demo_slashed\<lparr>chain := (chain demo_slashed)\<lparr>demo_validators := []\<rparr>,
     mstore := put_task (mstore demo_slashed) SchedulerTaskValsetUpdate (100, con_a) False\<rparr>"

theorem removed_validator_silences_report_witness:
  "\<exists>rs d. ExecScheduledTasks demo_keeper SchedulerTaskValsetUpdate 50 (valset_executor demo_keeper) demo_gone = (Ok rs, d) \<and>
    rs \<noteq> [] \<and> (\<forall>r \<in> set rs. ExecErr r \<noteq> None) \<and> demo_calls (chain d) = [] \<and>
    task_at (mstore d) SchedulerTaskValsetUpdate (100, con_a) \<noteq> Some False"
proof -
  have ops: "piped_ops demo_lib (mmem demo_gone) = [(val_a, ValidatorSlashed, Some (demo_slash\<lparr>Power := 7, InfractionHeight := 90\<rparr>))]"
    using demo_slashed_ops by (simp add: demo_gone_def)
  have "piped_ok demo_keeper demo_gone"
    using demo_slashed_ok by (simp add: piped_ok_def demo_slashed_ops ops) (simp add: demo_gone_def op_defs)
  moreover have due: "((100, con_a), False) \<in> set (due_tasks (mstore demo_gone) SchedulerTaskValsetUpdate 100)"
    by (simp add: queue.due_iff demo_gone_def queue.at_put)
  moreover have "GetMaxSudoGas demo_keeper demo_gone = Ok 500000"
  proof -
    have "kv_get (mstore demo_gone) ParamsKey = Some (Params_wire demo_lib demo_params)"
      by (simp add: demo_gone_def demo_slashed_def put_task_def prefix_defs) (simp add: prefix_defs [symmetric])
    then show ?thesis
      using demo_GetParams [of demo_gone] by (simp add: GetMaxSudoGas_def) (simp add: demo_params_def)
  qed
  moreover have "tasks_ok (mstore demo_gone) SchedulerTaskValsetUpdate" "BlockHeight demo_gone = 100"
      "GetValidator (Staking demo_keeper) (chain demo_gone) val_a = None"
    by (simp_all add: demo_gone_def demo_slashed_def)
  moreover have "val_from_bech32 demo_lib (val_string demo_lib val_a) = Ok val_a"
    by (simp add: val_a_def)
  moreover have calls: "demo_calls (chain demo_gone) = []"
    by (simp add: demo_gone_def demo_slashed_def demo_capped_def demo_start_def demo_blank_def)
  ultimately obtain rs d where run: "ExecScheduledTasks demo_keeper SchedulerTaskValsetUpdate 50 (valset_executor demo_keeper) demo_gone = (Ok rs, d)"
    and "length rs = length (due_tasks (mstore demo_gone) SchedulerTaskValsetUpdate 100)" "\<forall>r \<in> set rs. ExecErr r \<noteq> None"
      "world d = world demo_gone" "task_at (mstore d) SchedulerTaskValsetUpdate (100, con_a) \<noteq> Some False"
    using removed_validator_silences_report [of demo_keeper demo_gone val_a "demo_slash\<lparr>Power := 7, InfractionHeight := 90\<rparr>" 500000 50] ops
    by auto
  moreover have "rs \<noteq> []"
    using calculation due by auto
  ultimately show ?thesis
    using calls by (intro exI [of _ rs] exI [of _ d]) (simp add: world_def)
qed

text \<open>
  The two response handlers: the strict one stops the chain at the first error of any kind, the
  default one only at an execution that succeeded but could not be rescheduled.
\<close>
theorem response_handlers:
  "(handle_all PanicOnErrorExecutionResponseHandler rs c = (Ok (), c) \<longleftrightarrow>
      list_all (\<lambda>r. ExecErr r = None \<and> RescheduleErr r = None \<and> DeleteTaskErr r = None) rs) \<and>
   (handle_all DefaultExecutionResponseHandler rs c = (Ok (), c) \<longleftrightarrow>
      list_all (\<lambda>r. \<not> (ExecErr r = None \<and> RescheduleErr r \<noteq> None)) rs)"
  by (induction rs) (auto simp: PanicOnErrorExecutionResponseHandler_def DefaultExecutionResponseHandler_def bind_apply)

end
