(* ===== verification/HandlerProps.thy ===== *)
theory HandlerProps
  imports SchedulerProps Stable
begin

text \<open>
  The properties of the entry points: who may bond and unbond, which messages the integrity handler
  rejects, what the governance message does on each of its branches, and what the queries return.
\<close>

section \<open>Custom messages\<close>

text \<open>
  A contract without a limit cannot reach the keeper: whatever it sends, the state is as before,
  and a message of the module's namespace is refused as unauthorized.
\<close>
theorem unauthorized_contract_refused:
  assumes "\<not> HasMaxCapLimit c contract"
  shows "\<exists>r. DispatchMsg L unmarshal (NewDefaultCustomMsgHandler k) contract msg c = (r, c) \<and> \<not> is_ok r \<and>
    ((\<exists>bz m stake. cm_Custom msg = Some bz \<and> unmarshal bz = Ok m \<and> msg_VirtualStake m = Some stake) \<longrightarrow>
      (\<exists>t. r = Err (Wrapped ErrUnauthorized t)))"
  using assms
  by (auto simp: DispatchMsg_def NewDefaultCustomMsgHandler_def defaultMaxCapAuthorizator_def split: option.split res.split)

definition demo_bond :: "bytes \<Rightarrow> CustomMsg res" where
  "demo_bond bz = Ok \<lparr>msg_VirtualStake = Some \<lparr>
     Bond = Some \<lparr>bond_Amount = \<lparr>wasm_denom = ''stake'', wasm_amount = ''100''\<rparr>, bond_Validator = ''vala''\<rparr>,
     Unbond_msg = None\<rparr>\<rparr>"

definition demo_custom :: CosmosMsg where
  "demo_custom = \<lparr>cm_Custom = Some [], cm_Staking = None, cm_Stargate = None\<rparr>"

theorem unauthorized_contract_refused_witness:
  "\<exists>t. DispatchMsg demo_lib demo_bond (NewDefaultCustomMsgHandler demo_keeper) val_a demo_custom demo_capped =
    (Err (Wrapped ErrUnauthorized t), demo_capped)"
  using unauthorized_contract_refused [of demo_capped val_a demo_lib demo_bond demo_keeper demo_custom]
  by (auto simp: demo_custom_def demo_bond_def)

text \<open>
  C11.  No message of a contract can bring its total above its limit: after any message that the
  default handler dispatches, either nothing but the gas meter has changed, or the contract has a
  limit and its total is at most that limit or what it was before.
\<close>
theorem dispatch_within_limit:
  assumes laws: "int_laws (lib k)" "coin_laws (lib k)" and ok: "ledger_ok k c"
    and run: "DispatchMsg (lib k) unmarshal (NewDefaultCustomMsgHandler k) contract msg c = (r, c')"
  shows "(\<exists>b. c' = drop_cache c b) \<or>
    HasMaxCapLimit c contract \<and> total_delegated k c' contract \<le> max (max_cap k c contract) (total_delegated k c contract)"
proof -
  have same: "\<exists>b. c = drop_cache c b"
    by (intro exI [of _ c]) (simp add: drop_cache_def)
  let ?safe = "\<lambda>d. (\<exists>b. d = drop_cache c b) \<or>
    total_delegated k d contract \<le> max (max_cap k c contract) (total_delegated k c contract)"
  have bond: "?safe d" if "Delegate k contract val coin c = (x, d)" for val coin x d
  proof (cases "amount coin")
    case None
    with that same show ?thesis by (auto simp: Delegate_def positive_def)
  next
    case (Some a)
    from Delegate_outcome [OF laws ok this that] show ?thesis by auto
  qed
  have unbond: "?safe d" if "Undelegate k contract val coin c = (x, d)" for val coin x d
  proof (cases "amount coin")
    case None
    with that same show ?thesis by (auto simp: Undelegate_def positive_def)
  next
    case (Some a)
    from Undelegate_outcome [OF laws ok this that] show ?thesis by auto
  qed
  show ?thesis
    using run same bond unbond
    by (auto simp: DispatchMsg_def NewDefaultCustomMsgHandler_def defaultMaxCapAuthorizator_def handleBondMsg_def
        handleUnbondMsg_def bind_apply split: option.splits res.splits if_splits prod.splits)
qed

theorem dispatch_within_limit_witness:
  "case DispatchMsg demo_lib demo_bond (NewDefaultCustomMsgHandler demo_keeper) con_a demo_custom demo_capped of
     (r, c') \<Rightarrow> (\<exists>b. c' = drop_cache demo_capped b) \<or> total_delegated demo_keeper c' con_a \<le> 500"
proof -
  obtain r c' where run: "DispatchMsg (lib demo_keeper) demo_bond (NewDefaultCustomMsgHandler demo_keeper)
      con_a demo_custom demo_capped = (r, c')"
    by fastforce
  show ?thesis
    using dispatch_within_limit [OF _ _ demo_ledger_ok run] run by auto
qed

text \<open>
  The integrity handler rejects exactly the staking and stargate messages of contracts that have a
  limit, whatever its amount, passes every other message on, and never changes the state; the custom
  handler in turn passes on every message that the integrity handler can reject.
\<close>
theorem integrity_handler:
  "NewIntegrityHandler HasMaxCapLimit contract msg c =
    (if (cm_Staking msg \<noteq> None \<or> cm_Stargate msg \<noteq> None) \<and> HasMaxCapLimit c contract
     then (Err (Wrapped ErrUnsupported ''message type for contracts with max cap set''), c)
     else (Err ErrUnknownMsg, c)) \<and>
   (cm_Custom msg = None \<longrightarrow> DispatchMsg L unmarshal h contract msg c = (Err ErrUnknownMsg, c))"
  by (auto simp: NewIntegrityHandler_def DispatchMsg_def)

theorem integrity_handler_witness:
  "fst (NewIntegrityHandler HasMaxCapLimit con_a \<lparr>cm_Custom = None, cm_Staking = Some [], cm_Stargate = None\<rparr> demo_capped) =
     Err (Wrapped ErrUnsupported ''message type for contracts with max cap set'') \<and>
   DispatchMsg demo_lib demo_bond (NewDefaultCustomMsgHandler demo_keeper) con_a
     \<lparr>cm_Custom = None, cm_Staking = Some [], cm_Stargate = None\<rparr> demo_capped = (Err ErrUnknownMsg, demo_capped)"
  using integrity_handler [of con_a "\<lparr>cm_Custom = None, cm_Staking = Some [], cm_Stargate = None\<rparr>" demo_capped
    demo_lib demo_bond "NewDefaultCustomMsgHandler demo_keeper"] by simp

section \<open>The governance message\<close>

text \<open>A limit is stored under a key of its own: the schedule and the parameters stay.\<close>

lemma SetMaxCapLimit_frame:
  assumes "int_laws (lib k)" and "SetMaxCapLimit k contract new c = (Ok u, d)"
  shows "task_at (mstore d) = task_at (mstore c)" and "tasks_ok (mstore d) tp = tasks_ok (mstore c) tp"
    and "GetParams k d = GetParams k c" and "BlockHeight d = BlockHeight c" and "chain d = chain c"
proof -
  obtain bz where d: "d = EmitMaxCapLimitUpdatedEvent (lib k) contract new
      (c\<lparr>mstore := kv_set (mstore c) (BuildMaxCapLimitKey contract) bz\<rparr>)"
    using SetMaxCapLimit_Ok [OF assms] by blast
  show "task_at (mstore d) = task_at (mstore c)" "tasks_ok (mstore d) tp = tasks_ok (mstore c) tp"
      "BlockHeight d = BlockHeight c" "chain d = chain c"
    by (auto simp: d task_at_def fun_eq_iff cap_key prefix_defs tasks_ok_iff)
  show "GetParams k d = GetParams k c"
    by (rule GetParams_cong) (simp add: d cap_key prefix_defs)
qed

text \<open>The schedule that the message asks for, as a function of the one there was.\<close>

definition rescheduled :: "u64 \<Rightarrow> u64 \<Rightarrow> bytes \<Rightarrow> bool \<Rightarrow> (u64 \<times> bytes \<Rightarrow> bool option) \<Rightarrow> u64 \<times> bytes \<Rightarrow> bool option" where
  "rescheduled cur epoch acc zero at x =
     (if \<forall>h. at (h, acc) \<noteq> Some True then (if x = (cur + epoch, acc) then Some True else at x)
      else if zero \<and> snd x = acc then (if fst x = cur then Some False else None)
      else if x = (cur, acc) \<and> at x = None then Some False
      else at x)"

lemma SetVirtualStakingMaxCap_run:
  assumes laws: "int_laws (lib k)" "layout_laws (lib k)"
    and valid: "setcap_ValidateBasic (lib k) req = Ok ()" and auth: "setcap_Authority req = authority k"
    and acc: "acc_from_bech32 (lib k) (setcap_Contract req) = Ok acc" and a: "amount (setcap_MaxCap req) = Some a"
    and set: "SetMaxCapLimit k acc (setcap_MaxCap req) c = (Ok (), c1)"
    and wf: "tasks_ok (mstore c) SchedulerTaskHandleEpoch" and info: "HasContractInfo (wasm k) (chain c) acc"
    and e: "GetRebalanceEpochLength k c = Ok e" "BlockHeight c \<le> BlockHeight c + e"
  obtains d where "SetVirtualStakingMaxCap k req c = (Ok MsgSetVirtualStakingMaxCapResponse, d)"
    and "\<And>x. task_at (mstore d) SchedulerTaskHandleEpoch x =
      rescheduled (BlockHeight c) e acc (a = 0) (task_at (mstore c) SchedulerTaskHandleEpoch) x"
    and "\<And>key. off_schedule key \<Longrightarrow> kv_get (mstore d) key = kv_get (mstore c1) key"
proof -
  note frame = SetMaxCapLimit_frame [OF laws(1) set]
  have wf1: "tasks_ok (mstore c1) SchedulerTaskHandleEpoch"
    using wf frame(2) by simp
  have e1: "GetRebalanceEpochLength k c1 = Ok e"
    using e(1) by (simp add: GetRebalanceEpochLength_def frame(3))
  have basic: "setcap_ValidateBasic (lib k) req = Ok ()" "authority k = setcap_Authority req"
    using valid auth by simp_all
  let ?at = "task_at (mstore c) SchedulerTaskHandleEpoch"
  have has: "HasScheduledTask k SchedulerTaskHandleEpoch acc True c1 = (Ok (\<exists>h. ?at (h, acc) = Some True), c1)"
    using HasScheduledTask_run [OF laws(2) _ wf1, of acc True] by (simp add: frame(1))
  show ?thesis
  proof (cases "\<exists>h. ?at (h, acc) = Some True")
    case False
    let ?d = "EmitSchedulerRegisteredEvent (lib k) acc (BlockHeight c + e) True
      (c1\<lparr>mstore := put_task (mstore c1) SchedulerTaskHandleEpoch (BlockHeight c + e, acc) True\<rparr>)"
    have "ScheduleRegularRebalanceTask k acc c1 = (Ok (), ?d)"
      using e(2) by (simp add: ScheduleRegularRebalanceTask_def frame info bind_apply e1
          ScheduleRepeatingTask_run [OF laws(2)])
    then have "SetVirtualStakingMaxCap k req c = (Ok MsgSetVirtualStakingMaxCapResponse, ?d)"
      using False by (simp add: SetVirtualStakingMaxCap_def bind_apply basic GetAuthority_def acc set has attempt_apply)
    then show ?thesis
      using False by (intro that [of ?d]) (auto simp: queue.at_put frame(1) rescheduled_def)
  next
    case True
    obtain s where del: "(if a = 0 then DeleteAllScheduledTasks k SchedulerTaskHandleEpoch acc else ret ()) c1 =
        (Ok (), c1\<lparr>mstore := s\<rparr>)"
      and at: "\<And>tp' x. task_at s tp' x = (if a = 0 \<and> tp' = SchedulerTaskHandleEpoch \<and> snd x = acc then None
        else task_at (mstore c) tp' x)"
      and off: "\<And>key. off_schedule key \<Longrightarrow> kv_get s key = kv_get (mstore c1) key"
    proof (cases "a = 0")
      case True
      have tp: "SchedulerTaskHandleEpoch \<noteq> SchedulerTaskUndefined"
        by simp
      obtain s where "DeleteAllScheduledTasks k SchedulerTaskHandleEpoch acc c1 = (Ok (), c1\<lparr>mstore := s\<rparr>)"
        and "\<And>tp' x. task_at s tp' x = (if tp' = SchedulerTaskHandleEpoch \<and> snd x = acc then None
          else task_at (mstore c1) tp' x)"
        and "\<And>key. off_schedule key \<Longrightarrow> kv_get s key = kv_get (mstore c1) key"
        using DeleteAll_run [where contract = acc, OF laws(2) tp wf1] by blast
      then show ?thesis
        using True by (intro that [of s]) (simp_all add: frame(1))
    next
      case False
      then show ?thesis
        by (intro that [of "mstore c1"]) (simp_all add: frame(1))
    qed
    define d where "d = (if task_at s SchedulerTaskHandleEpoch (BlockHeight c, acc) \<noteq> None then c1\<lparr>mstore := s\<rparr>
      else EmitSchedulerRegisteredEvent (lib k) acc (BlockHeight c) False
        (c1\<lparr>mstore := put_task s SchedulerTaskHandleEpoch (BlockHeight c, acc) False\<rparr>))"
    have shot: "ScheduleOneShotTask k SchedulerTaskHandleEpoch acc (BlockHeight c) (c1\<lparr>mstore := s\<rparr>) = (Ok (), d)"
      by (simp add: ScheduleOneShotTask_run [OF laws(2)] frame d_def)
    have "SetVirtualStakingMaxCap k req c = (Ok MsgSetVirtualStakingMaxCapResponse, d)"
      using True del shot by (simp add: SetVirtualStakingMaxCap_def bind_apply basic GetAuthority_def acc set has attempt_apply a frame)
    then show ?thesis
      using True by (intro that [of d]) (auto simp: d_def at queue.at_put off rescheduled_def)
  qed
qed

text \<open>C35.  Only the authority can set a limit: a message of anybody else fails and changes nothing.\<close>
theorem only_authority_sets_limits:
  assumes "setcap_Authority req \<noteq> authority k"
  shows "\<exists>r. SetVirtualStakingMaxCap k req c = (r, c) \<and> \<not> is_ok r"
  using assms by (auto simp: SetVirtualStakingMaxCap_def GetAuthority_def bind_apply split: res.split)

definition demo_request :: "string \<Rightarrow> int \<Rightarrow> MsgSetVirtualStakingMaxCap" where
  "demo_request auth a = \<lparr>setcap_Authority = auth, setcap_Contract = ''cona'', setcap_MaxCap = coin_of ''stake'' a\<rparr>"

theorem only_authority_sets_limits_witness:
  "\<exists>r. SetVirtualStakingMaxCap demo_keeper (demo_request ''user'' 10) demo_capped = (r, demo_capped) \<and> \<not> is_ok r"
  by (rule only_authority_sets_limits) (simp add: demo_request_def)

text \<open>
  C14.  A limit that the authority sets and that has room below the maximum is stored: it is the new
  limit of the contract, the limits of the others are what they were, their sum is within the
  maximum, and outside the schedule no other key has changed.  The schedule is exactly
  \<open>rescheduled\<close>: a contract without a regular callback is given one an epoch from now, even when
  the new limit is zero; a contract that has one is called back once more in this block, and only
  then does a limit of zero take its other callbacks away.
\<close>
theorem governance_sets_limit:
  assumes laws: "int_laws (lib k)" "layout_laws (lib k)"
    and valid: "setcap_ValidateBasic (lib k) req = Ok ()" and auth: "setcap_Authority req = authority k"
    and acc: "acc_from_bech32 (lib k) (setcap_Contract req) = Ok acc"
    and a: "setcap_MaxCap req = coin_of (bond_denom k c) a" "0 \<le> a"
    and caps: "caps_ok k c" and cap: "GetTotalContractsMaxCap k c = Ok (coin_of dn cap)"
    and room: "other_caps k acc c + a \<le> cap" "int_fits (other_caps k acc c + a)"
    and wf: "tasks_ok (mstore c) SchedulerTaskHandleEpoch" and info: "HasContractInfo (wasm k) (chain c) acc"
    and e: "GetRebalanceEpochLength k c = Ok e" "BlockHeight c \<le> BlockHeight c + e"
  shows "\<exists>d. SetVirtualStakingMaxCap k req c = (Ok MsgSetVirtualStakingMaxCapResponse, d) \<and>
    HasMaxCapLimit d acc \<and> max_cap k d acc = a \<and> (\<forall>b. b \<noteq> acc \<longrightarrow> max_cap k d b = max_cap k c b) \<and>
    total_caps k d \<le> cap \<and>
    (\<forall>key. off_schedule key \<and> key \<noteq> BuildMaxCapLimitKey acc \<longrightarrow> kv_get (mstore d) key = kv_get (mstore c) key) \<and>
    (\<forall>x. task_at (mstore d) SchedulerTaskHandleEpoch x =
      rescheduled (BlockHeight c) e acc (a = 0) (task_at (mstore c) SchedulerTaskHandleEpoch) x)"
proof -
  have "int_fits a"
    using room(2) a(2) other_caps_nonneg [OF caps, of acc] by (simp add: int_fits_def)
  then obtain bz where bz: "int_marshal (lib k) a = Ok bz"
    using int_lawsD(3) [OF laws(1)] by blast
  define c1 where "c1 = EmitMaxCapLimitUpdatedEvent (lib k) acc (setcap_MaxCap req)
    (c\<lparr>mstore := kv_set (mstore c) (BuildMaxCapLimitKey acc) bz\<rparr>)"
  have set: "SetMaxCapLimit k acc (setcap_MaxCap req) c = (Ok (), c1)"
    using SetMaxCapLimit_run [OF laws(1) caps cap room(2) a(2) bz, of "setcap_MaxCap req"] room(1)
    by (simp add: a c1_def)
  have am: "amount (setcap_MaxCap req) = Some a"
    by (simp add: a)
  obtain d where run: "SetVirtualStakingMaxCap k req c = (Ok MsgSetVirtualStakingMaxCapResponse, d)"
    and at: "\<And>x. task_at (mstore d) SchedulerTaskHandleEpoch x =
      rescheduled (BlockHeight c) e acc (a = 0) (task_at (mstore c) SchedulerTaskHandleEpoch) x"
    and off: "\<And>key. off_schedule key \<Longrightarrow> kv_get (mstore d) key = kv_get (mstore c1) key"
    by (rule SetVirtualStakingMaxCap_run [OF laws valid auth acc am set wf info e]) blast
  have same: "max_cap k d b = max_cap k c1 b" "HasMaxCapLimit d b = HasMaxCapLimit c1 b"
      "total_caps k d = total_caps k c1" for b
    using ledger_view [OF off] by blast+
  show ?thesis
    using run at off same SetMaxCapLimit_within [OF laws(1) caps am a(2) cap set]
    by (auto simp: c1_def)
qed

text \<open>The limit of a contract without a callback is set to zero: it is scheduled all the same.\<close>

theorem governance_sets_limit_witness:
  "\<exists>d. SetVirtualStakingMaxCap demo_keeper (demo_request ''gov'' 0) demo_capped = (Ok MsgSetVirtualStakingMaxCapResponse, d) \<and>
    max_cap demo_keeper d con_a = 0 \<and> max_cap demo_keeper d con_bad = 200 \<and>
    task_at (mstore d) SchedulerTaskHandleEpoch (150, con_a) = Some True"
proof -
  let ?req = "demo_request ''gov'' 0"
  have valid: "setcap_ValidateBasic demo_lib ?req = Ok ()"
    by (simp add: setcap_ValidateBasic_def demo_request_def) (simp add: demo_lib_def)
  have epoch: "GetRebalanceEpochLength demo_keeper demo_capped = Ok 50"
    using demo_GetParams [of demo_capped] by (simp add: GetRebalanceEpochLength_def demo_params_def)
  have "con_bad \<noteq> con_a"
    by code_simp
  then show ?thesis
    using governance_sets_limit [of demo_keeper ?req con_a demo_capped 0 "''stake''" 1000 50] valid epoch
    by (auto simp: demo_request_def con_a_def [symmetric] rescheduled_def demo_wasm_def demo_chain_simps)
qed

section \<open>Queries\<close>

text \<open>
  The limit query answers for every address, also for one that was never given a limit, with the
  stored limit and the delegated total in the bond denomination.
\<close>
theorem limit_query_answers:
  assumes "coin_laws (lib k)" and "ledger_ok k c" and "acc_from_bech32 (lib k) (limit_req_Address req) = Ok acc"
  shows "query_VirtualStakingMaxCapLimit k req c = Ok
    \<lparr>limit_resp_Delegated = coin_of (bond_denom k c) (total_delegated k c acc),
     limit_resp_Cap = coin_of (bond_denom k c) (max_cap k c acc)\<rparr>"
  using assms GetMaxCapLimit_value [OF assms(1), of c acc] GetTotalDelegated_value [OF assms(1), of c acc]
  by (simp add: query_VirtualStakingMaxCapLimit_def ledger_ok_def)

lemma demo_bonded_cap [simp]: "max_cap demo_keeper demo_bonded a = max_cap demo_keeper demo_capped a"
  by (simp add: max_cap_def demo_bonded_def total_key cap_key prefix_defs)

theorem limit_query_answers_witness:
  "query_VirtualStakingMaxCapLimit demo_keeper \<lparr>limit_req_Address = ''cona''\<rparr> demo_bonded = Ok
    \<lparr>limit_resp_Delegated = coin_of ''stake'' 100, limit_resp_Cap = coin_of ''stake'' 500\<rparr>"
  using limit_query_answers [of demo_keeper demo_bonded "\<lparr>limit_req_Address = ''cona''\<rparr>" con_a]
  by (simp add: con_a_def [symmetric])

lemma iterate_limit_info:
  assumes laws: "coin_laws (lib k)" and ok: "ledger_ok k c"
  shows "\<forall>(key, v) \<in> set es. int_unmarshal (lib k) v = Ok (int_value (lib k) v) \<and> 0 \<le> int_value (lib k) v \<Longrightarrow>
    iterate (decode_cap k (limit_info k)) es infos c = (Ok (infos @ map (\<lambda>(key, v).
      \<lparr>info_Contract = acc_string (lib k) key, info_Delegated = coin_of (bond_denom k c) (total_delegated k c key),
       info_Cap = coin_of (bond_denom k c) (int_value (lib k) v)\<rparr>) es), c)"
proof (induction es arbitrary: infos)
  case (Cons e es)
  obtain key v where e: "e = (key, v)"
    by (cases e)
  have "decode_cap k (limit_info k) e infos c = (Ok (False, infos @ [
      \<lparr>info_Contract = acc_string (lib k) key, info_Delegated = coin_of (bond_denom k c) (total_delegated k c key),
       info_Cap = coin_of (bond_denom k c) (int_value (lib k) v)\<rparr>]), c)"
    using Cons.prems ok GetTotalDelegated_value [OF laws, of c key]
    by (simp add: e decode_cap_Ok limit_info_def bind_apply ledger_ok_def coin_lawsD(1) [OF laws])
  then show ?case
    using Cons.prems Cons.IH by (simp add: bind_apply) (simp add: e)
qed simp

lemma all_limits_run:
  assumes laws: "coin_laws (lib k)" and ok: "ledger_ok k c"
  shows "query_VirtualStakingMaxCapLimits k req c = (Ok \<lparr>MaxCapInfos = map (\<lambda>(a, m).
      \<lparr>info_Contract = acc_string (lib k) a, info_Delegated = coin_of (bond_denom k c) (total_delegated k c a),
       info_Cap = coin_of (bond_denom k c) m\<rparr>) (max_caps k c)\<rparr>, c) \<and>
    distinct (map fst (max_caps k c)) \<and>
    (\<forall>a m. (a, m) \<in> set (max_caps k c) \<longleftrightarrow> HasMaxCapLimit c a \<and> m = max_cap k c a)"
proof -
  have caps: "\<forall>(key, v) \<in> set (kv_prefix (mstore c) MaxCapLimitKeyPrefix).
      int_unmarshal (lib k) v = Ok (int_value (lib k) v) \<and> 0 \<le> int_value (lib k) v"
    using ok by (auto simp: ledger_ok_def dest: caps_okD)
  then show ?thesis
    by (simp add: query_VirtualStakingMaxCapLimits_def IterateMaxCapLimit_def bind_apply
        iterate_limit_info [OF laws ok caps] max_caps_def [symmetric] max_caps_distinct max_caps_iff)
      (simp add: max_caps_def case_prod_beta)
qed

text \<open>
  C39.  The query of all limits lists every contract that has a limit, once, in the order of the
  addresses, with its total and its limit, and changes nothing.
\<close>
theorem limits_query_lists_all:
  assumes laws: "coin_laws (lib k)" and ok: "ledger_ok k c"
  shows "query_VirtualStakingMaxCapLimits k req c = (Ok \<lparr>MaxCapInfos = map (\<lambda>(a, m).
      \<lparr>info_Contract = acc_string (lib k) a, info_Delegated = coin_of (bond_denom k c) (total_delegated k c a),
       info_Cap = coin_of (bond_denom k c) m\<rparr>) (max_caps k c)\<rparr>, c) \<and>
    distinct (map fst (max_caps k c)) \<and>
    (\<forall>a m. (a, m) \<in> set (max_caps k c) \<longleftrightarrow> HasMaxCapLimit c a \<and> m = max_cap k c a)"
  by (rule all_limits_run [OF assms])

theorem limits_query_lists_all_witness:
  "\<exists>infos. query_VirtualStakingMaxCapLimits demo_keeper QueryVirtualStakingMaxCapLimitsRequest demo_capped =
      (Ok \<lparr>MaxCapInfos = infos\<rparr>, demo_capped) \<and>
    \<lparr>info_Contract = ''cona'', info_Delegated = coin_of ''stake'' 0, info_Cap = coin_of ''stake'' 500\<rparr> \<in> set infos"
proof -
  have name: "acc_string demo_lib con_a = ''cona''"
    by (simp add: demo_lib_def con_a_def)
  have laws: "coin_laws (lib demo_keeper)" by simp
  note listed = limits_query_lists_all [OF laws demo_ledger_ok,
    of QueryVirtualStakingMaxCapLimitsRequest, THEN conjunct1]
  have cap: "(con_a, 500) \<in> set (max_caps demo_keeper demo_capped)"
    by (simp add: max_caps_iff)
  show ?thesis
  proof (intro exI conjI)
    show "\<lparr>info_Contract = ''cona'', info_Delegated = coin_of ''stake'' 0, info_Cap = coin_of ''stake'' 500\<rparr>
      \<in> set (map (\<lambda>(a, m). \<lparr>info_Contract = acc_string (lib demo_keeper) a,
          info_Delegated = coin_of (bond_denom demo_keeper demo_capped) (total_delegated demo_keeper demo_capped a),
          info_Cap = coin_of (bond_denom demo_keeper demo_capped) m\<rparr>) (max_caps demo_keeper demo_capped))"
      unfolding set_map by (rule image_eqI [OF _ cap]) (simp add: name)
  qed (rule listed)
qed

end
