(* ===== verification/Books.thy ===== *)
theory Books
  imports Stable Handlers
begin

text \<open>
  The invariant of the module's store, \<open>books\<close>: everything stored decodes, the limits add up to no
  more than the maximum of the parameters, and only contracts that were given a limit have a
  delegated total.  It does not mind tasks, so it is an interpretation of \<open>task_invariant\<close>; the
  lemmas show that the messages of contracts and of the authority preserve it as well.
\<close>

section \<open>The invariant\<close>

text \<open>\<open>p\<close> are the parameters, and \<open>A\<close> is a set of contracts that have a limit.\<close>

abbreviation total_max :: "Params \<Rightarrow> int" where
  "total_max p \<equiv> the (amount (TotalContractsMaxCap p))"

definition books :: "'x Keeper \<Rightarrow> Params \<Rightarrow> bytes set \<Rightarrow> 'x ctx \<Rightarrow> bool" where
  "books k p A c \<longleftrightarrow> ledger_ok k c \<and> GetParams k c = Ok p \<and> amount (TotalContractsMaxCap p) \<noteq> None \<and>
     total_caps k c \<le> total_max p \<and>
     tasks_ok (mstore c) SchedulerTaskValsetUpdate \<and> tasks_ok (mstore c) SchedulerTaskHandleEpoch \<and>
     (\<forall>a. 0 < total_delegated k c a \<or> a \<in> A \<longrightarrow> HasMaxCapLimit c a)"

lemma booksD:
  assumes "books k p A c"
  shows "ledger_ok k c" and "GetParams k c = Ok p" and "total_caps k c \<le> total_max p"
    and "0 < total_delegated k c a \<Longrightarrow> HasMaxCapLimit c a" and "a \<in> A \<Longrightarrow> HasMaxCapLimit c a"
    and "caps_ok k c" and "totals_ok k c" and "tasks_ok (mstore c) SchedulerTaskHandleEpoch"
    and "amount (TotalContractsMaxCap p) \<noteq> None"
    and "GetTotalContractsMaxCap k c = Ok (coin_of (denom (TotalContractsMaxCap p)) (total_max p))"
  using assms by (auto simp: books_def ledger_ok_def GetTotalContractsMaxCap_def intro!: coin.equality)

lemma books_insert: "books k p (insert a A) c \<longleftrightarrow> books k p A c \<and> HasMaxCapLimit c a"
  by (auto simp: books_def)

lemma books_view:
  assumes "books k p A c" and "\<And>key. off_schedule key \<Longrightarrow> kv_get (mstore d) key = kv_get (mstore c) key"
    and "ValidateDenom (lib k) (bond_denom k d)"
    and "tasks_ok (mstore d) SchedulerTaskValsetUpdate" and "tasks_ok (mstore d) SchedulerTaskHandleEpoch"
  shows "books k p A d"
  using assms(1,3-5) unfolding books_def ledger_ok_def by (simp add: ledger_view [OF assms(2)])

lemma books_denom: "books k p A c \<Longrightarrow> chain d = chain c \<Longrightarrow> ValidateDenom (lib k) (bond_denom k d)"
  by (simp add: books_def ledger_ok_def bond_denom_def)

interpretation books: task_invariant "books k p A"
proof unfold_locales
  fix c d :: "'a ctx" and tp x r
  assume c: "books k p A c" and chain: "chain d = chain c"
  note denom = books_denom [OF c chain]
  show "books k p A d" if "mstore d = mstore c"
    by (rule books_view [OF c _ denom]) (use c in \<open>simp_all add: that books_def\<close>)
  show "books k p A d" if "mstore d = put_task (mstore c) tp x r"
    by (rule books_view [OF c _ denom]) (use c in \<open>simp_all add: that books_def\<close>)
  show "books k p A d" if "mstore d = del_task (mstore c) tp x"
    by (rule books_view [OF c _ denom]) (use c in \<open>simp_all add: that books_def tasks_ok_del\<close>)
qed

section \<open>Storing a total and a limit\<close>

lemma books_set_total:
  assumes c: "books k p A c" and a: "a \<in> A" and bz: "int_unmarshal (lib k) bz = Ok t"
    and d: "mstore d = kv_set (mstore c) (BuildTotalDelegatedAmountKey a) bz" "chain d = chain c"
  shows "books k p A d"
proof -
  have caps: "kv_prefix (mstore d) MaxCapLimitKeyPrefix = kv_prefix (mstore c) MaxCapLimitKeyPrefix"
    by (rule kvs.scan_eqI) (simp add: d total_key prefix_defs)
  have params: "kv_get (mstore d) ParamsKey = kv_get (mstore c) ParamsKey"
    by (simp add: d total_key prefix_defs)
  have has: "HasMaxCapLimit d x = HasMaxCapLimit c x" for x
    by (simp add: HasMaxCapLimit_def d total_key cap_key prefix_defs)
  have totals: "totals_ok k d"
    using booksD(7) [OF c] bz
    by (auto simp: totals_ok_def list_all_iff d total_key kvs.scan_put split: if_splits)
  have other: "total_delegated k d x = total_delegated k c x" if "x \<noteq> a" for x
    using that by (simp add: total_delegated_def d total_key)
  show ?thesis
    unfolding books_def not_None_eq
  proof (intro conjI allI impI)
    show "ledger_ok k d"
      using booksD(1) [OF c] totals books_denom [OF c d(2)] by (simp add: ledger_ok_def caps_ok_def caps)
    show "GetParams k d = Ok p"
      using booksD(2) [OF c] GetParams_cong [OF params] by simp
    show "\<exists>i. amount (TotalContractsMaxCap p) = Some i"
      using booksD(9) [OF c] by simp
    show "total_caps k d \<le> total_max p"
      using booksD(3) [OF c] by (simp add: total_caps_def max_caps_def caps)
    show "tasks_ok (mstore d) SchedulerTaskValsetUpdate" "tasks_ok (mstore d) SchedulerTaskHandleEpoch"
      using c by (auto simp: books_def tasks_ok_iff d total_key prefix_defs)
    show "HasMaxCapLimit d x" if "0 < total_delegated k d x \<or> x \<in> A" for x
      using that other [of x] booksD(4,5) [OF c, of x] a by (cases "x = a") (auto simp: has booksD(5) [OF c])
  qed
qed

lemma stable_setTotalDelegated:
  assumes laws: "int_laws (lib k)" and t: "int_fits t" and a: "a \<in> A"
  shows "stable (books k p A) (setTotalDelegated k a (coin_of d t))"
proof (rule stableI)
  fix c assume c: "books k p A c"
  obtain bz where bz: "int_marshal (lib k) t = Ok bz" "int_unmarshal (lib k) bz = Ok t"
    using int_lawsD(3) [OF laws t] by blast
  show "books k p A (snd (setTotalDelegated k a (coin_of d t) c))"
  proof (cases "bond_denom k c = d")
    case True
    have "books k p A (c\<lparr>mstore := kv_set (mstore c) (BuildTotalDelegatedAmountKey a) bz\<rparr>)"
      by (rule books_set_total [OF c a bz(2)]) simp_all
    with True show ?thesis
      by (simp add: setTotalDelegated_run [OF bz(1)])
  next
    case False
    with c show ?thesis by (simp add: setTotalDelegated_def)
  qed
qed

lemma keeps_sum: "keeps f (IterateMaxCapLimit k (add_others k contract) a)"
proof -
  have "keeps f (iterate (decode_cap k (add_others k contract)) es a)" for es
    unfolding decode_cap_def add_others_def by (intro keeps_iterate keeps_bind keeps_reading) auto
  then show ?thesis
    by (simp add: keeps_def IterateMaxCapLimit_def)
qed

lemma SetMaxCapLimit_refused:
  assumes "SetMaxCapLimit k contract new c = (r, d)" and "\<not> is_ok r"
  shows "d = c"
proof -
  obtain x c' where sum: "IterateMaxCapLimit k (add_others k contract) 0 c = (x, c')"
    by fastforce
  then have [simp]: "c' = c"
    using keepsD [OF keeps_sum [where f = "\<lambda>s. s"]] by blast
  have "is_ok (fst (SetMaxCapLimit k contract new c)) \<or> snd (SetMaxCapLimit k contract new c) = c"
    by (simp add: SetMaxCapLimit_def bind_apply sum split: res.split)
  with assms show ?thesis by simp
qed

text \<open>A limit of at least zero.\<close>

lemma stable_SetMaxCapLimit:
  assumes laws: "int_laws (lib k)" and new: "amount new = Some a" "0 \<le> a"
  shows "stable (books k p A) (SetMaxCapLimit k contract new)"
proof (rule stableI)
  fix c assume c: "books k p A c"
  obtain r d where run: "SetMaxCapLimit k contract new c = (r, d)"
    by fastforce
  have "books k p A d"
  proof (cases "is_ok r")
    case True
    then obtain u where r: "r = Ok u"
      by (cases r) simp_all
    note run = run [unfolded r]
    note within = SetMaxCapLimit_within [OF laws booksD(6) [OF c] new booksD(10) [OF c] run]
    obtain bz where d: "mstore d = kv_set (mstore c) (BuildMaxCapLimitKey contract) bz" "chain d = chain c"
      by (rule SetMaxCapLimit_Ok [OF laws run], rule that) simp_all
    have totals: "kv_prefix (mstore d) TotalDelegatedAmountKeyPrefix = kv_prefix (mstore c) TotalDelegatedAmountKeyPrefix"
      by (rule kvs.scan_eqI) (simp add: d cap_key prefix_defs)
    have params: "kv_get (mstore d) ParamsKey = kv_get (mstore c) ParamsKey"
      by (simp add: d cap_key prefix_defs)
    have total: "total_delegated k d x = total_delegated k c x" for x
      by (simp add: total_delegated_def d cap_key total_key prefix_defs)
    have has: "HasMaxCapLimit d x" if "HasMaxCapLimit c x" for x
      using within that by (cases "x = contract") auto
    show ?thesis
      unfolding books_def not_None_eq
    proof (intro conjI allI impI)
      show "ledger_ok k d"
        using booksD(1) [OF c] within books_denom [OF c d(2)] by (simp add: ledger_ok_def totals_ok_def totals)
      show "GetParams k d = Ok p"
        using booksD(2) [OF c] GetParams_cong [OF params] by simp
      show "\<exists>i. amount (TotalContractsMaxCap p) = Some i"
        using booksD(9) [OF c] by simp
      show "total_caps k d \<le> total_max p"
        using within by simp
      show "tasks_ok (mstore d) SchedulerTaskValsetUpdate" "tasks_ok (mstore d) SchedulerTaskHandleEpoch"
        using c by (auto simp: books_def tasks_ok_iff d cap_key prefix_defs)
      show "HasMaxCapLimit d x" if "0 < total_delegated k d x \<or> x \<in> A" for x
        using that booksD(4,5) [OF c] by (auto simp: total intro: has)
    qed
  next
    case False
    with c SetMaxCapLimit_refused [OF run] show ?thesis by simp
  qed
  with run show "books k p A (snd (SetMaxCapLimit k contract new c))" by simp
qed

section \<open>The messages of contracts\<close>

text \<open>What the bank and the staking keeper may do to the module's store.\<close>

inductive keeper_effect :: "'x Keeper \<Rightarrow> 'x ctx \<Rightarrow> 'x ctx \<Rightarrow> bool" for k where
  mint: "MintCoins (bank k) md cs c = (u, d) \<Longrightarrow> keeper_effect k c d"
| burn: "BurnCoins (bank k) md cs c = (u, d) \<Longrightarrow> keeper_effect k c d"
| take: "SendCoinsFromAccountToModule (bank k) a md cs c = (u, d) \<Longrightarrow> keeper_effect k c d"
| give: "SendCoinsFromModuleToAccount (bank k) md a cs c = (u, d) \<Longrightarrow> keeper_effect k c d"
| offset: "AddSupplyOffset (bank k) dn i c = (u, d) \<Longrightarrow> keeper_effect k c d"
| stake: "StakingDelegate (Staking k) a i st v b c = (sh, d) \<Longrightarrow> keeper_effect k c d"
| unstake: "InstantUndelegate (Staking k) a va sh c = (coins, d) \<Longrightarrow> keeper_effect k c d"

definition keepers_stable :: "'x Keeper \<Rightarrow> ('x ctx \<Rightarrow> bool) \<Rightarrow> bool" where
  "keepers_stable k P \<longleftrightarrow> (\<forall>c d. keeper_effect k c d \<longrightarrow> P c \<longrightarrow> P d)"

lemma stable_effect:
  "keepers_stable k P \<Longrightarrow> (\<And>c u d. m c = (u, d) \<Longrightarrow> keeper_effect k c d) \<Longrightarrow> stable P m"
  unfolding keepers_stable_def stable_def by (metis surjective_pairing)

lemma keepers_stableD:
  assumes "keepers_stable k P"
  shows "stable P (MintCoins (bank k) md cs)" and "stable P (BurnCoins (bank k) md cs)"
    and "stable P (SendCoinsFromAccountToModule (bank k) a md cs)"
    and "stable P (SendCoinsFromModuleToAccount (bank k) md a cs)"
    and "stable P (AddSupplyOffset (bank k) dn i)" and "stable P (StakingDelegate (Staking k) a i st v b)"
    and "stable P (InstantUndelegate (Staking k) a va sh)"
  by (rule stable_effect [OF assms], erule keeper_effect.intros)+

text \<open>
  Both branches store the total of a contract that has a limit: a bond needs room below the limit,
  an unbond something that was bonded.
\<close>

lemma stable_delegate_in_branch:
  assumes "int_laws (lib k)" and "int_fits t" and "actor \<in> B" and "keepers_stable k (books k p B)"
  shows "stable (books k p B) (bind (cached (delegate_in_branch k actor v d amt a (coin_of d t)))
    (\<lambda>newShares. reading (\<lambda>_. newShares)))"
  unfolding delegate_in_branch_def
  by (intro stable_intros books.stable_cached keepers_stableD stable_setTotalDelegated assms)

lemma has_positive_cap: "0 < max_cap k c a \<Longrightarrow> HasMaxCapLimit c a"
  by (simp add: HasMaxCapLimit_def kv_has_def max_cap_def split: option.splits)

lemma stable_Delegate:
  assumes laws: "int_laws (lib k)" "coin_laws (lib k)" and keepers: "\<And>B. keepers_stable k (books k p B)"
  shows "stable (books k p A) (Delegate k actor valAddr amt)"
proof (rule stableI)
  fix c assume c: "books k p A c"
  note ok = booksD(1) [OF c]
  let ?a = "the (amount amt)" and ?t = "total_delegated k c actor + the (amount amt)"
  consider "amount amt = None" | a where "amount amt = Some a" "\<not> int_fits ?t"
    | "int_fits ?t" "may_delegate k c actor valAddr amt ?a" | "int_fits ?t" "\<not> may_delegate k c actor valAddr amt ?a"
    by fastforce
  then show "books k p A (snd (Delegate k actor valAddr amt c))"
  proof cases
    case 1
    with c show ?thesis by (simp add: Delegate_def positive_def)
  next
    case (2 a)
    then have "\<not> int_fits (total_delegated k c actor + a)" by simp
    with Delegate_overflow [OF laws ok 2(1)] c show ?thesis by (metis snd_conv)
  next
    case 3
    then obtain v where v: "GetValidator (Staking k) (chain c) valAddr = Some v"
      by (auto simp: may_delegate_def)
    have checked: "positive (amount amt)" "denom amt = bond_denom k c" "\<not> max_cap k c actor < ?t"
      using 3 by (auto simp: may_delegate_def positive_iff)
    have "0 < max_cap k c actor"
      using 3 total_delegated_nonneg [of k c actor] by (auto simp: may_delegate_def)
    then have "books k p (insert actor A) c"
      using c by (simp add: books_insert has_positive_cap)
    from stableD [OF stable_delegate_in_branch [OF laws(1) 3(1) _ keepers] this]
    have "books k p (insert actor A) (snd (Delegate k actor valAddr amt c))"
      by (simp add: Delegate_checks [OF laws ok 3(1)] checked v Let_def)
    then show ?thesis by (simp add: books_insert)
  next
    case 4
    with c show ?thesis
      by (auto simp: Delegate_checks [OF laws ok 4(1)] may_delegate_def positive_iff Let_def split: option.split)
  qed
qed

lemma stable_unbond_and_burn:
  assumes laws: "int_laws (lib k)" "coin_laws (lib k)" and t: "int_fits t" "0 \<le> t" and a: "actor \<in> B"
    and keepers: "keepers_stable k (books k p B)"
  shows "stable (books k p B) (unbond_and_burn k actor valAddr d (coin_of d t) sh)"
proof -
  let ?P = "books k p B"
  have store: "stable ?P (bind (reading (\<lambda>_. coin_sub (lib k) (coin_of d t) (coin_of d x))) (\<lambda>newDelegated.
      bind (reading (\<lambda>_. bindR (int_of (amount newDelegated)) (\<lambda>n.
        if n < 0 then new_coin (lib k) d 0 else Ok newDelegated))) (\<lambda>newDelegated.
      bind (setTotalDelegated k actor newDelegated) (\<lambda>_. ret (True, ())))))" if x: "0 \<le> x" for x
  proof (rule stable_bind_reading, rule stable_bind_reading)
    fix n n'
    assume "\<exists>s. ?P s \<and> coin_sub (lib k) (coin_of d t) (coin_of d x) = Ok n"
      and n': "\<exists>s. ?P s \<and> bindR (int_of (amount n)) (\<lambda>i. if i < 0 then new_coin (lib k) d 0 else Ok n) = Ok n'"
    then have n: "n = coin_of d (t - x)" "x \<le> t"
      using coin_lawsD(4,5) [OF laws(2), of x t d] coin_lawsD(5) [OF laws(2), of t x d]
      by (metis linorder_not_less res.distinct(3) res.inject(1))+
    then have "n' = coin_of d (t - x)"
      using n' by auto
    moreover have "int_fits (t - x)"
      using t x n(2) by (simp add: int_fits_def)
    ultimately show "stable ?P (bind (setTotalDelegated k actor n') (\<lambda>_. ret (True, ())))"
      by (simp only:) (intro stable_intros stable_setTotalDelegated laws a)
  qed
  show ?thesis
    unfolding unbond_and_burn_def
  proof ((rule stable_bind, rule keepers_stableD [OF keepers])+)
    fix coins
    show "stable ?P (bind (reading (\<lambda>_. bindR (amount_of (lib k) coins d) (new_coin (lib k) d))) (\<lambda>unbonded.
       bind (reading (\<lambda>_. int_of (amount unbonded))) (\<lambda>u.
       bind (AddSupplyOffset (bank k) d u) (\<lambda>_.
       bind (reading (\<lambda>_. coin_sub (lib k) (coin_of d t) unbonded)) (\<lambda>newDelegated.
       bind (reading (\<lambda>_. bindR (int_of (amount newDelegated)) (\<lambda>n.
         if n < 0 then new_coin (lib k) d 0 else Ok newDelegated))) (\<lambda>newDelegated.
       bind (setTotalDelegated k actor newDelegated) (\<lambda>_. ret (True, ()))))))))"
    proof (rule stable_bind_reading)
      fix unbonded
      assume "\<exists>s. ?P s \<and> bindR (amount_of (lib k) coins d) (new_coin (lib k) d) = Ok unbonded"
      then obtain x where "unbonded = coin_of d x" "0 \<le> x"
        by (auto simp: bindR_eq_Ok new_coin_Ok [OF laws(2)])
      then show "stable ?P (bind (reading (\<lambda>_. int_of (amount unbonded))) (\<lambda>u.
         bind (AddSupplyOffset (bank k) d u) (\<lambda>_.
         bind (reading (\<lambda>_. coin_sub (lib k) (coin_of d t) unbonded)) (\<lambda>newDelegated.
         bind (reading (\<lambda>_. bindR (int_of (amount newDelegated)) (\<lambda>n.
           if n < 0 then new_coin (lib k) d 0 else Ok newDelegated))) (\<lambda>newDelegated.
         bind (setTotalDelegated k actor newDelegated) (\<lambda>_. ret (True, ())))))))"
        by (simp only:) (rule stable_bind, rule stable_unchanged, rule stable_bind,
          rule keepers_stableD [OF keepers], rule store)
    qed
  qed
qed

lemma stable_Undelegate:
  assumes laws: "int_laws (lib k)" "coin_laws (lib k)" and keepers: "\<And>B. keepers_stable k (books k p B)"
  shows "stable (books k p A) (Undelegate k actor valAddr amt)"
proof (rule stableI)
  fix c assume c: "books k p A c"
  let ?t = "total_delegated k c actor" and ?d = "bond_denom k c"
  let ?in_branch = "\<lambda>a. undelegate_in_branch k actor valAddr ?d (coin_of ?d a) a (open_cache c)"
  have branch: "books k p A (snd (?in_branch a))" if a: "0 < a" for a
  proof -
    have c': "books k p A (open_cache c)"
      using c by (rule books.branch)
    have tot: "GetTotalDelegated k (open_cache c) actor = Ok (coin_of ?d ?t)"
      using GetTotalDelegated_value [OF laws(2), of "open_cache c" actor] booksD(1) [OF c']
      by (simp add: ledger_ok_def bond_denom_def total_delegated_def)
    show ?thesis
    proof (cases "?t < a")
      case True
      with c' show ?thesis
        by (simp add: undelegate_in_branch_def bind_apply tot coin_lawsD(6) [OF laws(2)])
    next
      case False
      let ?B = "insert actor A"
      have "HasMaxCapLimit c actor"
        using False a booksD(4) [OF c, of actor] by simp
      then have "books k p ?B (open_cache c)"
        using c by (intro books.branch) (simp add: books_insert)
      then have "books k p ?B (snd (unbond_and_burn k actor valAddr ?d (coin_of ?d ?t) sh (open_cache c)))" for sh
        by (intro stableD [OF stable_unbond_and_burn [OF laws]] keepers total_delegated_fits laws
            total_delegated_nonneg) simp_all
      then show ?thesis
        using c' False
        by (simp add: undelegate_in_branch_def bind_apply tot coin_lawsD(6) [OF laws(2)] attempt_apply books_insert
            split: res.split)
    qed
  qed
  show "books k p A (snd (Undelegate k actor valAddr amt c))"
  proof (cases "\<exists>a. amt = coin_of ?d a \<and> 0 < a")
    case True
    then obtain a where "amt = coin_of ?d a" "0 < a" by blast
    with books.cached_at [where m = "undelegate_in_branch k actor valAddr ?d (coin_of ?d a) a", OF c branch [OF this(2)]]
    show ?thesis
      by (simp add: Undelegate_def Let_def)
  next
    case False
    with c show ?thesis
      by (cases amt) (auto simp: Undelegate_def Let_def positive_iff)
  qed
qed

text \<open>A message of a contract, whatever the JSON decoder makes of it.\<close>

lemma stable_DispatchMsg_calls:
  assumes "\<And>a v n. stable P (Delegate k a v n)" and "\<And>a v n. stable P (Undelegate k a v n)"
  shows "stable P (DispatchMsg (lib k) unmarshal (NewDefaultCustomMsgHandler k) contract msg)"
proof (rule stableI)
  fix c assume c: "P c"
  have "stable P (handleBondMsg (lib k) (NewDefaultCustomMsgHandler k) contract b)"
    "stable P (handleUnbondMsg (lib k) (NewDefaultCustomMsgHandler k) contract u)" for b u
    unfolding handleBondMsg_def handleUnbondMsg_def NewDefaultCustomMsgHandler_def CustomMsgHandler.simps msKeeper.simps
    by (intro stable_intros assms)+
  then show "P (snd (DispatchMsg (lib k) unmarshal (NewDefaultCustomMsgHandler k) contract msg c))"
    using c by (auto simp: DispatchMsg_def dest: stableD split: option.split res.split)
qed

lemma stable_DispatchMsg:
  assumes "int_laws (lib k)" and "coin_laws (lib k)" and "\<And>B. keepers_stable k (books k p B)"
  shows "stable (books k p A) (DispatchMsg (lib k) unmarshal (NewDefaultCustomMsgHandler k) contract msg)"
  by (intro stable_DispatchMsg_calls stable_Delegate stable_Undelegate assms)

section \<open>The message of the authority\<close>

text \<open>What \<open>Coin.Validate\<close> accepts has an amount of at least zero.\<close>

definition validate_laws :: "sdk_lib \<Rightarrow> bool" where
  "validate_laws L \<longleftrightarrow> (\<forall>c. coin_validate L c = Ok () \<longrightarrow> (\<exists>a. amount c = Some a \<and> 0 \<le> a))"

context scheduling_invariant
begin

lemma stable_SetVirtualStakingMaxCap:
  assumes laws: "layout_laws (lib k)" "validate_laws (lib k)"
    and limit: "\<And>contract new a. amount new = Some a \<Longrightarrow> 0 \<le> a \<Longrightarrow> stable P (SetMaxCapLimit k contract new)"
  shows "stable P (SetVirtualStakingMaxCap k req)"
proof (cases "setcap_ValidateBasic (lib k) req = Ok ()")
  case True
  then obtain a where a: "amount (setcap_MaxCap req) = Some a" "0 \<le> a"
    using laws(2) by (auto simp: setcap_ValidateBasic_def validate_laws_def bindR_eq_Ok)
  have tp: "SchedulerTaskHandleEpoch \<noteq> SchedulerTaskUndefined" by simp
  have shot: "stable P (\<lambda>ctx. bind
      (attempt (ScheduleOneShotTask k SchedulerTaskHandleEpoch acc (BlockHeight ctx))) g ctx)"
    if "\<And>r. stable P (g r)" for acc g
    using stable_bind [OF stable_attempt [OF stable_schedule_epoch(1) [OF laws(1), of acc]] that]
    by (simp add: stable_def bind_apply attempt_apply)
  show ?thesis
    unfolding SetVirtualStakingMaxCap_def
    by (intro stable_intros shot limit [OF a] stable_task_calls [OF laws(1) tp]
        stable_schedule_epoch(2) [OF laws(1)])
next
  case False
  then show ?thesis
    by (cases "setcap_ValidateBasic (lib k) req") (simp_all add: stable_def SetVirtualStakingMaxCap_def bind_apply)
qed

end

end
