(* ===== verification/System.thy ===== *)
theory System
  imports Books
begin

text \<open>
  The module in its chain, as steps of the state.  Four relations, each over the one before: what
  the staking keeper can do to the module (its hooks), what a contract can do (its messages, which
  call the bank and the staking keeper), what can happen within a block, and what the chain does
  (everything, the end blocker with its calls of the contracts and new headers included).  A transaction that fails is undone by the SDK, so the state
  after a failure is that before it; the steps admit any result of a call all the same.  The
  invariant \<open>books\<close> goes through all of them by rule induction.
\<close>

section \<open>Steps\<close>

text \<open>The rule \<open>elsewhere\<close> is everything in the same block that does not concern the module.\<close>

inductive hook_step :: "'x Keeper \<Rightarrow> 'x ctx \<Rightarrow> 'x ctx \<Rightarrow> bool" for k where
  bonded: "AfterValidatorBonded k cons val c = (r, d) \<Longrightarrow> hook_step k c d"
| unbonding: "AfterValidatorBeginUnbonding k cons val c = (r, d) \<Longrightarrow> hook_step k c d"
| modified: "BeforeValidatorModified k val c = (r, d) \<Longrightarrow> hook_step k c d"
| elsewhere: "mstore d = mstore c \<Longrightarrow> mmem d = mmem c \<Longrightarrow> ValidateDenom (lib k) (bond_denom k d) \<Longrightarrow>
    BlockHeight d = BlockHeight c \<Longrightarrow> hook_step k c d"

inductive contract_step :: "'x Keeper \<Rightarrow> (bytes \<Rightarrow> CustomMsg res) \<Rightarrow> 'x ctx \<Rightarrow> 'x ctx \<Rightarrow> bool" for k json where
  hook: "hook_step k c d \<Longrightarrow> contract_step k json c d"
| message: "DispatchMsg (lib k) json (NewDefaultCustomMsgHandler k) contract msg c = (r, d) \<Longrightarrow> contract_step k json c d"

inductive block_step :: "'x AppModule \<Rightarrow> 'x slashing_StakingKeeper \<Rightarrow> 'x SDKStakingKeeper \<Rightarrow> 'x evidence_SlashingKeeper \<Rightarrow>
    (bytes \<Rightarrow> CustomMsg res) \<Rightarrow> 'x ctx \<Rightarrow> 'x ctx \<Rightarrow> bool" for am sk st ek json where
  contract: "contract_step (am_k am) json c d \<Longrightarrow> block_step am sk st ek json c d"
| authority: "SetVirtualStakingMaxCap (am_k am) req c = (r, d) \<Longrightarrow> block_step am sk st ek json c d"
| slash: "decorator_SlashWithInfractionReason (am_k am) sk cons ih pw ratio infr c = (amt, d) \<Longrightarrow> block_step am sk st ek json c d"
| jail: "decorator_Jail (am_k am) sk cons c = (r, d) \<Longrightarrow> block_step am sk st ek json c d"
| unjail: "decorator_Unjail (am_k am) sk cons c = (r, d) \<Longrightarrow> block_step am sk st ek json c d"
| tombstone: "decorator_Tombstone (am_k am) st ek cons c = (r, d) \<Longrightarrow> block_step am sk st ek json c d"

inductive mesh_step :: "'x AppModule \<Rightarrow> 'x slashing_StakingKeeper \<Rightarrow> 'x SDKStakingKeeper \<Rightarrow> 'x evidence_SlashingKeeper \<Rightarrow>
    (bytes \<Rightarrow> CustomMsg res) \<Rightarrow> 'x ctx \<Rightarrow> 'x ctx \<Rightarrow> bool" for am sk st ek json where
  block: "block_step am sk st ek json c d \<Longrightarrow> mesh_step am sk st ek json c d"
| end_block: "EndBlock am c = (r, d) \<Longrightarrow> mesh_step am sk st ek json c d"
| header: "mstore d = mstore c \<Longrightarrow> mmem d = mmem c \<Longrightarrow> ValidateDenom (lib (am_k am)) (bond_denom (am_k am) d) \<Longrightarrow>
    mesh_step am sk st ek json c d"

inductive_cases hook_stepE: "hook_step k c d"
inductive_cases contract_stepE: "contract_step k json c d"
inductive_simps block_step_iff: "block_step am sk st ek json c d"
inductive_cases mesh_stepE: "mesh_step am sk st ek json c d"

text \<open>What the slashing and the evidence module's own keepers do when the decorators pass a call on.\<close>

inductive slashing_effect :: "'x slashing_StakingKeeper \<Rightarrow> 'x evidence_SlashingKeeper \<Rightarrow> 'x ctx \<Rightarrow> 'x ctx \<Rightarrow> bool" for sk ek where
  own_slash: "sk_Slash sk cons ih pw ratio c = (amt, d) \<Longrightarrow> slashing_effect sk ek c d"
| own_jail: "sk_Jail sk cons c = (r, d) \<Longrightarrow> slashing_effect sk ek c d"
| own_unjail: "sk_Unjail sk cons c = (r, d) \<Longrightarrow> slashing_effect sk ek c d"
| own_tombstone: "ek_Tombstone ek cons c = (r, d) \<Longrightarrow> slashing_effect sk ek c d"

text \<open>
  The other modules reach this one only through what it offers them: the bank, staking and slashing
  keepers through the hooks, and a contract that is called through its messages as well.
\<close>

definition only_hooks :: "'x Keeper \<Rightarrow> 'x slashing_StakingKeeper \<Rightarrow> 'x evidence_SlashingKeeper \<Rightarrow> bool" where
  "only_hooks k sk ek \<longleftrightarrow> (\<forall>c d. keeper_effect k c d \<or> slashing_effect sk ek c d \<longrightarrow> (hook_step k)\<^sup>*\<^sup>* c d)"

definition only_messages :: "'x Keeper \<Rightarrow> (bytes \<Rightarrow> CustomMsg res) \<Rightarrow> bool" where
  "only_messages k json \<longleftrightarrow> (\<forall>a msg c r d. Sudo (wasm k) a msg c = (r, d) \<longrightarrow> (contract_step k json)\<^sup>*\<^sup>* c d)"

text \<open>
  A chain starts with an empty store and a valid genesis; the in-memory store may hold changes of
  validators that come with the geneses of other modules.
\<close>

definition genesis :: "'x Keeper \<Rightarrow> GenesisState \<Rightarrow> 'x ctx \<Rightarrow> bool" where
  "genesis k gs c \<longleftrightarrow> ValidateGenesis (lib k) gs = Ok () \<and> Params_good (lib k) (gs_Params gs) \<and>
     (\<exists>b. mstore b = kv_empty \<and> ValidateDenom (lib k) (bond_denom k b) \<and>
        InitGenesis k gs b = (Ok (), c))"

section \<open>Invariants along the steps\<close>

lemma rtrancl_invariant: "R\<^sup>*\<^sup>* c d \<Longrightarrow> P c \<Longrightarrow> (\<And>x y. R x y \<Longrightarrow> P x \<Longrightarrow> P y) \<Longrightarrow> P d"
  by (induction rule: rtranclp_induct) auto

text \<open>
  A predicate that does not mind what other modules do elsewhere in the same block goes through the
  hooks and what is built of them, and through the messages of the contracts if it goes through
  their handler.
\<close>

locale callback_invariant = report_invariant P for P :: "'x ctx \<Rightarrow> bool" +
  fixes k :: "'x Keeper"
  assumes outside_at: "P c \<Longrightarrow> mstore d = mstore c \<Longrightarrow> mmem d = mmem c \<Longrightarrow>
    ValidateDenom (lib k) (bond_denom k d) \<Longrightarrow> BlockHeight d = BlockHeight c \<Longrightarrow> P d"
begin

lemma hook_step_P:
  assumes L: "layout_laws (lib k)" and step: "hook_step k c d" and c: "P c"
  shows "P d"
  using step
  by cases (use c in \<open>auto simp: AfterValidatorBonded_def AfterValidatorBeginUnbonding_def BeforeValidatorModified_def
    intro: outside_at dest: stable_run [OF stable_changes(1) [OF L]] stable_run [OF stable_changes(2) [OF L]]
      stable_run [OF stable_changes(3) [OF L]]\<close>)

lemma hooks_P:
  assumes "layout_laws (lib k)" and "(hook_step k)\<^sup>*\<^sup>* c d" and "P c"
  shows "P d"
  using assms(2,3) by (rule rtrancl_invariant) (rule hook_step_P [OF assms(1)])

lemma keepers_P:
  assumes "layout_laws (lib k)" and "only_hooks k sk ek"
  shows "keepers_stable k P"
  using assms hooks_P by (fastforce simp: keepers_stable_def only_hooks_def)

lemma slashing_P:
  assumes "layout_laws (lib k)" and "only_hooks k sk ek" and "\<And>c r d. m c = (r, d) \<Longrightarrow> slashing_effect sk ek c d"
  shows "stable P m"
proof (rule stableI)
  fix c assume c: "P c"
  have "slashing_effect sk ek c (snd (m c))"
    by (rule assms(3)) (rule surjective_pairing)
  then have "(hook_step k)\<^sup>*\<^sup>* c (snd (m c))"
    using assms(2) by (simp add: only_hooks_def)
  from hooks_P [OF assms(1) this c] show "P (snd (m c))" .
qed

lemma decorators_P:
  assumes L: "layout_laws (lib k)" and hooks: "only_hooks k sk ek"
  shows "stable P (decorator_SlashWithInfractionReason k sk cons ih pw ratio infr)"
    and "stable P (decorator_Jail k sk cons)" and "stable P (decorator_Unjail k sk cons)"
    and "stable P (decorator_Tombstone k st ek cons)"
proof -
  note own = slashing_P [OF assms, OF own_slash] slashing_P [OF assms, OF own_jail]
    slashing_P [OF assms, OF own_unjail] slashing_P [OF assms, OF own_tombstone]
  show "stable P (decorator_Jail k sk cons)"
    unfolding decorator_Jail_def
    by (rule stable_looking [where m = "\<lambda>s. bind (case ValidatorByConsAddr sk (chain s) cons of
        None \<Rightarrow> ret () | Some operator \<Rightarrow> log_error (ScheduleJailed k operator)) (\<lambda>_. sk_Jail sk cons)"])
      (intro stable_intros stable_changes L own)
  show "stable P (decorator_Unjail k sk cons)"
    unfolding decorator_Unjail_def
    by (rule stable_looking [where m = "\<lambda>s. bind (case ValidatorByConsAddr sk (chain s) cons of
        None \<Rightarrow> ret () | Some operator \<Rightarrow> log_error (ScheduleUnjailed k operator)) (\<lambda>_. sk_Unjail sk cons)"])
      (intro stable_intros stable_changes L own)
  show "stable P (decorator_Tombstone k st ek cons)"
    unfolding decorator_Tombstone_def
    by (rule stable_looking [where m = "\<lambda>s. bind (case GetValidatorByConsAddr st (chain s) cons of
        None \<Rightarrow> ret () | Some v \<Rightarrow> log_error (ScheduleTombstoned k (GetOperator st v))) (\<lambda>_. ek_Tombstone ek cons)"])
      (intro stable_intros stable_changes L own)
  show "stable P (decorator_SlashWithInfractionReason k sk cons ih pw ratio infr)"
    unfolding decorator_SlashWithInfractionReason_def decorator_Slash_def Let_def
    by (rule stable_looking [where m = "\<lambda>s. bind (sk_Slash sk cons ih pw ratio) (\<lambda>amt.
        bind (case ValidatorByConsAddr sk (chain s) cons of
          None \<Rightarrow> ret () | Some operator \<Rightarrow> log_error (ScheduleSlashed k operator ih pw amt ratio)) (\<lambda>_. ret amt))"])
      (intro stable_intros stable_changes L own)
qed

lemma contract_step_P:
  assumes "layout_laws (lib k)"
    and message: "\<And>contract msg. stable P (DispatchMsg (lib k) json (NewDefaultCustomMsgHandler k) contract msg)"
    and step: "contract_step k json c d" and c: "P c"
  shows "P d"
  using step
  by cases (use c in \<open>auto dest: hook_step_P [OF assms(1)] stable_run [OF message]\<close>)

lemma sudo_P:
  assumes "layout_laws (lib k)" and "only_messages k json"
    and "\<And>contract msg. stable P (DispatchMsg (lib k) json (NewDefaultCustomMsgHandler k) contract msg)"
  shows "stable P (Sudo (wasm k) a msg)"
proof (rule stableI)
  fix s assume s: "P s"
  have "(contract_step k json)\<^sup>*\<^sup>* s (snd (Sudo (wasm k) a msg s))"
    using assms(2) surjective_pairing unfolding only_messages_def by blast
  then show "P (snd (Sudo (wasm k) a msg s))"
    using s by (rule rtrancl_invariant) (rule contract_step_P [OF assms(1,3)])
qed

end

text \<open>The same with a predicate on the times of the tasks.\<close>

locale module_invariant = timely_invariant P for P :: "'x ctx \<Rightarrow> bool" +
  fixes k :: "'x Keeper"
  assumes outside_block: "P c \<Longrightarrow> mstore d = mstore c \<Longrightarrow> mmem d = mmem c \<Longrightarrow>
    ValidateDenom (lib k) (bond_denom k d) \<Longrightarrow> BlockHeight d = BlockHeight c \<Longrightarrow> P d"

sublocale module_invariant \<subseteq> callback_invariant
  by unfold_locales (rule outside_block)

text \<open>
  One that does not mind the tasks of the authority either goes through a block; the two steps that
  move the ledger, a contract's message and the setting of a limit, are premises.
\<close>

locale block_invariant = module_invariant P k + scheduling_invariant P
  for P :: "'x ctx \<Rightarrow> bool" and k :: "'x Keeper"
begin

lemma block_step_P:
  assumes L: "layout_laws (lib k)" "validate_laws (lib k)"
    and message: "\<And>contract msg. stable P (DispatchMsg (lib k) json (NewDefaultCustomMsgHandler k) contract msg)"
    and limit: "\<And>contract new a. amount new = Some a \<Longrightarrow> 0 \<le> a \<Longrightarrow> stable P (SetMaxCapLimit k contract new)"
    and others: "only_hooks k sk ek" and am: "am_k am = k"
    and step: "block_step am sk st ek json c d" and c: "P c"
  shows "P d"
proof -
  note run = stable_run [where P = P and s = c, OF _ c]
  show ?thesis
    using step contract_step_P [OF L(1) message _ c, of d]
      run [OF stable_SetVirtualStakingMaxCap [OF L limit]]
      run [OF decorators_P(1) [OF L(1) others]] run [OF decorators_P(2) [OF L(1) others]]
      run [OF decorators_P(3) [OF L(1) others]] run [OF decorators_P(4) [OF L(1) others]]
    by (auto simp: block_step_iff am)
qed

end

text \<open>One that minds neither tasks nor heights goes through the whole chain.\<close>

locale chain_invariant = task_invariant P for P :: "'x ctx \<Rightarrow> bool" +
  fixes k :: "'x Keeper"
  assumes outside: "P c \<Longrightarrow> mstore d = mstore c \<Longrightarrow> mmem d = mmem c \<Longrightarrow>
    ValidateDenom (lib k) (bond_denom k d) \<Longrightarrow> P d"

sublocale chain_invariant \<subseteq> block_invariant
  by unfold_locales (rule outside)

context chain_invariant
begin

lemma mesh_step_P:
  assumes L: "layout_laws (lib k)" "validate_laws (lib k)"
    and message: "\<And>contract msg. stable P (DispatchMsg (lib k) json (NewDefaultCustomMsgHandler k) contract msg)"
    and limit: "\<And>contract new a. amount new = Some a \<Longrightarrow> 0 \<le> a \<Longrightarrow> stable P (SetMaxCapLimit k contract new)"
    and others: "only_hooks k sk ek" "only_messages k json" and am: "am_k am = k"
    and handler: "\<And>r. keeps (\<lambda>c. c) (asyncTaskRspHandler am r)"
    and step: "mesh_step am sk st ek json c d" and c: "P c"
  shows "P d"
  using step
proof (rule mesh_stepE)
  assume "block_step am sk st ek json c d"
  then show ?thesis
    by (intro block_step_P [OF L message _ others(1) am _ c] limit)
next
  fix r assume "EndBlock am c = (r, d)"
  moreover have "stable P (EndBlock am)"
    unfolding EndBlock_def am by (intro stable_EndBlocker L sudo_P [OF L(1) others(2) message] stable_keeps handler)
  ultimately show ?thesis
    using c by (blast intro: stable_run)
qed (use c in \<open>simp_all add: am outside\<close>)

end

section \<open>The books\<close>

interpretation books: chain_invariant "books k p A" k
proof unfold_locales
  fix c d
  assume c: "books k p A c" and d: "mstore d = mstore c" "mmem d = mmem c" "ValidateDenom (lib k) (bond_denom k d)"
  show "books k p A d"
    by (rule books_view [OF c _ d(3)]) (use c in \<open>simp_all add: d(1) books_def\<close>)
qed

lemma mesh_step_books:
  assumes laws: "int_laws (lib k)" "coin_laws (lib k)" "layout_laws (lib k)" "validate_laws (lib k)"
    and others: "only_hooks k sk ek" "only_messages k json" and am: "am_k am = k"
    and handler: "\<And>r. keeps (\<lambda>c. c) (asyncTaskRspHandler am r)"
    and step: "mesh_step am sk st ek json c d" and c: "books k p A c"
  shows "books k p A d"
proof (rule books.mesh_step_P [OF laws(3,4) _ _ others am handler step c])
  show "stable (books k p A) (DispatchMsg (lib k) json (NewDefaultCustomMsgHandler k) contract msg)" for contract msg
    by (intro stable_DispatchMsg laws books.keepers_P [OF laws(3) others(1)])
  show "stable (books k p A) (SetMaxCapLimit k contract new)" if "amount new = Some a" "0 \<le> a" for contract new a
    by (rule stable_SetMaxCapLimit [OF laws(1) that])
qed

end
