(* ===== verification/Ledger.thy ===== *)
theory Ledger
  imports System
begin

text \<open>
  What the module promises of its books, without a chain: a ledger of limits and bonded amounts that
  moves in three ways.  The lemmas show that every operation of the module is a sequence of such
  moves on the ledger that its stores stand for, so that the chain refines the ledger.
\<close>

section \<open>The abstract ledger\<close>

record ledger =
  lg_limit :: "bytes \<rightharpoonup> int"
  lg_bonded :: "bytes \<Rightarrow> int"

definition empty_ledger :: ledger where
  "empty_ledger = \<lparr>lg_limit = Map.empty, lg_bonded = (\<lambda>_. 0)\<rparr>"

definition limit_sum :: "ledger \<Rightarrow> int" where
  "limit_sum l = (\<Sum>a \<in> dom (lg_limit l). the (lg_limit l a))"

text \<open>
  \<open>M\<close> is the maximum for all limits.  A limit may be set below what is bonded; then nothing can be
  bonded until enough was unbonded.
\<close>

inductive ledger_step :: "int \<Rightarrow> ledger \<Rightarrow> ledger \<Rightarrow> bool" for M where
  set_limit: "0 \<le> v \<Longrightarrow> l' = l\<lparr>lg_limit := (lg_limit l)(a \<mapsto> v)\<rparr> \<Longrightarrow> limit_sum l' \<le> M \<Longrightarrow> ledger_step M l l'"
| bond: "lg_limit l a = Some m \<Longrightarrow> 0 < x \<Longrightarrow> lg_bonded l a + x \<le> m \<Longrightarrow>
    l' = l\<lparr>lg_bonded := (lg_bonded l)(a := lg_bonded l a + x)\<rparr> \<Longrightarrow> ledger_step M l l'"
| unbond: "lg_limit l a \<noteq> None \<Longrightarrow> 0 \<le> x \<Longrightarrow> x \<le> lg_bonded l a \<Longrightarrow>
    l' = l\<lparr>lg_bonded := (lg_bonded l)(a := lg_bonded l a - x)\<rparr> \<Longrightarrow> ledger_step M l l'"

inductive_cases ledger_stepE: "ledger_step M l l'"

text \<open>What the moves keep.\<close>

lemma ledger_step_sound:
  assumes "ledger_step M l l'" and "limit_sum l \<le> M" and "\<forall>a. 0 \<le> lg_bonded l a"
    and "\<forall>a. 0 < lg_bonded l a \<longrightarrow> lg_limit l a \<noteq> None"
  shows "limit_sum l' \<le> M" and "\<forall>a. 0 \<le> lg_bonded l' a" and "\<forall>a. 0 < lg_bonded l' a \<longrightarrow> lg_limit l' a \<noteq> None"
  using assms by (auto simp: limit_sum_def elim!: ledger_stepE split: if_splits)

section \<open>The ledger of a state\<close>

definition ledger_of :: "'x Keeper \<Rightarrow> 'x ctx \<Rightarrow> ledger" where
  "ledger_of k c = \<lparr>lg_limit = (\<lambda>a. if HasMaxCapLimit c a then Some (max_cap k c a) else None),
     lg_bonded = total_delegated k c\<rparr>"

lemma ledger_of_simps [simp]:
  "lg_limit (ledger_of k c) a = (if HasMaxCapLimit c a then Some (max_cap k c a) else None)"
  "lg_bonded (ledger_of k c) = total_delegated k c"
  by (simp_all add: ledger_of_def)

lemma limit_sum_of: "limit_sum (ledger_of k c) = total_caps k c"
proof -
  let ?as = "map fst (max_caps k c)"
  have dom: "dom (lg_limit (ledger_of k c)) = set ?as"
  proof (rule set_eqI)
    fix a
    have "a \<in> set ?as \<longleftrightarrow> (\<exists>m. (a, m) \<in> set (max_caps k c))"
      by force
    then show "a \<in> dom (lg_limit (ledger_of k c)) \<longleftrightarrow> a \<in> set ?as"
      by (simp add: max_caps_iff dom_def)
  qed
  have "map (max_cap k c) ?as = map snd (max_caps k c)"
    by (auto simp: max_caps_iff)
  then have "total_caps k c = (\<Sum>a \<in> set ?as. max_cap k c a)"
    unfolding total_caps_def by (metis max_caps_distinct sum.distinct_set_conv_list)
  moreover have "the (lg_limit (ledger_of k c) a) = max_cap k c a" if "a \<in> set ?as" for a
    using that by (auto simp: max_caps_iff)
  ultimately show ?thesis
    unfolding limit_sum_def dom by simp
qed

lemma ledger_of_cong:
  assumes "\<And>key. off_schedule key \<Longrightarrow> kv_get (mstore d) key = kv_get (mstore c) key"
  shows "ledger_of k d = ledger_of k c"
proof -
  have "max_cap k d = max_cap k c"
    by (rule ext) (rule ledger_view [OF assms])
  moreover have "total_delegated k d = total_delegated k c"
    by (rule ext) (rule ledger_view [OF assms])
  ultimately show ?thesis
    by (simp add: ledger_of_def ledger_view(6) [OF assms] cong: if_cong)
qed

lemma ledger_of_same: "mstore d = mstore c \<Longrightarrow> ledger_of k d = ledger_of k c"
  by (rule ledger_of_cong) simp

text \<open>The books, with a predicate on the ledger.\<close>

definition within :: "'x Keeper \<Rightarrow> Params \<Rightarrow> bytes set \<Rightarrow> (ledger \<Rightarrow> bool) \<Rightarrow> 'x ctx \<Rightarrow> bool" where
  "within k p A R c \<longleftrightarrow> books k p A c \<and> R (ledger_of k c)"

interpretation within: chain_invariant "within k p A R" k
proof unfold_locales
  fix c d tp x r
  assume c: "within k p A R c"
  then have b: "books k p A c" by (simp add: within_def)
  show "within k p A R d" if "mstore d = mstore c" "chain d = chain c"
    using books.same [OF that b] c ledger_of_same [OF that(1), of k] by (simp add: within_def)
  show "within k p A R d" if d: "mstore d = put_task (mstore c) tp x r" "chain d = chain c"
    using books.put [OF b d] c ledger_of_cong [of d c k] by (simp add: within_def d(1))
  show "within k p A R d" if d: "mstore d = del_task (mstore c) tp x" "chain d = chain c"
    using books.del [OF b d] c ledger_of_cong [of d c k] by (simp add: within_def d(1))
  show "within k p A R d" if d: "mstore d = mstore c" "mmem d = mmem c" "ValidateDenom (lib k) (bond_denom k d)"
    using books.outside [OF b d] c ledger_of_same [OF d(1), of k] by (simp add: within_def)
qed

section \<open>The write of a total\<close>

text \<open>A branch that is written stores the total last; what the keepers keep holds until then.\<close>

lemma delegate_in_branch_last:
  assumes keepers: "keepers_stable k P" and s: "P s"
    and run: "delegate_in_branch k actor v d amt a n s = (Ok (w, sh), s')"
  obtains s4 u where "P s4" and "setTotalDelegated k actor n s4 = (Ok u, s')"
proof -
  note stable = keepers_stableD [OF keepers]
  obtain cs s1 s2 s3 r s4 u where
    calls: "MintCoins (bank k) ModuleName cs s = (Ok (), s1)" "AddSupplyOffset (bank k) d (- a) s1 = (Ok (), s2)"
      "SendCoinsFromModuleToAccount (bank k) ModuleName actor cs s2 = (Ok (), s3)"
    and staking: "attempt (StakingDelegate (Staking k) actor a Unbonded v True) s3 = (Ok r, s4)"
    and set: "setTotalDelegated k actor n s4 = (Ok u, s')"
    using run by (auto simp: delegate_in_branch_def bind_eq_Ok)
  note s1 = stable_run [OF stable(1) s calls(1)]
  note s3 = stable_run [OF stable(4) stable_run [OF stable(5) s1 calls(2)] calls(3)]
  have "P s4"
    using stable_run [where P = P and m = "attempt (StakingDelegate (Staking k) actor a Unbonded v True)", OF _ s3 staking]
    by (blast intro: stable_intros stable)
  then show ?thesis
    using set by (rule that)
qed

lemma unbond_and_burn_last:
  assumes keepers: "keepers_stable k P" and s: "P s"
    and run: "unbond_and_burn k actor v d n sh s = (Ok (w, u), s')"
  obtains s4 t u' where "P s4" and "setTotalDelegated k actor t s4 = (Ok u', s')"
proof -
  note stable = keepers_stableD [OF keepers]
  obtain cs s1 s2 s3 x s4 t u' where
    calls: "InstantUndelegate (Staking k) actor v sh s = (Ok cs, s1)"
    "SendCoinsFromAccountToModule (bank k) actor ModuleName cs s1 = (Ok (), s2)"
    "BurnCoins (bank k) ModuleName cs s2 = (Ok (), s3)" "AddSupplyOffset (bank k) d x s3 = (Ok (), s4)"
    and set: "setTotalDelegated k actor t s4 = (Ok u', s')"
    using run unfolding unbond_and_burn_def bind_eq_Ok reading_def by (elim exE conjE) auto
  note s2 = stable_run [OF stable(3) stable_run [OF stable(7) s calls(1)] calls(2)]
  have "P s4"
    by (rule stable_run [OF stable(5) stable_run [OF stable(2) s2 calls(3)] calls(4)])
  then show ?thesis
    using set by (rule that)
qed

lemma setTotalDelegated_write:
  assumes "setTotalDelegated k actor n s = (Ok u, s')"
  obtains bz where "s' = s\<lparr>mstore := kv_set (mstore s) (BuildTotalDelegatedAmountKey actor) bz\<rparr>"
  using assms by (auto simp: setTotalDelegated_def bind_eq_Ok split: if_splits)

text \<open>What a message of a contract writes of the persistent store, at most.\<close>

lemma Delegate_write:
  assumes laws: "int_laws (lib k)" "coin_laws (lib k)" and keepers: "keepers_stable k P"
    and ok: "ledger_ok k c" and c: "P (open_cache c)" and run: "Delegate k actor v amt c = (r, d)"
  shows "BlockHeight d = BlockHeight c \<and> (mstore d = mstore c \<or>
    (\<exists>s bz. P s \<and> mstore d = kv_set (mstore s) (BuildTotalDelegatedAmountKey actor) bz))"
proof (cases "amount amt")
  case None
  with run show ?thesis by (simp add: Delegate_def positive_def)
next
  case (Some a)
  show ?thesis
  proof (rule Delegate_branch [OF laws ok Some run])
    fix va sh s assume "delegate_in_branch k actor va (bond_denom k c) amt a
        (coin_of (bond_denom k c) (total_delegated k c actor + a)) (open_cache c) = (Ok (True, sh), s)"
      and d: "d = write_cache c s"
    from delegate_in_branch_last [OF keepers c this(1)] obtain s4 u where "P s4"
      and "setTotalDelegated k actor (coin_of (bond_denom k c) (total_delegated k c actor + a)) s4 = (Ok u, s)" .
    then show ?thesis
      using d by (elim setTotalDelegated_write) auto
  qed simp
qed

lemma Undelegate_write:
  assumes laws: "int_laws (lib k)" "coin_laws (lib k)" and keepers: "keepers_stable k P"
    and ok: "ledger_ok k c" and c: "P (open_cache c)" and run: "Undelegate k actor v amt c = (r, d)"
  shows "BlockHeight d = BlockHeight c \<and> (mstore d = mstore c \<or>
    (\<exists>s bz. P s \<and> mstore d = kv_set (mstore s) (BuildTotalDelegatedAmountKey actor) bz))"
proof (cases "amount amt")
  case None
  with run show ?thesis by (simp add: Undelegate_def positive_def)
next
  case (Some a)
  show ?thesis
  proof (rule Undelegate_branch [OF laws ok Some run])
    fix sh s assume "unbond_and_burn k actor v (bond_denom k c) (coin_of (bond_denom k c) (total_delegated k c actor))
        sh (open_cache c) = (Ok (True, ()), s)" and d: "d = write_cache c s"
    from unbond_and_burn_last [OF keepers c this(1)] obtain s4 t u where "P s4"
      and "setTotalDelegated k actor t s4 = (Ok u, s)" .
    then show ?thesis
      using d by (elim setTotalDelegated_write) auto
  qed simp
qed

text \<open>A total or a limit that is stored is no task.\<close>

lemma ledger_key_not_task:
  "task_key tp x \<noteq> BuildTotalDelegatedAmountKey a" "task_key tp x \<noteq> BuildMaxCapLimitKey a"
  by (auto simp add: total_key cap_key prefix_defs)

text \<open>So a predicate that minds neither these writes nor the keepers' calls goes through the handler.\<close>

lemma stable_messages:
  assumes laws: "int_laws (lib k)" "coin_laws (lib k)"
    and keepers: "\<And>A. keepers_stable k (books k p A)" "keepers_stable k P"
    and sub: "\<And>c. P c \<Longrightarrow> books k p {} c" and cache: "\<And>c. P c \<Longrightarrow> P (open_cache c)"
    and kept: "\<And>c d a s bz. P c \<Longrightarrow> books k p {} d \<Longrightarrow> BlockHeight d = BlockHeight c \<Longrightarrow> P s \<Longrightarrow>
      mstore d = mstore s \<or> mstore d = kv_set (mstore s) (BuildTotalDelegatedAmountKey a) bz \<Longrightarrow> P d"
  shows "stable P (DispatchMsg (lib k) json (NewDefaultCustomMsgHandler k) contract msg)"
proof (rule stable_DispatchMsg_calls)
  have move: "stable P m" if books: "stable (books k p {}) m"
    and last: "\<And>c r d. ledger_ok k c \<Longrightarrow> P (open_cache c) \<Longrightarrow> m c = (r, d) \<Longrightarrow> BlockHeight d = BlockHeight c \<and>
      (mstore d = mstore c \<or> (\<exists>s bz. P s \<and> mstore d = kv_set (mstore s) (BuildTotalDelegatedAmountKey a) bz))"
    for a and m :: "('a ctx, 'b) call"
  proof (rule stableI)
    fix c assume c: "P c"
    obtain r d where run: "m c = (r, d)" by fastforce
    have "books k p {} d"
      by (rule stable_run [OF books sub [OF c] run])
    with last [OF booksD(1) [OF sub [OF c]] cache [OF c] run] show "P (snd (m c))"
      using kept [OF c] c by (auto simp: run)
  qed
  show "stable P (Delegate k a v n)" for a v n
    by (rule move [OF stable_Delegate [OF laws keepers(1)] Delegate_write [OF laws keepers(2)]])
  show "stable P (Undelegate k a v n)" for a v n
    by (rule move [OF stable_Undelegate [OF laws keepers(1)] Undelegate_write [OF laws keepers(2)]])
qed

lemma stable_limit:
  assumes laws: "int_laws (lib k)" and new: "amount new = Some a" "0 \<le> a" and sub: "\<And>c. P c \<Longrightarrow> books k p {} c"
    and kept: "\<And>c d bz. P c \<Longrightarrow> books k p {} d \<Longrightarrow> BlockHeight d = BlockHeight c \<Longrightarrow>
      mstore d = kv_set (mstore c) (BuildMaxCapLimitKey contract) bz \<Longrightarrow> P d"
  shows "stable P (SetMaxCapLimit k contract new)"
proof (rule stableI)
  fix c assume c: "P c"
  obtain r d where run: "SetMaxCapLimit k contract new c = (r, d)" by fastforce
  have d: "books k p {} d"
    by (rule stable_run [OF stable_SetMaxCapLimit [OF laws new] sub [OF c] run])
  have "P d"
  proof (cases r)
    case (Ok u)
    show ?thesis
      by (rule SetMaxCapLimit_Ok [OF laws run [unfolded Ok]], rule kept [OF c d]) simp_all
  qed (use c SetMaxCapLimit_refused [OF run] in simp_all)
  then show "P (snd (SetMaxCapLimit k contract new c))"
    by (simp add: run)
qed

section \<open>Operations as moves\<close>

text \<open>Storing a total changes one entry of the ledger.\<close>

lemma ledger_after_set:
  assumes "setTotalDelegated k actor n s = (Ok u, s')"
  shows "ledger_of k s' = (ledger_of k s)
    \<lparr>lg_bonded := (lg_bonded (ledger_of k s))(actor := total_delegated k s' actor)\<rparr>"
proof -
  obtain bz where s': "s' = s\<lparr>mstore := kv_set (mstore s) (BuildTotalDelegatedAmountKey actor) bz\<rparr>"
    using assms by (auto simp: setTotalDelegated_def bind_eq_Ok split: if_splits)
  have "max_cap k s' = max_cap k s" "HasMaxCapLimit s' = HasMaxCapLimit s"
    by (rule ext, simp add: s' max_cap_def HasMaxCapLimit_def total_key cap_key prefix_defs)+
  moreover have "total_delegated k s' = (total_delegated k s)(actor := total_delegated k s' actor)"
    by (rule ext) (simp add: s' total_delegated_def total_key)
  ultimately show ?thesis
    by (simp add: ledger_of_def cong: if_cong)
qed

text \<open>The calls of the keepers before it leave the ledger as it is.\<close>

lemma delegate_in_branch_ledger:
  assumes keepers: "keepers_stable k (within k p A ((=) l))" and s: "within k p A ((=) l) s"
    and run: "delegate_in_branch k actor v d amt a n s = (Ok (w, sh), s')"
  shows "ledger_of k s' = l\<lparr>lg_bonded := (lg_bonded l)(actor := total_delegated k s' actor)\<rparr>"
  by (rule delegate_in_branch_last [where P = "within k p A ((=) l)", OF assms])
    (auto simp: within_def dest: ledger_after_set)

lemma unbond_and_burn_ledger:
  assumes keepers: "keepers_stable k (within k p A ((=) l))" and s: "within k p A ((=) l) s"
    and run: "unbond_and_burn k actor v d n sh s = (Ok (w, u), s')"
  shows "ledger_of k s' = l\<lparr>lg_bonded := (lg_bonded l)(actor := total_delegated k s' actor)\<rparr>"
  by (rule unbond_and_burn_last [where P = "within k p A ((=) l)", OF assms])
    (auto simp: within_def dest: ledger_after_set)

text \<open>A message of a contract is no move or one, for its own account.\<close>

lemma Delegate_ledger:
  assumes laws: "int_laws (lib k)" "coin_laws (lib k)"
    and keepers: "keepers_stable k (within k p A ((=) (ledger_of k c)))"
    and c: "books k p A c" and run: "Delegate k actor v amt c = (r, d)"
  shows "ledger_of k d = ledger_of k c \<or> ledger_step M (ledger_of k c) (ledger_of k d)"
proof (cases "amount amt")
  case None
  with run show ?thesis by (simp add: Delegate_def positive_def)
next
  case (Some a)
  show ?thesis
  proof (rule Delegate_branch [OF laws booksD(1) [OF c] Some run])
    fix b assume "d = drop_cache c b"
    then show ?thesis
      by (intro disjI1 ledger_of_same) simp
  next
    fix va sh s
    let ?t = "total_delegated k c actor + a" and ?d = "bond_denom k c"
    assume written: "may_delegate k c actor v amt a" "int_fits ?t"
      "delegate_in_branch k actor va ?d amt a (coin_of ?d ?t) (open_cache c) = (Ok (True, sh), s)" "d = write_cache c s"
    have t: "0 < a" "0 \<le> ?t" "?t \<le> max_cap k c actor"
      using written(1) total_delegated_nonneg [of k c actor] by (auto simp: may_delegate_def)
    then have has: "HasMaxCapLimit c actor"
      using total_delegated_nonneg [of k c actor] by (intro has_positive_cap [of k]) simp
    have "within k p A ((=) (ledger_of k c)) (open_cache c)"
      using c by (intro within.branch) (simp add: within_def)
    from delegate_in_branch_ledger [OF keepers this written(3)]
    have "ledger_of k s = (ledger_of k c)\<lparr>lg_bonded := (lg_bonded (ledger_of k c))(actor := ?t)\<rparr>"
      by (simp add: delegate_in_branch_total(2) [OF laws(1) written(2) t(2) written(3)])
    moreover have "ledger_of k d = ledger_of k s"
      by (rule ledger_of_same) (simp add: written(4))
    ultimately show ?thesis
      using t has by (intro disjI2 bond [where a = actor and x = a and m = "max_cap k c actor"]) simp_all
  qed
qed

lemma Undelegate_ledger:
  assumes laws: "int_laws (lib k)" "coin_laws (lib k)"
    and keepers: "keepers_stable k (within k p A ((=) (ledger_of k c)))"
    and c: "books k p A c" and run: "Undelegate k actor v amt c = (r, d)"
  shows "ledger_of k d = ledger_of k c \<or> ledger_step M (ledger_of k c) (ledger_of k d)"
proof (cases "amount amt")
  case None
  with run show ?thesis by (simp add: Undelegate_def positive_def)
next
  case (Some a)
  show ?thesis
  proof (rule Undelegate_branch [OF laws booksD(1) [OF c] Some run])
    fix b assume "d = drop_cache c b"
    then show ?thesis
      by (intro disjI1 ledger_of_same) simp
  next
    fix sh s
    let ?t = "total_delegated k c actor" and ?d = "bond_denom k c"
    assume written: "is_ok r" "0 < a" "a \<le> ?t"
      "unbond_and_burn k actor v ?d (coin_of ?d ?t) sh (open_cache c) = (Ok (True, ()), s)" "d = write_cache c s"
    have has: "HasMaxCapLimit c actor"
      using written(2,3) booksD(4) [OF c, of actor] by simp
    obtain x where x: "0 \<le> x" "x \<le> ?t" "total_delegated k s actor = ?t - x"
      by (rule unbond_and_burn_total [OF laws total_delegated_fits [OF laws(1)] total_delegated_nonneg written(4)])
    have "within k p A ((=) (ledger_of k c)) (open_cache c)"
      using c by (intro within.branch) (simp add: within_def)
    from unbond_and_burn_ledger [OF keepers this written(4)]
    have "ledger_of k s = (ledger_of k c)\<lparr>lg_bonded := (lg_bonded (ledger_of k c))(actor := ?t - x)\<rparr>"
      by (simp add: x)
    moreover have "ledger_of k d = ledger_of k s"
      by (rule ledger_of_same) (simp add: written(5))
    ultimately show ?thesis
      using x has by (intro disjI2 unbond [where a = actor and x = x]) simp_all
  qed
qed

text \<open>Setting a limit is the third move.\<close>

lemma SetMaxCapLimit_ledger:
  assumes laws: "int_laws (lib k)" and c: "books k p A c" and new: "amount new = Some a" "0 \<le> a"
    and run: "SetMaxCapLimit k contract new c = (r, d)"
  shows "ledger_of k d = ledger_of k c \<or> ledger_step (total_max p) (ledger_of k c) (ledger_of k d)"
proof (cases "is_ok r")
  case True
  then obtain u where r: "r = Ok u"
    by (cases r) simp_all
  note run = run [unfolded r]
  note set = SetMaxCapLimit_within [OF laws booksD(6) [OF c] new booksD(10) [OF c] run]
  obtain bz where d: "mstore d = kv_set (mstore c) (BuildMaxCapLimitKey contract) bz"
    by (rule SetMaxCapLimit_Ok [OF laws run], rule that) simp_all
  have "total_delegated k d = total_delegated k c"
    by (rule ext) (simp add: total_delegated_def d cap_key total_key prefix_defs)
  then have "ledger_of k d = (ledger_of k c)\<lparr>lg_limit := (lg_limit (ledger_of k c))(contract \<mapsto> a)\<rparr>"
    using set by (auto simp: ledger_of_def fun_eq_iff)
  then show ?thesis
    using set new(2) limit_sum_of [of k d] by (intro disjI2 set_limit [of a _ _ contract]) simp_all
next
  case False
  with SetMaxCapLimit_refused [OF run] show ?thesis by simp
qed

section \<open>The chain refines the ledger\<close>

lemma mesh_step_ledger:
  assumes laws: "int_laws (lib k)" "coin_laws (lib k)" "layout_laws (lib k)" "validate_laws (lib k)"
    and others: "only_hooks k sk ek" "only_messages k json" and am: "am_k am = k"
    and handler: "\<And>r. keeps (\<lambda>c. c) (asyncTaskRspHandler am r)"
    and step: "mesh_step am sk st ek json c d" and c: "books k p A c"
  shows "(ledger_step (total_max p))\<^sup>*\<^sup>* (ledger_of k c) (ledger_of k d)"
proof -
  let ?R = "(ledger_step (total_max p))\<^sup>*\<^sup>* (ledger_of k c)"
  let ?P = "within k p A ?R"
  have move: "stable ?P m" if books: "stable (books k p A) m"
    and ledger: "\<And>s r t. books k p A s \<Longrightarrow> m s = (r, t) \<Longrightarrow>
      ledger_of k t = ledger_of k s \<or> ledger_step (total_max p) (ledger_of k s) (ledger_of k t)" for m :: "('a ctx, 'b) call"
  proof (rule stableI)
    fix s assume s: "?P s"
    obtain r t where run: "m s = (r, t)" by fastforce
    have "books k p A t"
      using stable_run [OF books _ run] s by (simp add: within_def)
    moreover have "?R (ledger_of k t)"
      using s ledger [OF _ run] by (auto simp: within_def intro: rtranclp.rtrancl_into_rtrancl)
    ultimately show "?P (snd (m s))"
      by (simp add: run within_def)
  qed
  note keepers = books.keepers_P [OF laws(3) others(1)] within.keepers_P [OF laws(3) others(1)]
  have "?P d"
  proof (rule within.mesh_step_P [OF laws(3,4) _ _ others am handler step])
    have "stable ?P (Delegate k a v n)" for a v n
      by (rule move [OF stable_Delegate [OF laws(1,2) keepers(1)]]) (rule Delegate_ledger [OF laws(1,2) keepers(2)])
    moreover have "stable ?P (Undelegate k a v n)" for a v n
      by (rule move [OF stable_Undelegate [OF laws(1,2) keepers(1)]]) (rule Undelegate_ledger [OF laws(1,2) keepers(2)])
    ultimately show "stable ?P (DispatchMsg (lib k) json (NewDefaultCustomMsgHandler k) contract msg)" for contract msg
      by (rule stable_DispatchMsg_calls)
    show "stable ?P (SetMaxCapLimit k contract new)" if "amount new = Some a" "0 \<le> a" for contract new a
      by (intro move stable_SetMaxCapLimit [OF laws(1) that]) (rule SetMaxCapLimit_ledger [OF laws(1) _ that])
    show "?P c"
      using c by (simp add: within_def)
  qed
  then show ?thesis
    by (simp add: within_def)
qed

end
