(* ===== verification/StoreTypes.thy ===== *)
theory StoreTypes
  imports Ledger
begin

text \<open>
  What the persistent store can hold: every key lies in one of the module's key spaces, and the value
  under it has the type of that space.  The shape of the keys is an invariant of its own, which the
  steps of the chain keep; that the values decode is part of the books.
\<close>

section \<open>Typed entries\<close>

definition key_typed :: "bytes \<Rightarrow> bytes \<Rightarrow> bool" where
  "key_typed key v \<longleftrightarrow> key = ParamsKey \<or> (\<exists>a. key = BuildMaxCapLimitKey a) \<or>
     (\<exists>a. key = BuildTotalDelegatedAmountKey a) \<or> (\<exists>tp x r. key = task_key tp x \<and> v = [toByte r])"

definition keys_typed :: "'x ctx \<Rightarrow> bool" where
  "keys_typed c \<longleftrightarrow> (\<forall>key v. kv_get (mstore c) key = Some v \<longrightarrow> key_typed key v)"

lemma keys_typed_same: "mstore d = mstore c \<Longrightarrow> keys_typed d = keys_typed c"
  by (simp add: keys_typed_def)

lemma keys_typed_set: "keys_typed c \<Longrightarrow> mstore d = kv_set (mstore c) key v \<Longrightarrow> key_typed key v \<Longrightarrow> keys_typed d"
  by (simp add: keys_typed_def)

lemma keys_typed_delete: "keys_typed c \<Longrightarrow> mstore d = kv_delete (mstore c) key \<Longrightarrow> keys_typed d"
  by (simp add: keys_typed_def split: if_splits)

definition typed :: "'x Keeper \<Rightarrow> Params \<Rightarrow> 'x ctx \<Rightarrow> bool" where
  "typed k p c \<longleftrightarrow> books k p {} c \<and> keys_typed c"

interpretation typed: chain_invariant "typed k p" k
proof unfold_locales
  fix c d tp x r
  assume "typed k p c"
  then have b: "books k p {} c" and t: "keys_typed c" by (simp_all add: typed_def)
  show "typed k p d" if "mstore d = mstore c" "chain d = chain c"
    using books.same [OF that b] t keys_typed_same [OF that(1)] by (simp add: typed_def)
  show "typed k p d" if d: "mstore d = put_task (mstore c) tp x r" "chain d = chain c"
  proof -
    have "key_typed (task_key tp x) [toByte r]"
      unfolding key_typed_def by blast
    with books.put [OF b d] show ?thesis
      using keys_typed_set [OF t d(1) [unfolded put_task_def]] by (simp add: typed_def)
  qed
  show "typed k p d" if d: "mstore d = del_task (mstore c) tp x" "chain d = chain c"
    using books.del [OF b d] keys_typed_delete [OF t d(1) [unfolded del_task_def]] by (simp add: typed_def)
  show "typed k p d" if d: "mstore d = mstore c" "mmem d = mmem c" "ValidateDenom (lib k) (bond_denom k d)"
    using books.outside [OF b d] t keys_typed_same [OF d(1)] by (simp add: typed_def)
qed

section \<open>The steps keep it\<close>

lemma mesh_step_typed:
  assumes laws: "int_laws (lib k)" "coin_laws (lib k)" "layout_laws (lib k)" "validate_laws (lib k)"
    and others: "only_hooks k sk ek" "only_messages k json" and am: "am_k am = k"
    and handler: "\<And>r. keeps (\<lambda>c. c) (asyncTaskRspHandler am r)"
    and step: "mesh_step am sk st ek json c d" and c: "typed k p c"
  shows "typed k p d"
proof (rule typed.mesh_step_P [OF laws(3,4) _ _ others am handler step c])
  have kept: "typed k p d'" if "typed k p s" "books k p {} d'" "key_typed key bz"
    "mstore d' = mstore s \<or> mstore d' = kv_set (mstore s) key bz" for s d' :: "'a ctx" and key bz
    using that keys_typed_same [of d' s] keys_typed_set [of s d' key bz] unfolding typed_def by blast
  have sub: "books k p {} s" if "typed k p s" for s
    using that by (simp add: typed_def)
  have key: "key_typed (BuildTotalDelegatedAmountKey a) bz" "key_typed (BuildMaxCapLimitKey a) bz" for a bz
    unfolding key_typed_def by blast+
  note keepers = books.keepers_P [OF laws(3) others(1)] typed.keepers_P [OF laws(3) others(1)]
  show "stable (typed k p) (DispatchMsg (lib k) json (NewDefaultCustomMsgHandler k) contract msg)" for contract msg
  proof (rule stable_messages [OF laws(1,2) keepers sub typed.branch(1)])
    fix s d' a bz assume "typed k p s" "books k p {} d'"
      "mstore d' = mstore s \<or> mstore d' = kv_set (mstore s) (BuildTotalDelegatedAmountKey a) bz"
    then show "typed k p d'"
      by (rule kept [OF _ _ key(1)])
  qed
  show "stable (typed k p) (SetMaxCapLimit k contract new)" if "amount new = Some a" "0 \<le> a" for contract new a
  proof (rule stable_limit [OF laws(1) that sub])
    fix s d' bz assume "typed k p s" "books k p {} d'"
      and "mstore d' = kv_set (mstore s) (BuildMaxCapLimitKey contract) bz"
    then show "typed k p d'"
      by (rule kept [OF _ _ key(2) disjI2])
  qed
qed

text \<open>With the books, the values decode.\<close>

lemma typed_entry:
  assumes "typed k p c" and get: "kv_get (mstore c) key = Some v"
  shows "key = ParamsKey \<and> Params_Unmarshal (lib k) empty_Params v = Ok p \<or>
    (\<exists>a m. key = BuildMaxCapLimitKey a \<and> int_unmarshal (lib k) v = Ok m \<and> 0 \<le> m) \<or>
    (\<exists>a m. key = BuildTotalDelegatedAmountKey a \<and> int_unmarshal (lib k) v = Ok m) \<or>
    (\<exists>tp x r. key = task_key tp x \<and> v = [toByte r])"
proof -
  have b: "books k p {} c" and "key_typed key v"
    using assms by (auto simp: typed_def keys_typed_def)
  then consider "key = ParamsKey" | a where "key = BuildMaxCapLimitKey a" | a where "key = BuildTotalDelegatedAmountKey a"
    | tp x r where "key = task_key tp x" "v = [toByte r]"
    unfolding key_typed_def by blast
  then show ?thesis
  proof cases
    case 1
    then show ?thesis
      using get booksD(2) [OF b] by (simp add: GetParams_def)
  next
    case (2 a)
    then have "(a, v) \<in> set (kv_prefix (mstore c) MaxCapLimitKeyPrefix)"
      using get by (simp add: caps_entry)
    from caps_okD [OF booksD(6) [OF b] this] 2 show ?thesis by blast
  next
    case (3 a)
    then have "(a, v) \<in> set (kv_prefix (mstore c) TotalDelegatedAmountKeyPrefix)"
      using get by (simp add: kvs.scan_iff total_key)
    then have "is_ok (int_unmarshal (lib k) v)"
      using booksD(7) [OF b] by (auto simp: totals_ok_def list_all_iff)
    with 3 show ?thesis by (auto simp: is_ok_iff)
  next
    case (4 tp x r)
    then show ?thesis by blast
  qed
qed

end
