(* ===== verification/SystemProps.thy ===== *)
theory SystemProps
  imports StoreTypes EndBlockProps HandlerProps
begin

text \<open>
  The properties of the module over its whole life: what holds in every state that the chain reaches
  from a genesis, by whatever messages, hooks, slashes and blocks.
\<close>

section \<open>From genesis on\<close>

text \<open>A genesis leaves nothing in the store but the parameters.\<close>

lemma genesis_store:
  assumes "genesis k gs c"
  obtains b where "c = b\<lparr>mstore := kv_set kv_empty ParamsKey (Params_wire (lib k) (gs_Params gs))\<rparr>"
    and "ValidateDenom (lib k) (bond_denom k b)"
proof -
  obtain b where b: "mstore b = kv_empty" "ValidateDenom (lib k) (bond_denom k b)" "InitGenesis k gs b = (Ok (), c)"
    and good: "Params_good (lib k) (gs_Params gs)"
    using assms by (auto simp: genesis_def)
  then show ?thesis
    using SetParams_Ok [OF good, of b] by (intro that [of b]) (simp_all add: InitGenesis_def)
qed

lemma genesis_books:
  assumes laws: "validate_laws (lib k)" and gen: "genesis k gs c"
  shows "books k (gs_Params gs) {} c"
proof -
  let ?p = "gs_Params gs"
  have good: "Params_good (lib k) ?p" and valid: "ValidateGenesis (lib k) gs = Ok ()"
    using gen by (auto simp: genesis_def)
  obtain b where c: "c = b\<lparr>mstore := kv_set kv_empty ParamsKey (Params_wire (lib k) ?p)\<rparr>"
    and b: "ValidateDenom (lib k) (bond_denom k b)"
    by (rule genesis_store [OF gen])
  have none: "kv_prefix (mstore c) q = []" if "q \<noteq> []" "take 1 q \<noteq> ParamsKey" for q
    using that by (cases q) (simp_all add: c kvs.scan_put_other ParamsKey_def)
  have "amount (TotalContractsMaxCap ?p) \<noteq> None" "0 \<le> total_max ?p"
    using laws valid by (auto simp: validate_laws_def ValidateGenesis_def Params_ValidateBasic_Ok)
  moreover have "GetParams k c = Ok ?p"
    by (rule GetParams_stored [OF good]) (simp add: c)
  moreover have "ValidateDenom (lib k) (bond_denom k c)"
    using b by (simp add: c bond_denom_def)
  ultimately show ?thesis
    by (simp add: books_def ledger_ok_def caps_ok_def totals_ok_def total_caps_def max_caps_def tasks_ok_def none
        prefix_defs)
      (simp add: c total_delegated_def total_key prefix_defs)
qed

lemma genesis_ledger: "genesis k gs c \<Longrightarrow> ledger_of k c = empty_ledger"
  by (erule genesis_store) (simp add: ledger_of_def empty_ledger_def HasMaxCapLimit_def kv_has_def total_delegated_def
      fun_eq_iff total_key cap_key prefix_defs)

lemma genesis_typed: "validate_laws (lib k) \<Longrightarrow> genesis k gs c \<Longrightarrow> typed k (gs_Params gs) c"
  unfolding typed_def
  by (intro conjI genesis_books, assumption+) (erule genesis_store, simp add: keys_typed_def key_typed_def)

lemma reachable_books:
  assumes "int_laws (lib k)" "coin_laws (lib k)" "layout_laws (lib k)" "validate_laws (lib k)"
    and "only_hooks k sk ek" "only_messages k json" and "am_k am = k"
    and "\<And>r. keeps (\<lambda>c. c) (asyncTaskRspHandler am r)"
    and "genesis k gs c0" and "(mesh_step am sk st ek json)\<^sup>*\<^sup>* c0 c"
  shows "books k (gs_Params gs) {} c"
  using assms(10) genesis_books [OF assms(4,9)] by (rule rtrancl_invariant) (rule mesh_step_books [OF assms(1-8)])

lemma reachable_typed:
  assumes "int_laws (lib k)" "coin_laws (lib k)" "layout_laws (lib k)" "validate_laws (lib k)"
    and "only_hooks k sk ek" "only_messages k json" and "am_k am = k"
    and "\<And>r. keeps (\<lambda>c. c) (asyncTaskRspHandler am r)"
    and "genesis k gs c0" and "(mesh_step am sk st ek json)\<^sup>*\<^sup>* c0 c"
  shows "typed k (gs_Params gs) c"
  using assms(10) genesis_typed [OF assms(4,9)] by (rule rtrancl_invariant) (rule mesh_step_typed [OF assms(1-8)])

lemma steps_ledger:
  assumes "int_laws (lib k)" "coin_laws (lib k)" "layout_laws (lib k)" "validate_laws (lib k)"
    and "only_hooks k sk ek" "only_messages k json" and "am_k am = k"
    and "\<And>r. keeps (\<lambda>c. c) (asyncTaskRspHandler am r)"
    and c: "books k p {} c" and run: "(mesh_step am sk st ek json)\<^sup>*\<^sup>* c d"
  shows "(ledger_step (total_max p))\<^sup>*\<^sup>* (ledger_of k c) (ledger_of k d) \<and> books k p {} d"
  using run
proof (rule rtrancl_invariant)
  fix x y
  assume step: "mesh_step am sk st ek json x y"
    and x: "(ledger_step (total_max p))\<^sup>*\<^sup>* (ledger_of k c) (ledger_of k x) \<and> books k p {} x"
  show "(ledger_step (total_max p))\<^sup>*\<^sup>* (ledger_of k c) (ledger_of k y) \<and> books k p {} y"
    using x mesh_step_ledger [OF assms(1-8) step, of p] mesh_step_books [OF assms(1-8) step, of p]
    by (blast intro: rtranclp_trans)
qed (use c in simp)

section \<open>Blocks end\<close>

lemma default_handler_reads: "keeps f (DefaultExecutionResponseHandler r)"
  by (simp add: keeps_def DefaultExecutionResponseHandler_def)

lemma demo_module [simp]:
  "am_k (NewAppModule k) = k" "asyncTaskRspHandler (NewAppModule k) = DefaultExecutionResponseHandler"
  by (simp_all add: NewAppModule_def NewAppModuleX_def)

text \<open>Contracts may bond and unbond in their callbacks: a run returns all the same, and the books are kept.\<close>

lemma books_exec_tasks:
  assumes L: "layout_laws (lib k)" and tp: "tp \<noteq> SchedulerTaskUndefined" and cb: "\<And>a. stable (books k p A) (cb a)"
  shows "books k p A c \<Longrightarrow> BlockHeight c \<le> BlockHeight c + epoch \<Longrightarrow> list_all (\<lambda>r. RescheduleErr r = None) acc \<Longrightarrow>
    \<exists>rs d. iterate (visit (exec_task k tp epoch cb)) ts acc c = (Ok rs, d) \<and> list_all (\<lambda>r. RescheduleErr r = None) rs \<and>
      books k p A d \<and> BlockHeight d = BlockHeight c"
proof (induction ts arbitrary: acc c)
  case (Cons t ts)
  obtain h a rep where t: "t = ((h, a), rep)"
    by (cases t) auto
  have g: "GetMaxSudoGas k c = Ok (ucast (MaxGasEndBlocker p))"
    using booksD(2) [OF Cons.prems(1)] by (simp add: GetMaxSudoGas_def)
  obtain res d where step: "exec_task k tp epoch cb a h rep acc c = (Ok (False, acc @ [res]), d)"
    and d: "books k p A d" "BlockHeight d = BlockHeight c" and "RescheduleErr res = None"
    by (rule books.exec_task_P [where cb = cb and a = a and epoch = epoch and h = h and rep = rep and acc = acc, OF L tp cb Cons.prems(1) g])
      (use Cons.prems in blast)
  with Cons.prems show ?case
    using Cons.IH [OF d(1), of "acc @ [res]"] by (simp add: visit_def bind_apply t)
qed simp

lemma books_run:
  assumes L: "layout_laws (lib k)" and tp: "tp \<noteq> SchedulerTaskUndefined" and cb: "\<And>a. stable (books k p A) (cb a)"
    and wf: "tasks_ok (mstore c) tp" and c: "books k p A c" and no_wrap: "BlockHeight c \<le> BlockHeight c + epoch"
  obtains d where "bind (attempt (ExecScheduledTasks k tp epoch cb)) (rspHandler DefaultExecutionResponseHandler) c = (Ok (), d)"
    and "books k p A d" and "BlockHeight d = BlockHeight c"
proof -
  obtain rs d where "ExecScheduledTasks k tp epoch cb c = (Ok rs, d)" "list_all (\<lambda>r. RescheduleErr r = None) rs"
      "books k p A d" "BlockHeight d = BlockHeight c"
    using books_exec_tasks [where cb = cb and acc = "[]" and ts = "due_tasks (mstore c) tp (BlockHeight c)",
        OF L tp cb c no_wrap]
    by (auto simp: ExecScheduledTasks_def IterateScheduledTasks_due [OF L tp wf])
  then show ?thesis
    by (intro that [of d]) (simp_all add: bind_apply attempt_apply rspHandler_def handle_all_default)
qed

lemma books_EndBlock:
  assumes laws: "int_laws (lib k)" "coin_laws (lib k)" "layout_laws (lib k)"
    and others: "only_hooks k sk ek" "only_messages k json"
    and c: "books k p {} c" and no_wrap: "BlockHeight c \<le> BlockHeight c + ucast (EpochLength p)"
  obtains d where "EndBlock (NewAppModule k) c = (Ok (), d)" and "books k p {} d"
proof -
  let ?e = "ucast (EpochLength p) :: u64"
  have sudo: "stable (books k p {}) (Sudo (wasm k) a msg)" for a msg
    by (rule books.sudo_P [OF laws(3) others(2)])
      (intro stable_DispatchMsg laws books.keepers_P [OF laws(3) others(1)])
  note cb = stable_executors [OF sudo]
  have tp: "SchedulerTaskValsetUpdate \<noteq> SchedulerTaskUndefined" "SchedulerTaskHandleEpoch \<noteq> SchedulerTaskUndefined"
    and wf: "tasks_ok (mstore c) SchedulerTaskValsetUpdate"
    using c by (simp_all add: books_def)
  obtain d1 where first: "bind (attempt (ExecScheduledTasks k SchedulerTaskValsetUpdate ?e (valset_executor k)))
      (rspHandler DefaultExecutionResponseHandler) c = (Ok (), d1)"
    and d1: "books k p {} d1" "BlockHeight d1 = BlockHeight c"
    by (rule books_run [OF laws(3) tp(1) cb(1) wf c no_wrap])
  let ?c2 = "ClearPipedValsetOperations k d1"
  have c2: "books k p {} ?c2" "BlockHeight ?c2 = BlockHeight c"
    using stableD [OF books.stable_ClearPiped d1(1), of k] d1(2) by (simp_all add: ClearPipedValsetOperations_def)
  obtain d where second: "bind (attempt (ExecScheduledTasks k SchedulerTaskHandleEpoch ?e (epoch_executor k)))
      (rspHandler DefaultExecutionResponseHandler) ?c2 = (Ok (), d)" and d: "books k p {} d"
    by (rule books_run [where epoch = ?e, OF laws(3) tp(2) cb(2) booksD(8) [OF c2(1)] c2(1)]) (use no_wrap c2 in simp_all)
  have "reading (GetRebalanceEpochLength k) c = (Ok ?e, c)"
    using booksD(2) [OF c] by (simp add: GetRebalanceEpochLength_def)
  then have "EndBlocker k DefaultExecutionResponseHandler c = (Ok (), d)"
    unfolding EndBlocker_parts by (subst bind_Ok, assumption)
      (simp add: bind_Ok [where m = "bind (attempt _) _", OF first] bind_Ok [OF update_state_apply] second)
  with d show ?thesis
    by (intro that [of d]) (simp_all add: EndBlock_def)
qed

lemma cleared:
  assumes L: "layout_laws (lib k)" and sudo: "sudo_laws k" and c: "books k p {} c"
    and no_wrap: "BlockHeight c \<le> BlockHeight c + ucast (EpochLength p)" and run: "EndBlock (NewAppModule k) c = (Ok (), d)"
  shows "kv_prefix (mmem d) PipedValsetPrefix = []"
proof -
  have wf: "tasks_ok (mstore c) SchedulerTaskValsetUpdate"
    using c by (simp add: books_def)
  obtain d' where "EndBlocker k DefaultExecutionResponseHandler c = (Ok (), d')" "mmem d' = mmem (ClearPipedValsetOperations k c)"
    by (rule EndBlocker_run [OF L sudo booksD(2) [OF c] wf booksD(8) [OF c] no_wrap])
  with run Clear_empties [of k c] show ?thesis
    by (simp add: EndBlock_def)
qed

section \<open>Properties\<close>

text \<open>
  C1.  In every state that a chain can reach from its genesis, the limits of all contracts add up to
  no more than the maximum of the genesis, which is still the module's parameter; everything stored
  decodes, and only contracts that were given a limit have a delegated total.
\<close>
theorem limits_hold_always:
  assumes laws: "int_laws (lib k)" "coin_laws (lib k)" "layout_laws (lib k)" "validate_laws (lib k)"
    and others: "only_hooks k sk ek" "only_messages k json" and am: "am_k am = k"
    and handler: "\<And>r. keeps (\<lambda>c. c) (asyncTaskRspHandler am r)"
    and gen: "genesis k gs c0" and run: "(mesh_step am sk st ek json)\<^sup>*\<^sup>* c0 c"
  shows "total_caps k c \<le> total_max (gs_Params gs) \<and> ExportGenesis k c = Ok gs \<and> ledger_ok k c \<and>
    (\<forall>a. 0 < total_delegated k c a \<longrightarrow> HasMaxCapLimit c a)"
  using booksD [OF reachable_books [OF assms]] by (simp add: ExportGenesis_def NewGenesisState_def)

text \<open>The instance: its keepers call no hooks, and its contracts send no messages.\<close>

definition demo_evidence :: "demo_chain evidence_SlashingKeeper" where
  "demo_evidence = \<lparr>ek_Tombstone = (\<lambda>_. ret ())\<rparr>"

lemma demo_validate_laws [simp]: "validate_laws demo_lib"
  by (auto simp: validate_laws_def demo_lib_def split: option.splits if_splits)

lemma demo_elsewhere: "mstore d = mstore c \<Longrightarrow> mmem d = mmem c \<Longrightarrow> BlockHeight d = BlockHeight c \<Longrightarrow> hook_step demo_keeper c d"
  by (rule hook_step.elsewhere) (simp_all add: demo_chain_simps)

lemma demo_undelegate:
  "adapter_InstantUndelegate demo_lib demo_staking demo_bank a v sh c = (r, d) \<Longrightarrow> d = c"
  by (auto simp: adapter_InstantUndelegate_def demo_staking_def demo_bank_def bind_apply Let_def
      split: option.splits res.splits)

lemma demo_keeper_effect: "keeper_effect demo_keeper c d \<Longrightarrow>
    mstore d = mstore c \<and> mmem d = mmem c \<and> BlockHeight d = BlockHeight c"
  by (induction rule: keeper_effect.induct) (auto simp: add_supply_def split: if_splits dest: demo_undelegate)

lemma demo_only_hooks [simp]: "only_hooks demo_keeper demo_slashing demo_evidence"
proof -
  have "hook_step demo_keeper c d" if "keeper_effect demo_keeper c d" for c d
    using demo_keeper_effect [OF that] by (simp add: demo_elsewhere)
  moreover have "hook_step demo_keeper c d" if "slashing_effect demo_slashing demo_evidence c d" for c d
    using that by cases (auto simp: demo_slashing_def demo_evidence_def intro: demo_elsewhere)
  ultimately show ?thesis
    by (auto simp: only_hooks_def)
qed

lemma demo_only_messages [simp]: "only_messages demo_keeper json"
proof -
  have "hook_step demo_keeper c (snd (demo_sudo a msg c))" for a msg c
    by (rule demo_elsewhere) (simp_all add: demo_sudo_def Let_def)
  then show ?thesis
    by (auto simp: only_messages_def demo_wasm_def intro!: r_into_rtranclp contract_step.hook) (metis snd_conv)
qed

lemma demo_genesis [simp]: "genesis demo_keeper \<lparr>gs_Params = demo_params\<rparr> demo_start"
proof -
  have "InitGenesis demo_keeper \<lparr>gs_Params = demo_params\<rparr> demo_blank = (Ok (), demo_start)"
    using SetParams_Ok [of demo_keeper demo_params demo_blank]
    by (simp add: InitGenesis_def demo_start_def) (simp add: demo_blank_def)
  moreover have "ValidateGenesis demo_lib \<lparr>gs_Params = demo_params\<rparr> = Ok ()"
    by (simp add: ValidateGenesis_def Params_ValidateBasic_Ok) (simp add: demo_params_def demo_lib_def)
  ultimately show ?thesis
    by (auto simp: genesis_def intro!: exI [of _ demo_blank]) (simp_all add: demo_blank_def)
qed

text \<open>From the genesis of the instance, the authority gives a contract a limit of 800.\<close>

lemma demo_governed:
  obtains d where "SetVirtualStakingMaxCap demo_keeper (demo_request ''gov'' 800) demo_start =
      (Ok MsgSetVirtualStakingMaxCapResponse, d)"
    and "(mesh_step (NewAppModule demo_keeper) demo_slashing demo_staking demo_evidence demo_bond)\<^sup>*\<^sup>* demo_start d"
    and "max_cap demo_keeper d con_a = 800" and "HasMaxCapLimit d con_a"
    and "block_step (NewAppModule demo_keeper) demo_slashing demo_staking demo_evidence demo_bond demo_start d"
    and "task_at (mstore d) SchedulerTaskHandleEpoch (BlockHeight demo_start + 50, con_a) = Some True"
proof -
  let ?am = "NewAppModule demo_keeper"
  let ?req = "demo_request ''gov'' 800"
  have valid: "setcap_ValidateBasic demo_lib ?req = Ok ()"
    by (simp add: setcap_ValidateBasic_def demo_request_def) (simp add: demo_lib_def)
  obtain c1 where set: "SetMaxCapLimit demo_keeper con_a (coin_of ''stake'' 800) demo_start = (Ok (), c1)"
    and cap: "max_cap demo_keeper c1 con_a = 800"
    using SetMaxCapLimit_run [of demo_keeper demo_start "''stake''" 1000 con_a 800 "demo_int 800" "coin_of ''stake'' 800"]
    by (auto simp: int_fits_def max_cap_def)
  have epoch: "GetRebalanceEpochLength demo_keeper demo_start = Ok 50"
    using demo_GetParams [of demo_start] by (simp add: GetRebalanceEpochLength_def demo_params_def)
  obtain d where d: "SetVirtualStakingMaxCap demo_keeper ?req demo_start = (Ok MsgSetVirtualStakingMaxCapResponse, d)"
    and off: "\<And>key. off_schedule key \<Longrightarrow> kv_get (mstore d) key = kv_get (mstore c1) key"
    and at: "\<And>x. task_at (mstore d) SchedulerTaskHandleEpoch x =
      rescheduled (BlockHeight demo_start) 50 con_a False (task_at (mstore demo_start) SchedulerTaskHandleEpoch) x"
  proof (rule SetVirtualStakingMaxCap_run [of demo_keeper ?req con_a 800 demo_start c1 50])
    show "acc_from_bech32 (lib demo_keeper) (setcap_Contract ?req) = Ok con_a"
      by (simp add: demo_request_def con_a_def)
  qed (use valid set epoch in \<open>simp_all add: demo_request_def demo_wasm_def\<close>)
  have cap': "max_cap demo_keeper d con_a = 800"
    using cap off [of "BuildMaxCapLimitKey con_a"] by (simp add: max_cap_def off_schedule_def cap_key prefix_defs)
  have "SetVirtualStakingMaxCap (am_k ?am) ?req demo_start = (Ok MsgSetVirtualStakingMaxCapResponse, d)"
    using d by simp
  then have "block_step ?am demo_slashing demo_staking demo_evidence demo_bond demo_start d"
    by (rule block_step.authority)
  moreover have "task_at (mstore demo_start) SchedulerTaskHandleEpoch x = None" for x
    by (simp add: task_at_def demo_start_def prefix_defs ParamsKey_def)
  ultimately show ?thesis
    using has_positive_cap [of demo_keeper d con_a]
    by (intro that [OF d _ cap']) (auto simp: cap' at rescheduled_def intro: mesh_step.block)
qed

theorem limits_hold_always_witness:
  "\<exists>d. SetVirtualStakingMaxCap demo_keeper (demo_request ''gov'' 800) demo_start = (Ok MsgSetVirtualStakingMaxCapResponse, d) \<and>
    total_caps demo_keeper d \<le> 1000 \<and> max_cap demo_keeper d con_a = 800"
proof (rule demo_governed)
  fix d
  assume d: "SetVirtualStakingMaxCap demo_keeper (demo_request ''gov'' 800) demo_start = (Ok MsgSetVirtualStakingMaxCapResponse, d)"
    and run: "(mesh_step (NewAppModule demo_keeper) demo_slashing demo_staking demo_evidence demo_bond)\<^sup>*\<^sup>* demo_start d"
    and cap: "max_cap demo_keeper d con_a = 800"
  from limits_hold_always [OF _ _ _ _ _ _ _ _ demo_genesis run]
  have "total_caps demo_keeper d \<le> total_max demo_params"
    by (simp add: default_handler_reads)
  then show ?thesis
    using d cap by (auto simp: demo_params_def)
qed

text \<open>
  C2.  The chain refines the ledger: from the empty ledger of a genesis to any state that the chain
  reaches, and from there to any later one, the limits and bonded amounts move only by setting a
  limit within the maximum, bonding below the limit and unbonding what was bonded.  Nothing that
  hooks, slashes, blocks, callbacks or failed calls do shows in it.
\<close>
theorem chain_refines_ledger:
  assumes laws: "int_laws (lib k)" "coin_laws (lib k)" "layout_laws (lib k)" "validate_laws (lib k)"
    and others: "only_hooks k sk ek" "only_messages k json" and am: "am_k am = k"
    and handler: "\<And>r. keeps (\<lambda>c. c) (asyncTaskRspHandler am r)"
    and gen: "genesis k gs c0" and run: "(mesh_step am sk st ek json)\<^sup>*\<^sup>* c0 c"
    and later: "(mesh_step am sk st ek json)\<^sup>*\<^sup>* c d"
  shows "(ledger_step (total_max (gs_Params gs)))\<^sup>*\<^sup>* empty_ledger (ledger_of k c) \<and>
    (ledger_step (total_max (gs_Params gs)))\<^sup>*\<^sup>* (ledger_of k c) (ledger_of k d)"
proof -
  note steps = steps_ledger [OF laws others am handler]
  show ?thesis
    using steps [OF genesis_books [OF laws(4) gen] run] steps [OF _ later, of "gs_Params gs"]
    by (simp add: genesis_ledger [OF gen])
qed

theorem chain_refines_ledger_witness:
  "\<exists>d. SetVirtualStakingMaxCap demo_keeper (demo_request ''gov'' 800) demo_start = (Ok MsgSetVirtualStakingMaxCapResponse, d) \<and>
    lg_limit (ledger_of demo_keeper d) con_a = Some 800 \<and>
    (ledger_step 1000)\<^sup>*\<^sup>* empty_ledger (ledger_of demo_keeper d)"
proof (rule demo_governed)
  fix d
  assume d: "SetVirtualStakingMaxCap demo_keeper (demo_request ''gov'' 800) demo_start = (Ok MsgSetVirtualStakingMaxCapResponse, d)"
    and run: "(mesh_step (NewAppModule demo_keeper) demo_slashing demo_staking demo_evidence demo_bond)\<^sup>*\<^sup>* demo_start d"
    and cap: "max_cap demo_keeper d con_a = 800" "HasMaxCapLimit d con_a"
  from chain_refines_ledger [OF _ _ _ _ _ _ _ _ demo_genesis run rtranclp.rtrancl_refl]
  have "(ledger_step (total_max demo_params))\<^sup>*\<^sup>* empty_ledger (ledger_of demo_keeper d)"
    by (simp add: default_handler_reads)
  then show ?thesis
    using d cap by (auto simp: demo_params_def)
qed

text \<open>
  C3.  The persistent store is well typed in every reachable state: each key is the parameters' key, or
  that of a limit, a total or a task, and the value under it is of that type; the limits are not
  negative, and nothing else is stored.
\<close>
theorem store_is_typed:
  assumes laws: "int_laws (lib k)" "coin_laws (lib k)" "layout_laws (lib k)" "validate_laws (lib k)"
    and others: "only_hooks k sk ek" "only_messages k json" and am: "am_k am = k"
    and handler: "\<And>r. keeps (\<lambda>c. c) (asyncTaskRspHandler am r)"
    and gen: "genesis k gs c0" and run: "(mesh_step am sk st ek json)\<^sup>*\<^sup>* c0 c"
    and stored: "kv_get (mstore c) key = Some v"
  shows "key = ParamsKey \<and> Params_Unmarshal (lib k) empty_Params v = Ok (gs_Params gs) \<or>
    (\<exists>a m. key = BuildMaxCapLimitKey a \<and> int_unmarshal (lib k) v = Ok m \<and> 0 \<le> m) \<or>
    (\<exists>a m. key = BuildTotalDelegatedAmountKey a \<and> int_unmarshal (lib k) v = Ok m) \<or>
    (\<exists>tp h a r. key = SchedulerKeyPrefix @ [tp] @ put_uint64 h @ a \<and> v = [toByte r])"
  using typed_entry [OF reachable_typed [OF laws others am handler gen run] stored] by fastforce

theorem store_is_typed_witness:
  "\<exists>d v. SetVirtualStakingMaxCap demo_keeper (demo_request ''gov'' 800) demo_start = (Ok MsgSetVirtualStakingMaxCapResponse, d) \<and>
    kv_get (mstore d) (BuildMaxCapLimitKey con_a) = Some v \<and> (\<exists>m. int_unmarshal demo_lib v = Ok m \<and> 0 \<le> m)"
proof (rule demo_governed)
  fix d
  assume d: "SetVirtualStakingMaxCap demo_keeper (demo_request ''gov'' 800) demo_start = (Ok MsgSetVirtualStakingMaxCapResponse, d)"
    and run: "(mesh_step (NewAppModule demo_keeper) demo_slashing demo_staking demo_evidence demo_bond)\<^sup>*\<^sup>* demo_start d"
    and has: "HasMaxCapLimit d con_a"
  from has obtain v where v: "kv_get (mstore d) (BuildMaxCapLimitKey con_a) = Some v"
    by (auto simp: HasMaxCapLimit_def kv_has_def)
  from store_is_typed [OF _ _ _ _ _ _ _ _ demo_genesis run v]
  have "\<exists>m. int_unmarshal demo_lib v = Ok m \<and> 0 \<le> m"
    by (simp add: default_handler_reads cap_key total_key prefix_defs)
  with d v show ?thesis by blast
qed

text \<open>
  C5.  The chain does not halt in the module's end blocker: in every state that it can reach, a block
  ends without a panic under the default handler, however the contracts' callbacks end and whatever
  they bond and unbond, as long as the next epoch is still a block height.  If they leave the schedule
  and the changes alone, all changes are done with.
\<close>
theorem every_block_ends:
  assumes laws: "int_laws (lib k)" "coin_laws (lib k)" "layout_laws (lib k)" "validate_laws (lib k)"
    and others: "only_hooks k sk ek" "only_messages k json"
    and gen: "genesis k gs c0" and run: "(mesh_step (NewAppModule k) sk st ek json)\<^sup>*\<^sup>* c0 c"
    and epoch: "BlockHeight c \<le> BlockHeight c + ucast (EpochLength (gs_Params gs))"
  shows "\<exists>d. EndBlock (NewAppModule k) c = (Ok (), d) \<and> books k (gs_Params gs) {} d \<and>
    (sudo_laws k \<longrightarrow> kv_prefix (mmem d) PipedValsetPrefix = [])"
proof -
  have handler: "\<And>r. keeps (\<lambda>c. c) (asyncTaskRspHandler (NewAppModule k) r)"
    by (simp add: default_handler_reads)
  have c: "books k (gs_Params gs) {} c"
    by (rule reachable_books [OF laws others demo_module(1) handler gen run])
  obtain d where d: "EndBlock (NewAppModule k) c = (Ok (), d)" "books k (gs_Params gs) {} d"
    by (rule books_EndBlock [OF laws(1-3) others c epoch])
  with cleared [OF laws(3) _ c epoch d(1)] show ?thesis by blast
qed

theorem every_block_ends_witness:
  "\<exists>d. EndBlock (NewAppModule demo_keeper) demo_start = (Ok (), d) \<and> ledger_ok demo_keeper d \<and>
    kv_prefix (mmem d) PipedValsetPrefix = []"
proof -
  have "(mesh_step (NewAppModule demo_keeper) demo_slashing demo_staking demo_evidence demo_bond)\<^sup>*\<^sup>* demo_start demo_start" ..
  from every_block_ends [OF _ _ _ _ _ _ demo_genesis this]
  show ?thesis
    by (auto simp: demo_params_def dest: booksD(1))
qed

end
