(* ===== verification/BlockTasks.thy ===== *)
theory BlockTasks
  imports SystemProps
begin

text \<open>
  What a block leaves of the schedule, whatever its callbacks do.  The contracts that the end blocker
  calls may bond and unbond and so change validators, which asks for reports of the changes; the
  lemmas show that this is all they can do to the schedule, and that the end blocker otherwise leaves
  exactly the tasks that the abstract queue says.
\<close>

section \<open>Reports that callbacks ask for\<close>

text \<open>Two stores have the same tasks, but for reports of the height \<open>H\<close> that are new in the second.\<close>

definition only_reports :: "u64 \<Rightarrow> kvstore \<Rightarrow> kvstore \<Rightarrow> bool" where
  "only_reports H s t \<longleftrightarrow> (\<forall>tp x. task_at t tp x = task_at s tp x \<or>
     tp = SchedulerTaskValsetUpdate \<and> fst x = H \<and> task_at s tp x = None \<and> task_at t tp x = Some False)"

lemma only_reports_same: "task_at t = task_at s \<Longrightarrow> only_reports H s t"
  by (simp add: only_reports_def)

lemma only_reportsD: "only_reports H s t \<Longrightarrow> task_at t tp x = task_at s tp x \<or>
    tp = SchedulerTaskValsetUpdate \<and> fst x = H \<and> task_at s tp x = None \<and> task_at t tp x = Some False"
  unfolding only_reports_def by blast

lemma only_reports_trans: "only_reports H s t \<Longrightarrow> only_reports H t u \<Longrightarrow> only_reports H s u"
  unfolding only_reports_def by (metis option.distinct(1))

text \<open>The difference goes through a task of either type, which comes back later or not at all.\<close>

lemma only_reports_run_task:
  assumes "only_reports H s t" and "epoch \<noteq> 0"
  shows "only_reports H (queue.run_task H epoch tp e s) (queue.run_task H epoch tp e t)"
proof -
  obtain h a r where e: "e = ((h, a), r)"
    by (cases e) auto
  show ?thesis
    unfolding only_reports_def
  proof (intro allI)
    fix tp' x
    show "task_at (queue.run_task H epoch tp e t) tp' x = task_at (queue.run_task H epoch tp e s) tp' x \<or>
        tp' = SchedulerTaskValsetUpdate \<and> fst x = H \<and> task_at (queue.run_task H epoch tp e s) tp' x = None \<and>
        task_at (queue.run_task H epoch tp e t) tp' x = Some False"
      using only_reportsD [OF assms(1), of tp' x] assms(2)
      by (cases x) (auto simp: e queue.run_task_def queue.at_put queue.at_del)
  qed
qed

section \<open>The invariant of a callback\<close>

definition tracked :: "'x Keeper \<Rightarrow> Params \<Rightarrow> u64 \<Rightarrow> kvstore \<Rightarrow> 'x ctx \<Rightarrow> bool" where
  "tracked k p H s c \<longleftrightarrow> books k p {} c \<and> BlockHeight c = H \<and> only_reports H s (mstore c)"

lemma trackedD:
  assumes "tracked k p H s c"
  shows "books k p {} c" and "BlockHeight c = H" and "only_reports H s (mstore c)"
  using assms by (simp_all add: tracked_def)

lemma tracked_tasks:
  assumes "tracked k p H s c" and "books k p {} d" and "BlockHeight d = H" and "task_at (mstore d) = task_at (mstore c)"
  shows "tracked k p H s d"
  using assms by (simp add: tracked_def only_reports_def)

interpretation tracked: callback_invariant "tracked k p H s" k
proof unfold_locales
  fix c e d :: "'a ctx" and x
  assume c: "tracked k p H s c" and e: "tracked k p H s e" and chain: "chain d = chain c" and "BlockHeight d = BlockHeight e"
  then have h: "BlockHeight d = H"
    by (simp add: trackedD(2))
  show "tracked k p H s d" if "mstore d = mstore c"
    by (rule tracked_tasks [OF c books.same [OF that chain trackedD(1) [OF c]] h]) (simp add: that)
  assume due: "fst x = BlockHeight e" and new: "task_at (mstore c) SchedulerTaskValsetUpdate x = None"
    and d: "mstore d = put_task (mstore c) SchedulerTaskValsetUpdate x False"
  have "only_reports H (mstore c) (mstore d)"
    using due new trackedD(2) [OF e] by (auto simp: only_reports_def d queue.at_put)
  then show "tracked k p H s d"
    using books.put [OF trackedD(1) [OF c] d chain] h trackedD(3) [OF c]
    by (auto simp: tracked_def intro: only_reports_trans)
next
  fix c d :: "'a ctx"
  assume c: "tracked k p H s c" and d: "mstore d = mstore c" "mmem d = mmem c" "ValidateDenom (lib k) (bond_denom k d)"
    and "BlockHeight d = BlockHeight c"
  then show "tracked k p H s d"
    by (intro tracked_tasks [OF c books.outside [OF trackedD(1) [OF c] d]]) (simp_all add: d trackedD(2) [OF c])
qed

lemma tracked_messages:
  assumes laws: "int_laws (lib k)" "coin_laws (lib k)" "layout_laws (lib k)" and hooks: "only_hooks k sk ek"
  shows "stable (tracked k p H s) (DispatchMsg (lib k) json (NewDefaultCustomMsgHandler k) contract msg)"
proof (rule stable_messages [OF laws(1,2) books.keepers_P [OF laws(3) hooks] tracked.keepers_P [OF laws(3) hooks]
      trackedD(1) tracked.branch(1)])
  fix c d b :: "'a ctx" and a bz
  assume c: "tracked k p H s c" and d: "books k p {} d" "BlockHeight d = BlockHeight c" and b: "tracked k p H s b"
    and "mstore d = mstore b \<or> mstore d = kv_set (mstore b) (BuildTotalDelegatedAmountKey a) bz"
  then have "task_at (mstore d) = task_at (mstore b)"
    using ledger_key_not_task(1) by (auto simp: task_at_def fun_eq_iff)
  then show "tracked k p H s d"
    using d by (intro tracked_tasks [OF b]) (simp_all add: trackedD(2) [OF c])
qed

lemma tracked_executors:
  assumes laws: "int_laws (lib k)" "coin_laws (lib k)" "layout_laws (lib k)"
    and others: "only_hooks k sk ek" "only_messages k json"
  shows "stable (tracked k p H s) (valset_executor k a)" and "stable (tracked k p H s) (epoch_executor k a)"
proof -
  have "stable (tracked k p H s) (Sudo (wasm k) a msg)" for a msg
    by (rule tracked.sudo_P [OF laws(3) others(2) tracked_messages [OF laws others(1)]])
  note sudo = stable_executors [OF this]
  show "stable (tracked k p H s) (valset_executor k a)" "stable (tracked k p H s) (epoch_executor k a)"
    by (rule sudo)+
qed

section \<open>A run\<close>

lemma tracked_exec_tasks:
  assumes L: "layout_laws (lib k)" and tp: "tp \<noteq> SchedulerTaskUndefined"
    and cb: "\<And>s a. stable (tracked k p H s) (cb a)" "\<And>a. stable (books k p {}) (cb a)" and epoch: "epoch \<noteq> 0" "H \<le> H + epoch"
  shows "tracked k p H s c \<Longrightarrow> list_all (\<lambda>r. RescheduleErr r = None) acc \<Longrightarrow>
    \<exists>rs d. iterate (visit (exec_task k tp epoch cb)) ts acc c = (Ok rs, d) \<and> list_all (\<lambda>r. RescheduleErr r = None) rs \<and>
      tracked k p H (fold (queue.run_task H epoch tp) ts s) d"
proof (induction ts arbitrary: acc c s)
  case (Cons t ts)
  obtain h a rep where t: "t = ((h, a), rep)"
    by (cases t) auto
  note c = trackedD [OF Cons.prems(1)]
  have g: "GetMaxSudoGas k c = Ok (ucast (MaxGasEndBlocker p))"
    using booksD(2) [OF c(1)] by (simp add: GetMaxSudoGas_def)
  let ?b = "(open_cache c)\<lparr>gas_limit := ucast (MaxGasEndBlocker p), gas_used := 0\<rparr>"
  obtain r b where run: "cb a ?b = (r, b)"
    by fastforce
  have start: "tracked k p H (mstore c) ?b"
  proof (rule tracked.same_height)
    show "tracked k p H (mstore c) c"
      using c by (simp add: tracked_def only_reports_same)
  qed simp_all
  have b: "only_reports H (mstore c) (mstore b)"
    using stable_run [OF cb(1) start run] by (rule trackedD(3))
  obtain res d where step: "exec_task k tp epoch cb a h rep acc c = (Ok (False, acc @ [res]), d)"
    and store: "mstore d = queue.run_task H epoch tp t (if is_ok r then mstore b else mstore c)"
    and height: "BlockHeight d = H" and res: "RescheduleErr res = None"
    by (rule exec_task_run [where cb = cb and rep = rep and h = h and acc = acc and epoch = epoch, OF L tp g run])
      (use c epoch in \<open>auto simp: t\<close>)
  have "books k p {} d"
    by (rule stable_run [OF books.stable_exec_task [where cb = cb, OF L tp cb(2)] c(1) step])
  moreover have "only_reports H (queue.run_task H epoch tp t s) (mstore d)"
    unfolding store using only_reports_trans [OF c(3) b] c(3) epoch by (intro only_reports_run_task) auto
  ultimately have "tracked k p H (queue.run_task H epoch tp t s) d"
    using height by (simp add: tracked_def)
  from Cons.IH [OF this, of "acc @ [res]"] show ?case
    using Cons.prems(2) res step by (simp add: visit_def bind_apply t)
qed simp

lemma books_executors:
  assumes laws: "int_laws (lib k)" "coin_laws (lib k)" "layout_laws (lib k)"
    and others: "only_hooks k sk ek" "only_messages k json"
  shows "stable (books k p {}) (valset_executor k a)" and "stable (books k p {}) (epoch_executor k a)"
proof -
  have "stable (books k p {}) (Sudo (wasm k) a msg)" for a msg
    by (rule books.sudo_P [OF laws(3) others(2)])
      (intro stable_DispatchMsg laws books.keepers_P [OF laws(3) others(1)])
  note sudo = stable_executors [OF this]
  show "stable (books k p {}) (valset_executor k a)" "stable (books k p {}) (epoch_executor k a)"
    by (rule sudo)+
qed

lemma tracked_run:
  assumes L: "layout_laws (lib k)" and tp: "tp \<noteq> SchedulerTaskUndefined"
    and cb: "\<And>s a. stable (tracked k p H s) (cb a)" "\<And>a. stable (books k p {}) (cb a)"
    and epoch: "epoch \<noteq> 0" "H \<le> H + epoch"
    and c: "books k p {} c" "BlockHeight c = H" and wf: "tasks_ok (mstore c) tp"
  obtains d where "bind (attempt (ExecScheduledTasks k tp epoch cb)) (rspHandler DefaultExecutionResponseHandler) c = (Ok (), d)"
    and "tracked k p H (after_run H epoch tp (mstore c)) d" and "d = snd (ExecScheduledTasks k tp epoch cb c)"
proof -
  have "tracked k p H (mstore c) c"
    using c by (simp add: tracked_def only_reports_same)
  from tracked_exec_tasks [where cb = cb and acc = "[]" and ts = "due_tasks (mstore c) tp H", OF L tp cb epoch this]
  obtain rs d where "ExecScheduledTasks k tp epoch cb c = (Ok rs, d)" "list_all (\<lambda>r. RescheduleErr r = None) rs"
      "tracked k p H (after_run H epoch tp (mstore c)) d"
    by (auto simp: ExecScheduledTasks_def IterateScheduledTasks_due [OF L tp wf] c(2))
  then show ?thesis
    by (intro that [of d]) (simp_all add: bind_apply attempt_apply rspHandler_def handle_all_default)
qed

section \<open>The whole block\<close>

text \<open>What the queue is after a block, as a function of the one before.\<close>

lemma after_run_at:
  assumes "epoch \<noteq> 0" and "H \<le> H + epoch"
  shows "task_at (after_run H epoch tp s) tp (h, a) =
    (if h = H + epoch \<and> (\<exists>h' \<le> H. task_at s tp (h', a) = Some True) then Some True
     else if h \<le> H then None else task_at s tp (h, a))"
  using assms by (simp add: queue.run_due queue.again_def)

text \<open>
  C9.  What a block leaves of the schedule, however the callbacks end and whatever the contracts bond
  and unbond in them, for an epoch that is not zero and whose next height does not wrap: the block
  ends under the default handler, the books are kept, no epoch callback of this
  height or before is left, the repeating ones are back exactly one epoch later, one-shot tasks are
  gone and tasks of the future untouched.  The same holds of the reports of validator changes, but
  that a callback may cause a new one, a one-shot task at the current height.  If the contracts that
  are called cause no changes, none is left in the in-memory store.
\<close>
theorem end_block_outcome:
  assumes laws: "int_laws (lib k)" "coin_laws (lib k)" "layout_laws (lib k)"
    and others: "only_hooks k sk ek" "only_messages k json" and c: "books k p {} c"
    and epoch: "EpochLength p \<noteq> 0" "BlockHeight c \<le> BlockHeight c + ucast (EpochLength p)"
  shows "\<exists>d. EndBlock (NewAppModule k) c = (Ok (), d) \<and> books k p {} d \<and>
    (\<forall>tp \<in> {SchedulerTaskValsetUpdate, SchedulerTaskHandleEpoch}. \<forall>h a.
      tp = SchedulerTaskHandleEpoch \<or> h \<noteq> BlockHeight c \<longrightarrow> task_at (mstore d) tp (h, a) =
      (if h = BlockHeight c + ucast (EpochLength p) \<and>
          (\<exists>h' \<le> BlockHeight c. task_at (mstore c) tp (h', a) = Some True) then Some True
       else if h \<le> BlockHeight c then None
       else task_at (mstore c) tp (h, a))) \<and>
    (\<forall>a. task_at (mstore d) SchedulerTaskValsetUpdate (BlockHeight c, a) \<noteq> Some True) \<and>
    ((\<forall>a msg. keeps mmem (Sudo (wasm k) a msg)) \<longrightarrow> kv_prefix (mmem d) PipedValsetPrefix = [])"
proof -
  let ?e = "ucast (EpochLength p) :: u64" and ?H = "BlockHeight c"
  have e: "?e \<noteq> 0"
    using epoch(1) epoch_word [of "EpochLength p"] by (metis unat_eq_zero)
  have tp: "SchedulerTaskValsetUpdate \<noteq> SchedulerTaskUndefined" "SchedulerTaskHandleEpoch \<noteq> SchedulerTaskUndefined"
    and wf: "tasks_ok (mstore c) SchedulerTaskValsetUpdate"
    using c by (simp_all add: books_def)
  have diff: "SchedulerTaskHandleEpoch \<noteq> SchedulerTaskValsetUpdate"
    by (simp add: SchedulerTaskHandleEpoch_def SchedulerTaskValsetUpdate_def)
  note cb = tracked_executors [OF laws others] books_executors [OF laws others]
  obtain d1 where first: "bind (attempt (ExecScheduledTasks k SchedulerTaskValsetUpdate ?e (valset_executor k)))
      (rspHandler DefaultExecutionResponseHandler) c = (Ok (), d1)"
    and d1: "tracked k p ?H (after_run ?H ?e SchedulerTaskValsetUpdate (mstore c)) d1"
    by (rule tracked_run [where cb = "valset_executor k", OF laws(3) tp(1) cb(1,3) e epoch(2) c refl wf])
  let ?c2 = "ClearPipedValsetOperations k d1"
  have c2: "books k p {} ?c2" "BlockHeight ?c2 = ?H" "mstore ?c2 = mstore d1"
    using stableD [OF books.stable_ClearPiped trackedD(1) [OF d1], of k] trackedD(2) [OF d1]
    by (simp_all add: ClearPipedValsetOperations_def)
  obtain d where second: "bind (attempt (ExecScheduledTasks k SchedulerTaskHandleEpoch ?e (epoch_executor k)))
      (rspHandler DefaultExecutionResponseHandler) ?c2 = (Ok (), d)"
    and d: "tracked k p ?H (after_run ?H ?e SchedulerTaskHandleEpoch (mstore d1)) d"
      "d = snd (ExecScheduledTasks k SchedulerTaskHandleEpoch ?e (epoch_executor k) ?c2)"
    by (rule tracked_run [where cb = "epoch_executor k", OF laws(3) tp(2) cb(2,4) e epoch(2) c2(1,2) booksD(8) [OF c2(1)]])
      (simp add: c2(3))
  have "reading (GetRebalanceEpochLength k) c = (Ok ?e, c)"
    using booksD(2) [OF c] by (simp add: GetRebalanceEpochLength_def)
  then have run: "EndBlock (NewAppModule k) c = (Ok (), d)"
    unfolding EndBlock_def demo_module EndBlocker_parts by (subst bind_Ok, assumption)
      (simp add: bind_Ok [where m = "bind (attempt _) _", OF first] bind_Ok [OF update_state_apply] second)
  have epoch_tasks: "task_at (mstore d) SchedulerTaskHandleEpoch x =
      task_at (after_run ?H ?e SchedulerTaskHandleEpoch (mstore d1)) SchedulerTaskHandleEpoch x"
    "task_at (mstore d1) SchedulerTaskHandleEpoch x = task_at (mstore c) SchedulerTaskHandleEpoch x" for x
    using only_reportsD [OF trackedD(3) [OF d(1)], of SchedulerTaskHandleEpoch x]
      only_reportsD [OF trackedD(3) [OF d1], of SchedulerTaskHandleEpoch x] diff
    by (auto simp: queue.run_tasks_other)
  have reports: "task_at (mstore d) SchedulerTaskValsetUpdate x =
      task_at (after_run ?H ?e SchedulerTaskValsetUpdate (mstore c)) SchedulerTaskValsetUpdate x \<or>
      fst x = ?H \<and> task_at (mstore d) SchedulerTaskValsetUpdate x = Some False" for x
    using only_reportsD [OF trackedD(3) [OF d(1)], of SchedulerTaskValsetUpdate x]
      only_reportsD [OF trackedD(3) [OF d1], of SchedulerTaskValsetUpdate x] diff
    by (auto simp: queue.run_tasks_other)
  have mem: "mmem d = mmem ?c2" if "\<And>a msg. keeps mmem (Sudo (wasm k) a msg)"
  proof -
    have "fst (snd (world d)) = mmem ?c2"
      unfolding d(2) by (rule ExecScheduledTasks_world [where P = "\<lambda>w. fst (snd w) = mmem ?c2", OF laws(3)])
        (auto simp: world_def dest: keepsD [OF keeps_epoch_executor [OF that]])
    then show ?thesis by (simp add: world_def)
  qed
  show ?thesis
  proof (intro exI [of _ d] conjI ballI allI impI)
    fix tp h a
    assume "tp \<in> {SchedulerTaskValsetUpdate, SchedulerTaskHandleEpoch}" "tp = SchedulerTaskHandleEpoch \<or> h \<noteq> ?H"
    then show "task_at (mstore d) tp (h, a) = (if h = ?H + ?e \<and>
          (\<exists>h' \<le> ?H. task_at (mstore c) tp (h', a) = Some True) then Some True
        else if h \<le> ?H then None else task_at (mstore c) tp (h, a))"
      using reports [of "(h, a)"] after_run_at [OF e epoch(2)] by (auto simp: epoch_tasks)
  next
    fix a
    have "?H \<noteq> ?H + ?e"
      using e by simp
    then show "task_at (mstore d) SchedulerTaskValsetUpdate (?H, a) \<noteq> Some True"
      using reports [of "(?H, a)"] after_run_at [OF e epoch(2)] by auto
  qed (use run trackedD(1) [OF d(1)] mem Clear_empties [of k d1] in simp_all)
qed

theorem end_block_outcome_witness:
  "\<exists>d. EndBlock (NewAppModule demo_keeper) demo_scheduled = (Ok (), d) \<and>
    task_at (mstore d) SchedulerTaskHandleEpoch (150, con_bad) = Some True \<and>
    task_at (mstore d) SchedulerTaskHandleEpoch (100, con_a) = None"
proof -
  have "books demo_keeper demo_params {} demo_capped"
    using demo_GetParams [of demo_capped] by (simp add: books_def) (simp add: demo_params_def)
  then have "books demo_keeper demo_params {} (demo_capped\<lparr>mstore := put_task (mstore demo_capped) SchedulerTaskHandleEpoch (100, con_a) True\<rparr>)"
    by (rule books.put) simp_all
  then have "books demo_keeper demo_params {} demo_scheduled"
    by (rule books.put) (simp_all add: demo_scheduled_def)
  then show ?thesis
    using end_block_outcome [OF _ _ _ demo_only_hooks demo_only_messages, of demo_params demo_scheduled]
    by (auto simp: demo_params_def)
qed

end
