(* ===== verification/CodecProps.thy ===== *)
theory CodecProps
  imports Example ServiceMessages EndBlock
begin

text \<open>
  The properties of the generated codec and of the genesis: decoders end on every input without a
  panic, messages come back from the wire as they were, and a genesis is exported as it was
  initialised.
\<close>

section \<open>Decoders do not panic\<close>

text \<open>A result that is a value or an error.\<close>

definition ends_well :: "'a res \<Rightarrow> bool" where
  "ends_well r \<longleftrightarrow> (\<forall>p. r \<noteq> Panic p)"

lemma ends_well_simps [simp]: "ends_well (Ok x)" "ends_well (Err e)" "\<not> ends_well (Panic p)"
  by (simp_all add: ends_well_def)

lemma ends_well_bindR [intro]: "ends_well r \<Longrightarrow> (\<And>x. r = Ok x \<Longrightarrow> ends_well (f x)) \<Longrightarrow> ends_well (bindR r f)"
  by (cases r) auto

lemma ends_well_varint [simp]: "ends_well (read_varint s d i shift acc)"
proof (induction s d i shift acc rule: read_varint.induct)
  case (1 s d i shift acc)
  then show ?case
    by (subst read_varint.simps) (simp add: Let_def)
qed

lemma ends_well_skip_varint [simp]: "ends_well (skip_varint s d i shift)"
proof (induction s d i shift rule: skip_varint.induct)
  case (1 s d i shift)
  then show ?case
    by (subst skip_varint.simps) simp
qed

lemma ends_well_skip_value [simp]: "ends_well (skip_value s d i depth wt)"
  by (auto simp: skip_value_def)

lemma ends_well_skip_loop [simp]: "ends_well (skip_loop s d i depth)"
proof (induction s d i depth rule: skip_loop.induct)
  case (1 s d i depth)
  have rest: "ends_well (skip_loop s d j depth')"
    if "i < length d" "read_varint s d i 0 (0 :: u64) = Ok (wire, i')"
      "skip_value s d i' depth (unat (wire AND 7)) = Ok (j, depth')" "\<not> 2 ^ 63 \<le> j" "depth' \<noteq> 0" for wire i' j depth'
    using 1 that by blast
  show ?case
  proof (cases "read_varint s d i 0 (0 :: u64)")
    case (Ok r)
    obtain wire i' where r: "r = (wire, i')" by (cases r)
    show ?thesis
    proof (cases "skip_value s d i' depth (unat (wire AND 7))")
      case (Ok q)
      then show ?thesis
        using rest \<open>read_varint s d i 0 0 = Ok r\<close>
        by (subst skip_loop.simps) (cases q, simp add: r)
    qed (use Ok r ends_well_skip_value [of s d i' depth "unat (wire AND 7)"] in
      \<open>subst skip_loop.simps, simp\<close>)+
  qed (use ends_well_varint [of s d i 0 "0 :: u64"] in \<open>subst skip_loop.simps, simp\<close>)+
qed

text \<open>The end of a delimited value is its beginning plus a length, and neither wraps.\<close>

lemma end_not_before:
  assumes "i < 2 ^ 63" and "\<not> negative len" and "\<not> negative (word_of_nat i + len)"
  shows "i \<le> unat (word_of_nat i + len)"
proof -
  have small: "unat len < 2 ^ 63"
  proof (rule ccontr)
    assume "\<not> unat len < 2 ^ 63"
    then have "unat len div 2 ^ 63 = 1"
      using unat_u64_less [of len] by (intro div_nat_eqI) simp_all
    then have "bit (unat len) 63"
      unfolding bit_iff_odd by simp
    then have "bit len 63"
      by (simp add: bit_unsigned_iff)
    then show False
      using assms(2) bit_last_iff [of len] by (simp add: negative_def)
  qed
  have "unat (word_of_nat i :: u64) = i"
    using assms(1) by (simp add: unat_of_nat)
  then have "unat (word_of_nat i + len) = i + unat len"
    using small assms(1) by (subst unat_add_lem [THEN iffD1]) simp_all
  then show ?thesis by simp
qed

lemma ends_well_read_delimited:
  assumes "length d < 2 ^ 63"
  shows "ends_well (read_delimited s d i)"
  unfolding read_delimited_def
proof (rule ends_well_bindR)
  fix x
  assume "read_varint s d i 0 (0 :: u64) = Ok x"
  then obtain len j where x: "x = (len, j)" and j: "j \<le> length d"
    by (cases x) (auto dest: read_varint_progress)
  have "ends_well (go_slice d j (unat (word_of_nat j + len)))"
    if "\<not> negative len" "\<not> negative (word_of_nat j + len)" "unat (word_of_nat j + len) \<le> length d"
    using end_not_before [OF _ that(1,2)] j assms that(3) by (simp add: go_slice_def)
  then show "ends_well (case x of (len, i) \<Rightarrow> if negative len then Err (ErrInvalidLength s)
      else let postIndex = word_of_nat i + len in if negative postIndex then Err (ErrInvalidLength s)
        else if unat postIndex > length d then Err ErrUnexpectedEOF
        else bindR (go_slice d i (unat postIndex)) (\<lambda>bs. Ok (bs, unat postIndex)))"
    by (auto simp: x Let_def)
qed simp

lemma read_delimited_length: "read_delimited s d i = Ok (bs, j) \<Longrightarrow> length bs \<le> length d"
  by (auto simp: read_delimited_def bindR_eq_Ok go_slice_def Let_def split: if_splits)

text \<open>A field is safe when the decoder of its value is.\<close>

definition safe_field :: "'m field \<Rightarrow> bool" where
  "safe_field f \<longleftrightarrow> (\<forall>name upd bs m. f = MessageField name upd \<longrightarrow> length bs < 2 ^ 63 \<longrightarrow> ends_well (upd bs m))"

lemma ends_well_read_field:
  assumes "length d < 2 ^ 63" and "safe_field f"
  shows "ends_well (read_field s f wt d i m)"
proof (cases f)
  case (MessageField name upd)
  then show ?thesis
    using assms(2) le_less_trans [OF read_delimited_length assms(1)]
    by (auto simp: read_field_def safe_field_def intro!: ends_well_bindR ends_well_read_delimited [OF assms(1)])
qed (auto simp: read_field_def intro!: ends_well_bindR ends_well_read_delimited [OF assms(1)])

lemma ends_well_unmarshal_loop:
  assumes len: "length d < 2 ^ 63" and fs: "\<And>n f. map_of fs n = Some f \<Longrightarrow> safe_field f"
  shows "ends_well (unmarshal_loop s fs d i m)"
  using assms
proof (induction s fs d i m rule: unmarshal_loop.induct)
  case (1 s fs d i m)
  show ?case
  proof (cases "read_varint s d i 0 (0 :: u64)")
    case (Ok r)
    obtain wire j where r: "r = (wire, j)" by (cases r)
    let ?num = "ucast (drop_bit 3 wire) :: u32" and ?wt = "unat (wire AND 7)"
    show ?thesis
    proof (cases "i < length d \<and> ?wt \<noteq> 4 \<and> \<not> sint ?num \<le> 0")
      case True
      then have ok: "i < length d" "?wt \<noteq> 4" "\<not> sint ?num \<le> 0" by auto
      show ?thesis
      proof (cases "map_of fs (unat ?num)")
        case None
        have "ends_well (unmarshal_loop s fs d (i + k) m)"
          if "skip_field s (drop i d) = Ok k" "\<not> 2 ^ 63 \<le> i + k" "\<not> length d < i + k" for k
          by (rule 1(1) [OF ok(1) Ok [unfolded r] refl refl refl ok(2,3) None that 1(3) 1(4)])
        moreover have "ends_well (skip_field s (drop i d))"
          by (simp add: skip_field_def)
        ultimately show ?thesis
          using ok Ok None by (subst unmarshal_loop.simps) (cases "skip_field s (drop i d)", simp_all add: r Let_def)
      next
        case (Some f)
        have "ends_well (unmarshal_loop s fs d k m')" if "read_field s f ?wt d j m = Ok (m', k)" for m' k
          by (rule 1(2) [OF ok(1) Ok [unfolded r] refl refl refl ok(2,3) Some that refl 1(3) 1(4)])
        moreover have "ends_well (read_field s f ?wt d j m)"
          by (rule ends_well_read_field [OF 1(3) 1(4) [OF Some]])
        ultimately show ?thesis
          using ok Ok Some by (subst unmarshal_loop.simps) (cases "read_field s f ?wt d j m", auto simp: r Let_def)
      qed
    next
      case False
      then show ?thesis
        using Ok by (subst unmarshal_loop.simps) (auto simp: r Let_def)
    qed
  qed (use ends_well_varint [of s d i 0 "0 :: u64"] in \<open>subst unmarshal_loop.simps, simp\<close>)+
qed

lemma ends_well_unmarshal:
  "length d < 2 ^ 63 \<Longrightarrow> (\<And>n f. map_of fs n = Some f \<Longrightarrow> safe_field f) \<Longrightarrow> ends_well (unmarshal_with s fs m d)"
  unfolding unmarshal_with_def by (rule ends_well_unmarshal_loop)

text \<open>The kinds of field that the messages have.\<close>

lemma safe_scalar [simp]: "safe_field (StringField name upd)" "safe_field (Uint32Field name upd')"
  by (simp_all add: safe_field_def)

lemma safe_nested: "(\<And>c bs. length bs < 2 ^ 63 \<Longrightarrow> ends_well (dec c bs)) \<Longrightarrow> safe_field (nested name dec get put)"
  by (auto simp: safe_field_def nested_def)

lemma safe_repeated: "(\<And>bs. length bs < 2 ^ 63 \<Longrightarrow> ends_well (dec zero bs)) \<Longrightarrow> safe_field (repeated name dec zero app)"
  by (auto simp: safe_field_def repeated_def)

lemma ends_well_va_Unmarshal: "length d < 2 ^ 63 \<Longrightarrow> ends_well (va_Unmarshal m d)"
  unfolding va_Unmarshal_def by (rule ends_well_unmarshal) (auto simp: va_fields_def split: if_splits)

lemma ends_well_requests:
  assumes "length d < 2 ^ 63"
  shows "ends_well (limit_req_Unmarshal lq d)" and "ends_well (limits_req_Unmarshal lsq d)"
    and "ends_well (params_req_Unmarshal pq d)" and "ends_well (setcap_resp_Unmarshal sr d)"
  unfolding limit_req_Unmarshal_def limits_req_Unmarshal_def params_req_Unmarshal_def setcap_resp_Unmarshal_def
  by (rule ends_well_unmarshal [OF assms], auto simp: limit_req_fields_def split: if_splits)+

definition safe_coins :: "sdk_lib \<Rightarrow> bool" where
  "safe_coins L \<longleftrightarrow> (\<forall>c bs. length bs < 2 ^ 63 \<longrightarrow> ends_well (coin_unmarshal L c bs))"

lemma ends_well_with_coins:
  assumes "safe_coins L" and "length d < 2 ^ 63"
  shows "ends_well (Params_Unmarshal L pa d)" and "ends_well (info_Unmarshal L i d)"
    and "ends_well (setcap_Unmarshal L sc d)" and "ends_well (limit_resp_Unmarshal L lr d)"
  unfolding Params_Unmarshal_def info_Unmarshal_def setcap_Unmarshal_def limit_resp_Unmarshal_def
  by (rule ends_well_unmarshal [OF assms(2)],
      use assms(1) in \<open>auto simp: safe_coins_def Params_fields_def info_fields_def setcap_fields_def limit_resp_fields_def
        intro!: safe_nested split: if_splits\<close>)+

lemma ends_well_with_messages:
  assumes "safe_coins L" and "length d < 2 ^ 63"
  shows "ends_well (gs_Unmarshal L g d)" and "ends_well (limits_resp_Unmarshal L ls d)"
    and "ends_well (params_resp_Unmarshal L pr d)"
  unfolding gs_Unmarshal_def limits_resp_Unmarshal_def params_resp_Unmarshal_def
  by (rule ends_well_unmarshal [OF assms(2)],
      use ends_well_with_coins [OF assms(1)] in \<open>auto simp: gs_fields_def limits_resp_fields_def params_resp_fields_def
        intro!: safe_nested safe_repeated split: if_splits\<close>)+

section \<open>Properties\<close>

text \<open>
  C18.  The generated decoders of all twelve messages end on every input that Go can hold, whatever its
  bytes, with a message or an error and never with a panic: those of the four requests and the empty
  response without a condition, the others as long as the SDK's decoder of coins, which they call, does.
\<close>
theorem decoders_end:
  assumes len: "length d < 2 ^ 63"
  shows "limit_req_Unmarshal lq d \<noteq> Panic p \<and> limits_req_Unmarshal lsq d \<noteq> Panic p \<and>
    params_req_Unmarshal pq d \<noteq> Panic p \<and> setcap_resp_Unmarshal sr d \<noteq> Panic p \<and> va_Unmarshal v d \<noteq> Panic p \<and>
    ((\<forall>c bs p. length bs < 2 ^ 63 \<longrightarrow> coin_unmarshal L c bs \<noteq> Panic p) \<longrightarrow>
      setcap_Unmarshal L sc d \<noteq> Panic p \<and> Params_Unmarshal L pa d \<noteq> Panic p \<and> gs_Unmarshal L g d \<noteq> Panic p \<and>
      info_Unmarshal L i d \<noteq> Panic p \<and> limit_resp_Unmarshal L lr d \<noteq> Panic p \<and>
      limits_resp_Unmarshal L ls d \<noteq> Panic p \<and> params_resp_Unmarshal L pr d \<noteq> Panic p)"
proof (intro conjI impI)
  show "limit_req_Unmarshal lq d \<noteq> Panic p" "limits_req_Unmarshal lsq d \<noteq> Panic p"
    "params_req_Unmarshal pq d \<noteq> Panic p" "setcap_resp_Unmarshal sr d \<noteq> Panic p" "va_Unmarshal v d \<noteq> Panic p"
    using ends_well_requests [OF len] ends_well_va_Unmarshal [OF len] unfolding ends_well_def by blast+
  assume "\<forall>c bs p. length bs < 2 ^ 63 \<longrightarrow> coin_unmarshal L c bs \<noteq> Panic p"
  then have "safe_coins L"
    by (simp add: safe_coins_def ends_well_def)
  note * = ends_well_with_coins [OF this len] ends_well_with_messages [OF this len]
  show "setcap_Unmarshal L sc d \<noteq> Panic p" "Params_Unmarshal L pa d \<noteq> Panic p" "gs_Unmarshal L g d \<noteq> Panic p"
    "info_Unmarshal L i d \<noteq> Panic p" "limit_resp_Unmarshal L lr d \<noteq> Panic p"
    "limits_resp_Unmarshal L ls d \<noteq> Panic p" "params_resp_Unmarshal L pr d \<noteq> Panic p"
    using * unfolding ends_well_def by blast+
qed

lemma demo_safe_coins: "length bs < 2 ^ 63 \<Longrightarrow> coin_unmarshal demo_lib c bs \<noteq> Panic p"
proof -
  assume "length bs < 2 ^ 63"
  then have "ends_well (unmarshal_with ''Coin'' demo_coin_fields c bs)"
    by (rule ends_well_unmarshal)
      (auto simp: demo_coin_fields_def safe_field_def demo_int_unmarshal_def split: if_splits option.splits)
  then show ?thesis
    by (simp add: ends_well_def) (simp add: demo_lib_def)
qed

text \<open>
  A length that claims more than there is, in a request and in a message with a coin, and a tag of field zero.
\<close>

theorem decoders_end_witness:
  "(\<forall>p. limit_req_Unmarshal empty_limit_req [0x0a, 0xff, 0xff, 0xff, 0xff, 0xff, 0xff, 0xff, 0xff, 0x7f] \<noteq> Panic p) \<and>
   (\<forall>p. setcap_Unmarshal demo_lib empty_setcap [0x1a, 0xff, 0xff, 0xff, 0xff, 0xff, 0xff, 0xff, 0xff, 0x7f] \<noteq> Panic p) \<and>
   (\<forall>p. gs_Unmarshal demo_lib empty_gs [0x02] \<noteq> Panic p)"
proof (intro conjI allI)
  show "limit_req_Unmarshal empty_limit_req [0x0a, 0xff, 0xff, 0xff, 0xff, 0xff, 0xff, 0xff, 0xff, 0x7f] \<noteq> Panic p" for p
    using decoders_end [of "[0x0a, 0xff, 0xff, 0xff, 0xff, 0xff, 0xff, 0xff, 0xff, 0x7f]" empty_limit_req] by simp
  show "setcap_Unmarshal demo_lib empty_setcap [0x1a, 0xff, 0xff, 0xff, 0xff, 0xff, 0xff, 0xff, 0xff, 0x7f] \<noteq> Panic p" for p
    using decoders_end [of "[0x1a, 0xff, 0xff, 0xff, 0xff, 0xff, 0xff, 0xff, 0xff, 0x7f]"] demo_safe_coins by simp
  show "gs_Unmarshal demo_lib empty_gs [0x02] \<noteq> Panic p" for p
    using decoders_end [of "[0x02]"] demo_safe_coins by simp
qed

text \<open>
  C19.  Encoding does not fail, fills exactly the buffer that the size announces, and decoding gives
  the message back: for the genesis with the parameters in it, the message of the governance, and
  the list of all limits.
\<close>
theorem messages_roundtrip:
  assumes "gs_good L g" and "setcap_good L m" and "limits_resp_good L r"
  shows "(\<exists>w. gs_Marshal L g = Ok w \<and> length w = gs_Size L g \<and> gs_Unmarshal L empty_gs w = Ok g) \<and>
    (\<exists>w. setcap_Marshal L m = Ok w \<and> length w = setcap_Size L m \<and> setcap_Unmarshal L empty_setcap w = Ok m) \<and>
    (\<exists>w. limits_resp_Marshal L r = Ok w \<and> length w = limits_resp_Size L r \<and>
      limits_resp_Unmarshal L empty_limits_resp w = Ok r)"
  unfolding gs_Marshal_def setcap_Marshal_def limits_resp_Marshal_def
  by (intro conjI gs.marshals setcap.marshals limits_resp.marshals assms)

lemma demo_gs_good: "gs_good demo_lib \<lparr>gs_Params = demo_params\<rparr>"
  using demo_params_small length_delimited_le [of "0xa" "Params_wire demo_lib demo_params"]
  by (simp add: gs_good_def gs_wire_def)

lemma demo_small_coin: "length (demo_coin_wire (coin_of ''stake'' 7)) \<le> 28" "coin_ok demo_lib (coin_of ''stake'' 7)"
  "coin_bytes demo_lib (coin_of ''stake'' 7) = demo_coin_wire (coin_of ''stake'' 7)"
proof -
  show len: "length (demo_coin_wire (coin_of ''stake'' 7)) \<le> 28"
    using length_demo_coin_le [of "coin_of ''stake'' 7"] by (simp add: demo_amount_def demo_int_string_def decimal.simps)
  then have small: "length (demo_coin_wire (coin_of ''stake'' 7)) < 2 ^ 63"
    by simp
  note ok = demo_coin_ok [of "coin_of ''stake'' 7" 7, OF _ small]
  show "coin_ok demo_lib (coin_of ''stake'' 7)"
    by (rule ok) (simp_all add: int_fits_def)
  show "coin_bytes demo_lib (coin_of ''stake'' 7) = demo_coin_wire (coin_of ''stake'' 7)"
    by (rule ok) (simp_all add: int_fits_def)
qed

definition demo_info :: VirtualStakingMaxCapInfo where
  "demo_info = \<lparr>info_Contract = ''cona'', info_Delegated = coin_of ''stake'' 7, info_Cap = coin_of ''stake'' 7\<rparr>"

lemma demo_info_small: "length (info_wire demo_lib demo_info) \<le> 100"
  using demo_small_coin length_string_field_le [of "0xa" "''cona''"]
    length_delimited_le [of "0x12" "demo_coin_wire (coin_of ''stake'' 7)"]
    length_delimited_le [of "0x1a" "demo_coin_wire (coin_of ''stake'' 7)"]
  by (simp add: info_wire_def demo_info_def)

lemma demo_info_good: "info_good demo_lib demo_info"
  using demo_info_small demo_small_coin(2) by (simp add: info_good_def) (simp add: demo_info_def)

theorem messages_roundtrip_witness:
  "\<exists>w. limits_resp_Marshal demo_lib \<lparr>MaxCapInfos = [demo_info, demo_info]\<rparr> = Ok w \<and>
     limits_resp_Unmarshal demo_lib empty_limits_resp w = Ok \<lparr>MaxCapInfos = [demo_info, demo_info]\<rparr>"
proof -
  let ?m = "\<lparr>setcap_Authority = ''gov'', setcap_Contract = ''cona'', setcap_MaxCap = coin_of ''stake'' 7\<rparr>"
  have "setcap_good demo_lib ?m"
    using demo_small_coin length_string_field_le [of "0xa" "''gov''"] length_string_field_le [of "0x12" "''cona''"]
      length_delimited_le [of "0x1a" "demo_coin_wire (coin_of ''stake'' 7)"]
    by (simp add: setcap_good_def setcap_wire_def)
  moreover have "limits_resp_good demo_lib \<lparr>MaxCapInfos = [demo_info, demo_info]\<rparr>"
    using demo_info_small demo_info_good length_delimited_le [of "0xa" "info_wire demo_lib demo_info"]
    by (simp add: limits_resp_good_def limits_resp_wire_def repeated_field_def)
  ultimately show ?thesis
    using messages_roundtrip [OF demo_gs_good] by blast
qed

text \<open>
  C20.  A genesis is exported as it was initialised, byte for byte when the JSON codec inverts itself on
  it; initialising writes the parameters and nothing else, and raw bytes that do not decode panic
  without a change.
\<close>
theorem genesis_roundtrip:
  assumes good: "coin_ok (lib (am_k am)) (TotalContractsMaxCap (gs_Params gs))"
      "length (Params_wire (lib (am_k am)) (gs_Params gs)) < 2 ^ 63"
    and json: "unmarshal bz = Ok gs" "marshal gs = Ok bz" "unmarshal junk = Err e"
  shows "(\<exists>d. module_InitGenesis am unmarshal bz c = (Ok (), d) \<and> ExportGenesis (am_k am) d = Ok gs \<and>
      module_ExportGenesis am marshal d = Ok bz \<and> d = c\<lparr>mstore := mstore d\<rparr> \<and>
      (\<forall>key. key \<noteq> ParamsKey \<longrightarrow> kv_get (mstore d) key = kv_get (mstore c) key)) \<and>
    (\<exists>p. module_InitGenesis am unmarshal junk c = (Panic p, c))"
proof -
  let ?w = "Params_wire (lib (am_k am)) (gs_Params gs)"
  let ?d = "c\<lparr>mstore := kv_set (mstore c) ParamsKey ?w\<rparr>"
  have good: "Params_good (lib (am_k am)) (gs_Params gs)"
    using good by (simp add: Params_good_def)
  have "module_InitGenesis am unmarshal bz c = (Ok (), ?d)"
    by (simp add: module_InitGenesis_def bind_apply InitGenesis_def SetParams_Ok [OF good] json)
  moreover have export: "ExportGenesis (am_k am) ?d = Ok gs"
    using GetParams_stored [OF good, of ?d] by (simp add: ExportGenesis_def NewGenesisState_def)
  ultimately show ?thesis
    using json by (intro conjI exI [of _ ?d]) (auto simp: module_ExportGenesis_def module_InitGenesis_def bind_apply)
qed

theorem genesis_roundtrip_witness:
  "\<exists>d. module_InitGenesis (NewAppModule demo_keeper)
      (\<lambda>b. if b = [1] then Ok \<lparr>gs_Params = demo_params\<rparr> else Err ErrInvalid) [1] demo_blank = (Ok (), d) \<and>
    ExportGenesis demo_keeper d = Ok \<lparr>gs_Params = demo_params\<rparr>"
proof -
  have am: "am_k (NewAppModule demo_keeper) = demo_keeper"
    by (simp add: NewAppModule_def NewAppModuleX_def)
  have good: "coin_ok demo_lib (TotalContractsMaxCap demo_params)" "length (Params_wire demo_lib demo_params) < 2 ^ 63"
    using demo_params_good by (auto simp: Params_good_def)
  show ?thesis
    using genesis_roundtrip [of "NewAppModule demo_keeper" "\<lparr>gs_Params = demo_params\<rparr>"
      "\<lambda>b. if b = [1] then Ok \<lparr>gs_Params = demo_params\<rparr> else Err ErrInvalid" "[1]" "\<lambda>_. Ok [1]" "[2]" ErrInvalid demo_blank]
      good by (auto simp: am)
qed

end
