(* ===== verification/Module.thy ===== *)
theory Module
  imports Handlers EndBlock
begin

text \<open>
  What the module hands to the chain: the rest of \<open>module.go\<close>, the constructors of the decorators in
  \<open>keeper/adapter.go\<close> and those of the two services (\<open>keeper/msg_server.go\<close>, \<open>keeper/querier.go\<close>).
  An interface is a record of functions; embedding a keeper and overriding some of its methods is an
  update of its record.  JSON comes in and out through the codec of the chain, an argument.
\<close>

section \<open>The basic module\<close>

definition RouterKey :: string where "RouterKey = ModuleName"
definition ConsensusVersion :: u64 where "ConsensusVersion = 1"

definition basic_Name :: string where
  "basic_Name = ModuleName"

text \<open>\<open>bond\<close> is \<open>sdk.DefaultBondDenom\<close>, a variable of the SDK.\<close>

definition basic_DefaultGenesis :: "sdk_lib \<Rightarrow> string \<Rightarrow> (GenesisState \<Rightarrow> bytes res) \<Rightarrow> bytes res" where
  "basic_DefaultGenesis L bond marshal = bindR (DefaultGenesisState L bond) (\<lambda>gs. must (marshal gs))"

definition basic_ValidateGenesis :: "sdk_lib \<Rightarrow> (bytes \<Rightarrow> GenesisState res) \<Rightarrow> bytes \<Rightarrow> unit res" where
  "basic_ValidateGenesis L unmarshal bz =
     bindR (wrapping ''failed to unmarshal meshsecurity genesis state'' (unmarshal bz)) (ValidateGenesis L)"

section \<open>The module\<close>

definition SetAsyncTaskRspHandler :: "'x TaskExecutionResponseHandler \<Rightarrow> 'x AppModule \<Rightarrow> 'x AppModule" where
  "SetAsyncTaskRspHandler h am = am\<lparr>asyncTaskRspHandler := h\<rparr>"

definition module_Name :: string where "module_Name = ModuleName"
definition module_QuerierRoute :: string where "module_QuerierRoute = RouterKey"
definition module_ConsensusVersion :: u64 where "module_ConsensusVersion = ConsensusVersion"

text \<open>The module registers no invariants, and does nothing at the beginning of a block.\<close>

definition RegisterInvariants :: "'x AppModule \<Rightarrow> 'i \<Rightarrow> 'i" where
  "RegisterInvariants am ir = ir"

definition BeginBlock :: "'x AppModule \<Rightarrow> ('x ctx, unit) call" where
  "BeginBlock am = ret ()"

text \<open>The services: a server is what answers a request in a context.\<close>

record 'x MsgServer =
  srv_SetVirtualStakingMaxCap :: "MsgSetVirtualStakingMaxCap \<Rightarrow> ('x ctx, MsgSetVirtualStakingMaxCapResponse) call"

record 'c QueryServer =
  srv_VirtualStakingMaxCapLimit :: "'c \<Rightarrow> QueryVirtualStakingMaxCapLimitRequest \<Rightarrow> QueryVirtualStakingMaxCapLimitResponse res"
  srv_VirtualStakingMaxCapLimits :: "'c \<Rightarrow> QueryVirtualStakingMaxCapLimitsRequest \<Rightarrow> QueryVirtualStakingMaxCapLimitsResponse res"
  srv_Params :: "'c \<Rightarrow> QueryParamsRequest \<Rightarrow> QueryParamsResponse res"

definition NewMsgServer :: "'x Keeper \<Rightarrow> 'x MsgServer" where
  "NewMsgServer k = \<lparr>srv_SetVirtualStakingMaxCap = SetVirtualStakingMaxCap k\<rparr>"

text \<open>A query runs in a context of its own, whose state is dropped with it.\<close>

definition NewQuerier :: "'x Keeper \<Rightarrow> 'x ctx QueryServer" where
  "NewQuerier k = \<lparr>
     srv_VirtualStakingMaxCapLimit = (\<lambda>ctx req. query_VirtualStakingMaxCapLimit k req ctx),
     srv_VirtualStakingMaxCapLimits = (\<lambda>ctx req. fst (query_VirtualStakingMaxCapLimits k req ctx)),
     srv_Params = (\<lambda>ctx req. query_Params k req ctx)\<rparr>"

text \<open>The configurator registers one server of each kind.\<close>

definition RegisterServices :: "'x AppModule \<Rightarrow> 'x MsgServer \<times> 'x ctx QueryServer" where
  "RegisterServices am = (NewMsgServer (am_k am), NewQuerier (am_k am))"

section \<open>Decorators\<close>

definition CaptureTombstoneDecorator :: "'x Keeper \<Rightarrow> 'x evidence_SlashingKeeper \<Rightarrow> 'x SDKStakingKeeper \<Rightarrow>
    'x evidence_SlashingKeeper" where
  "CaptureTombstoneDecorator k slashingKeeper stakingKeeper =
     slashingKeeper\<lparr>ek_Tombstone := decorator_Tombstone k stakingKeeper slashingKeeper\<rparr>"

definition NewStakingDecorator :: "'x slashing_StakingKeeper \<Rightarrow> 'x Keeper \<Rightarrow> 'x slashing_StakingKeeper" where
  "NewStakingDecorator stakingKeeper k = stakingKeeper
     \<lparr>sk_Slash := decorator_Slash k stakingKeeper, sk_Jail := decorator_Jail k stakingKeeper,
      sk_Unjail := decorator_Unjail k stakingKeeper\<rparr>"

end
