(* ===== verification/App.thy ===== *)
theory App
  imports Module
begin

text \<open>
  How the demo chain is put together: the parts of \<open>demo/app/app.go\<close> that decide what the module's
  handlers, decorators and accounts do in it, and in which order modules run, with the ante handler
  of \<open>demo/app/ante.go\<close> and the parameter tables of \<open>demo/app/upgrades.go\<close>.  The other modules are
  known by the packages that define their names: the constants are the SDK's, and all that is used
  of them is that they differ.
\<close>

section \<open>Names\<close>

datatype mod_name =
    authtypes | banktypes | stakingtypes | crisistypes | minttypes | distrtypes | slashingtypes | govtypes
  | paramstypes | consensusparamtypes | upgradetypes | feegrant | evidencetypes | capabilitytypes | authz
  | nft | group_module | genutiltypes | vestingtypes | ibcexported | ibctransfertypes | ibcfeetypes | wasmtypes | icatypes
  | icahosttypes | icacontrollertypes | ibctm | meshsectypes

text \<open>The accounts of modules: most are named as their module, three are not.\<close>

datatype account_name = ModuleAccount mod_name | FeeCollector | BondedPool | NotBondedPool

datatype permission = Minter | Burner | Staking_permission

definition maccPerms :: "(account_name \<times> permission list) list" where
  "maccPerms =
    [(FeeCollector, []), (ModuleAccount distrtypes, []), (ModuleAccount minttypes, [Minter]),
     (BondedPool, [Burner, Staking_permission]), (NotBondedPool, [Burner, Staking_permission]),
     (ModuleAccount govtypes, [Burner]), (ModuleAccount nft, []), (ModuleAccount ibctransfertypes, [Minter, Burner]),
     (ModuleAccount ibcfeetypes, []), (ModuleAccount icatypes, []), (ModuleAccount wasmtypes, [Burner]),
     (ModuleAccount meshsectypes, [Minter, Burner])]"

text \<open>A copy of the map, made entry by entry.\<close>

definition GetMaccPerms :: "account_name \<rightharpoonup> permission list" where
  "GetMaccPerms = fold (\<lambda>(k, v) dup. dup(k \<mapsto> v)) maccPerms Map.empty"

text \<open>\<open>addr\<close> is \<open>authtypes.NewModuleAddress\<close> with its text.  The order of a map's keys is immaterial.\<close>

definition BlockedAddresses :: "(account_name \<Rightarrow> string) \<Rightarrow> string \<rightharpoonup> bool" where
  "BlockedAddresses addr =
     (fold (\<lambda>acc m. m(addr acc \<mapsto> True)) (map fst maccPerms) Map.empty)(addr (ModuleAccount govtypes) := None)"

section \<open>Modules and their order\<close>

text \<open>The modules of the manager, by the names that their \<open>Name\<close> methods return.\<close>

definition ModuleManager :: "mod_name list" where
  "ModuleManager =
    [genutiltypes, authtypes, vestingtypes, banktypes, capabilitytypes, feegrant, govtypes, minttypes, slashingtypes,
     distrtypes, stakingtypes, upgradetypes, evidencetypes, paramstypes, authz, group_module, nft, consensusparamtypes,
     wasmtypes, ibcexported, ibctransfertypes, ibcfeetypes, icatypes, meshsectypes, crisistypes]"

definition OrderBeginBlockers :: "mod_name list" where
  "OrderBeginBlockers =
    [upgradetypes, capabilitytypes, minttypes, distrtypes, slashingtypes,
     evidencetypes, stakingtypes,
     authtypes, banktypes, govtypes, crisistypes, genutiltypes,
     authz, feegrant, nft, group_module,
     paramstypes, vestingtypes, consensusparamtypes,
     ibctransfertypes, ibcexported, icatypes, ibcfeetypes, wasmtypes, meshsectypes]"

definition OrderEndBlockers :: "mod_name list" where
  "OrderEndBlockers =
    [crisistypes, govtypes, stakingtypes,
     capabilitytypes, authtypes, banktypes, distrtypes,
     slashingtypes, minttypes,
     genutiltypes, evidencetypes, authz,
     feegrant, nft, group_module,
     paramstypes, upgradetypes, vestingtypes, consensusparamtypes,
     ibctransfertypes, ibcexported, icatypes, ibcfeetypes, wasmtypes, meshsectypes]"

definition genesisModuleOrder :: "mod_name list" where
  "genesisModuleOrder =
    [capabilitytypes, authtypes, banktypes,
     distrtypes, stakingtypes, slashingtypes, govtypes,
     minttypes, crisistypes, genutiltypes, evidencetypes, authz,
     feegrant, nft, group_module, paramstypes, upgradetypes,
     vestingtypes, consensusparamtypes,
     ibctransfertypes, ibcexported, icatypes, ibcfeetypes, wasmtypes, meshsectypes]"

text \<open>The basic modules, which register codecs and default genesis states; \<open>ibctm\<close> is among them only.\<close>

definition ModuleBasics :: "mod_name list" where
  "ModuleBasics =
    [authtypes, genutiltypes, banktypes, capabilitytypes, stakingtypes, minttypes, distrtypes, govtypes, paramstypes,
     crisistypes, slashingtypes, feegrant, upgradetypes, evidencetypes, authz, group_module, vestingtypes, nft,
     consensusparamtypes, wasmtypes, ibcexported, ibctm, ibctransfertypes, icatypes, ibcfeetypes, meshsectypes]"

text \<open>The stores of the modules: persistent, transient and in memory.\<close>

definition kv_store_keys :: "mod_name list" where
  "kv_store_keys =
    [authtypes, banktypes, stakingtypes, crisistypes, minttypes, distrtypes, slashingtypes,
     govtypes, paramstypes, consensusparamtypes, upgradetypes, feegrant, evidencetypes, capabilitytypes,
     authz, nft, group_module, ibcexported, ibctransfertypes, ibcfeetypes, wasmtypes, icahosttypes, icacontrollertypes,
     meshsectypes]"

definition transient_store_keys :: "mod_name list" where "transient_store_keys = [paramstypes]"
definition memory_store_keys :: "mod_name list" where "memory_store_keys = [capabilitytypes, meshsectypes]"

section \<open>Parameter subspaces\<close>

definition initParamsKeeper :: "mod_name list" where
  "initParamsKeeper =
    [authtypes, banktypes, stakingtypes, minttypes, distrtypes, slashingtypes, govtypes, crisistypes, ibctransfertypes,
     ibcexported, icahosttypes, icacontrollertypes, wasmtypes, meshsectypes]"

text \<open>
  \<open>RegisterUpgradeHandlers\<close> gives the subspaces of the modules in its switch a key table unless they
  have one; the table is known by its module.
\<close>

record subspace =
  ss_Name :: mod_name
  ss_KeyTable :: "mod_name option"

definition param_key_table :: "mod_name \<Rightarrow> mod_name option" where
  "param_key_table n = (case n of
     authtypes \<Rightarrow> Some n | banktypes \<Rightarrow> Some n | stakingtypes \<Rightarrow> Some n | minttypes \<Rightarrow> Some n | distrtypes \<Rightarrow> Some n
   | slashingtypes \<Rightarrow> Some n | govtypes \<Rightarrow> Some n | crisistypes \<Rightarrow> Some n | ibctransfertypes \<Rightarrow> Some n
   | icahosttypes \<Rightarrow> Some n | icacontrollertypes \<Rightarrow> Some n | wasmtypes \<Rightarrow> Some n
   | _ \<Rightarrow> None)"

definition register_key_table :: "subspace \<Rightarrow> subspace" where
  "register_key_table s = (case param_key_table (ss_Name s) of
     None \<Rightarrow> s
   | Some t \<Rightarrow> if ss_KeyTable s = None then s\<lparr>ss_KeyTable := Some t\<rparr> else s)"

text \<open>
  The second half of \<open>RegisterUpgradeHandlers\<close>: when the node stopped for the upgrade, the store loader
  adds the stores that are new.  \<open>UpgradeName\<close> is the plan's name.
\<close>

definition UpgradeName :: string where "UpgradeName = ''v046-to-v047''"

definition store_upgrades :: "(string \<times> u64) res \<Rightarrow> (u64 \<Rightarrow> bool) \<Rightarrow> (u64 \<times> mod_name list) option res" where
  "store_upgrades upgradeInfo IsSkipHeight = bindR (must upgradeInfo) (\<lambda>(name, height).
     Ok (if name = UpgradeName \<and> \<not> IsSkipHeight height then Some (height, [consensusparamtypes, crisistypes]) else None))"

section \<open>Messages of contracts\<close>

text \<open>
  \<open>wasmkeeper.NewMessageHandlerChain\<close> is wasmd's: the handlers are asked in their order, and one that
  returns \<open>ErrUnknownMsg\<close>, bare or wrapped (\<open>errors.Is\<close>), hands the message on in the context that it
  leaves behind; when none is left, the error is \<open>ErrUnknownMsg\<close>, which may be wrapped too.  The chain
  is an argument, with that as its law.
\<close>

type_synonym 'x messenger = "bytes \<Rightarrow> CosmosMsg \<Rightarrow> ('x ctx, event list) call"

definition unknown_msg :: "'a res \<Rightarrow> bool" where
  "unknown_msg r = (case r of Err e \<Rightarrow> root_err e = ErrUnknownMsg | _ \<Rightarrow> False)"

definition chain_laws :: "('x messenger list \<Rightarrow> 'x messenger) \<Rightarrow> bool" where
  "chain_laws chain_of \<longleftrightarrow>
     (\<exists>e. root_err e = ErrUnknownMsg \<and> (\<forall>contract msg c. chain_of [] contract msg c = (Err e, c))) \<and>
     (\<forall>h hs contract msg c. chain_of (h # hs) contract msg c =
        (case h contract msg c of (r, d) \<Rightarrow> if unknown_msg r then chain_of hs contract msg d else (r, d)))"

definition meshMessageHandler :: "('x messenger list \<Rightarrow> 'x messenger) \<Rightarrow> (bytes \<Rightarrow> CustomMsg res) \<Rightarrow> 'x Keeper \<Rightarrow>
    'x messenger \<Rightarrow> 'x messenger" where
  "meshMessageHandler chain_of json MeshSecKeeper vanilla = chain_of
     [NewIntegrityHandler HasMaxCapLimit,
      vanilla,
      DispatchMsg (lib MeshSecKeeper) json (NewDefaultCustomMsgHandler MeshSecKeeper)]"

section \<open>The keepers\<close>

text \<open>The module's keeper comes with the governance account as its authority.\<close>

definition app_MeshSecKeeper :: "sdk_lib \<Rightarrow> (account_name \<Rightarrow> string) \<Rightarrow> 'x SDKBankKeeper \<Rightarrow> 'x SDKStakingKeeper \<Rightarrow>
    'x WasmKeeper \<Rightarrow> 'x Keeper" where
  "app_MeshSecKeeper L addr BankKeeper StakingKeeper WasmKeeper =
     NewKeeper L BankKeeper StakingKeeper WasmKeeper (addr (ModuleAccount govtypes)) []"

text \<open>The slashing keeper is built, by \<open>slashing_of\<close>, on the decorated staking keeper.\<close>

definition app_SlashingKeeper :: "('x slashing_StakingKeeper \<Rightarrow> 'x evidence_SlashingKeeper) \<Rightarrow> 'x slashing_StakingKeeper \<Rightarrow>
    'x Keeper \<Rightarrow> 'x evidence_SlashingKeeper" where
  "app_SlashingKeeper slashing_of StakingKeeper MeshSecKeeper = slashing_of (NewStakingDecorator StakingKeeper MeshSecKeeper)"

text \<open>The staking hooks are those of three modules, in this order.\<close>

definition app_StakingHooks :: "mod_name list" where
  "app_StakingHooks = [distrtypes, slashingtypes, meshsectypes]"

text \<open>The evidence keeper is built on the decorated slashing keeper.\<close>

definition app_evidence_SlashingKeeper :: "'x Keeper \<Rightarrow> 'x evidence_SlashingKeeper \<Rightarrow> 'x SDKStakingKeeper \<Rightarrow>
    'x evidence_SlashingKeeper" where
  "app_evidence_SlashingKeeper MeshSecKeeper SlashingKeeper StakingKeeper =
     CaptureTombstoneDecorator MeshSecKeeper SlashingKeeper StakingKeeper"

section \<open>The ante handler\<close>

text \<open>What has to be there, and which keepers the decorators get, each known by a name of its own.\<close>

record 'k HandlerOptions =
  opt_AccountKeeper :: "'k option"
  opt_BankKeeper :: "'k option"
  opt_FeegrantKeeper :: "'k option"
  opt_SignModeHandler :: "'k option"
  opt_SigGasConsumer :: "'k option"
  opt_ExtensionOptionChecker :: "'k option"
  opt_TxFeeChecker :: "'k option"
  opt_IBCKeeper :: "'k option"
  opt_WasmConfig :: "'k option"
  opt_TXCounterStoreKey :: "'k option"

datatype 'k AnteDecorator =
    SetUpContextDecorator | LimitSimulationGasDecorator 'k | CountTXDecorator 'k | ExtensionOptionsDecorator "'k option"
  | ValidateBasicDecorator | TxTimeoutHeightDecorator | ValidateMemoDecorator 'k | ConsumeGasForTxSizeDecorator 'k
  | DeductFeeDecorator 'k 'k "'k option" "'k option" | SetPubKeyDecorator 'k | ValidateSigCountDecorator 'k
  | SigGasConsumeDecorator 'k "'k option" | SigVerificationDecorator 'k 'k | IncrementSequenceDecorator 'k
  | RedundantRelayDecorator "'k option"

definition ErrLogic :: err where "ErrLogic = Sentinel ''sdkerrors.ErrLogic''"

definition NewAnteHandler :: "'k HandlerOptions \<Rightarrow> 'k AnteDecorator list res" where
  "NewAnteHandler options =
    (case opt_AccountKeeper options of
       None \<Rightarrow> Err (Wrapped ErrLogic ''account keeper is required for AnteHandler'')
     | Some account \<Rightarrow> (case opt_BankKeeper options of
       None \<Rightarrow> Err (Wrapped ErrLogic ''bank keeper is required for AnteHandler'')
     | Some bank_k \<Rightarrow> (case opt_SignModeHandler options of
       None \<Rightarrow> Err (Wrapped ErrLogic ''sign mode handler is required for ante builder'')
     | Some sign_mode \<Rightarrow> (case opt_WasmConfig options of
       None \<Rightarrow> Err (Wrapped ErrLogic ''wasm config is required for ante builder'')
     | Some wasm_config \<Rightarrow> (case opt_TXCounterStoreKey options of
       None \<Rightarrow> Err (Wrapped ErrLogic ''tx counter key is required for ante builder'')
     | Some counter_key \<Rightarrow> Ok
        [SetUpContextDecorator,
         LimitSimulationGasDecorator wasm_config,
         CountTXDecorator counter_key,
         ExtensionOptionsDecorator (opt_ExtensionOptionChecker options),
         ValidateBasicDecorator,
         TxTimeoutHeightDecorator,
         ValidateMemoDecorator account,
         ConsumeGasForTxSizeDecorator account,
         DeductFeeDecorator account bank_k (opt_FeegrantKeeper options) (opt_TxFeeChecker options),
         SetPubKeyDecorator account,
         ValidateSigCountDecorator account,
         SigGasConsumeDecorator account (opt_SigGasConsumer options),
         SigVerificationDecorator account sign_mode,
         IncrementSequenceDecorator account,
         RedundantRelayDecorator (opt_IBCKeeper options)])))))"

text \<open>\<open>setAnteHandler\<close> fills in all it needs; an error would stop the chain from starting.\<close>

definition setAnteHandler :: "'k \<Rightarrow> 'k \<Rightarrow> 'k \<Rightarrow> 'k \<Rightarrow> 'k \<Rightarrow> 'k \<Rightarrow> 'k \<Rightarrow> 'k \<Rightarrow> 'k AnteDecorator list res" where
  "setAnteHandler account bank_k fee_grant gas_consumer ibc sign_mode wasmConfig txCounterStoreKey =
     must (NewAnteHandler
       \<lparr>opt_AccountKeeper = Some account, opt_BankKeeper = Some bank_k, opt_FeegrantKeeper = Some fee_grant,
        opt_SignModeHandler = Some sign_mode, opt_SigGasConsumer = Some gas_consumer,
        opt_ExtensionOptionChecker = None, opt_TxFeeChecker = None, opt_IBCKeeper = Some ibc,
        opt_WasmConfig = Some wasmConfig, opt_TXCounterStoreKey = Some txCounterStoreKey\<rparr>)"

end
