(* ===== verification/Client.thy ===== *)
theory Client
  imports Module
begin

text \<open>
  How users reach the module from outside: the HTTP gateway of the query service
  (\<open>types/query.pb.gw.go\<close>) and the commands of \<open>client/cli\<close>.  The HTTP and gRPC runtime, the flags
  of the command line, the text formats of coins and the broadcasting of transactions are
  arguments; what is modelled is which request each entry point makes of its input, and what
  becomes of the errors on the way.
\<close>

section \<open>The gateway\<close>

definition InvalidArgument :: "string \<Rightarrow> err" where
  "InvalidArgument t = Wrapped (Sentinel ''codes.InvalidArgument'') t"

text \<open>\<open>rt_String\<close> is \<open>runtime.String\<close>, which parses a path parameter.\<close>

definition limit_path_request :: "(string \<Rightarrow> string res) \<Rightarrow> (string \<rightharpoonup> string) \<Rightarrow>
    QueryVirtualStakingMaxCapLimitRequest res" where
  "limit_path_request rt_String pathParams = (case pathParams ''address'' of
     None \<Rightarrow> Err (InvalidArgument ''missing parameter address'')
   | Some val \<Rightarrow> (case rt_String val of
       Err _ \<Rightarrow> Err (InvalidArgument ''type mismatch, parameter: address'')
     | Panic p \<Rightarrow> Panic p
     | Ok a \<Rightarrow> Ok \<lparr>limit_req_Address = a\<rparr>))"

text \<open>The client and the server of the service have the same methods; \<open>'c\<close> is the context.\<close>

definition request_Query_VirtualStakingMaxCapLimit_0 :: "(string \<Rightarrow> string res) \<Rightarrow> 'c \<Rightarrow> 'c QueryServer \<Rightarrow>
    (string \<rightharpoonup> string) \<Rightarrow> QueryVirtualStakingMaxCapLimitResponse res" where
  "request_Query_VirtualStakingMaxCapLimit_0 rt_String ctx client pathParams =
     bindR (limit_path_request rt_String pathParams) (srv_VirtualStakingMaxCapLimit client ctx)"

definition local_request_Query_VirtualStakingMaxCapLimit_0 :: "(string \<Rightarrow> string res) \<Rightarrow> 'c \<Rightarrow> 'c QueryServer \<Rightarrow>
    (string \<rightharpoonup> string) \<Rightarrow> QueryVirtualStakingMaxCapLimitResponse res" where
  "local_request_Query_VirtualStakingMaxCapLimit_0 rt_String ctx server pathParams =
     bindR (limit_path_request rt_String pathParams) (srv_VirtualStakingMaxCapLimit server ctx)"

definition request_Query_VirtualStakingMaxCapLimits_0 :: "'c \<Rightarrow> 'c QueryServer \<Rightarrow>
    QueryVirtualStakingMaxCapLimitsResponse res" where
  "request_Query_VirtualStakingMaxCapLimits_0 ctx client =
     srv_VirtualStakingMaxCapLimits client ctx QueryVirtualStakingMaxCapLimitsRequest"

definition local_request_Query_VirtualStakingMaxCapLimits_0 :: "'c \<Rightarrow> 'c QueryServer \<Rightarrow>
    QueryVirtualStakingMaxCapLimitsResponse res" where
  "local_request_Query_VirtualStakingMaxCapLimits_0 ctx server =
     srv_VirtualStakingMaxCapLimits server ctx QueryVirtualStakingMaxCapLimitsRequest"

definition request_Query_Params_0 :: "'c \<Rightarrow> 'c QueryServer \<Rightarrow> QueryParamsResponse res" where
  "request_Query_Params_0 ctx client = srv_Params client ctx QueryParamsRequest"

definition local_request_Query_Params_0 :: "'c \<Rightarrow> 'c QueryServer \<Rightarrow> QueryParamsResponse res" where
  "local_request_Query_Params_0 ctx server = srv_Params server ctx QueryParamsRequest"

text \<open>The patterns: version, operations, pool and verb, as \<open>runtime.NewPattern\<close> takes them.\<close>

record pattern =
  pt_version :: nat
  pt_ops :: "nat list"
  pt_pool :: "string list"
  pt_verb :: string

definition pattern_Query_VirtualStakingMaxCapLimit_0 :: pattern where
  "pattern_Query_VirtualStakingMaxCapLimit_0 = \<lparr>pt_version = 1,
     pt_ops = [2, 0, 2, 1, 2, 2, 2, 3, 1, 0, 4, 1, 5, 4],
     pt_pool = [''osmosis'', ''meshsecurity'', ''v1beta1'', ''max_cap_limit'', ''address''], pt_verb = ''''\<rparr>"

definition pattern_Query_VirtualStakingMaxCapLimits_0 :: pattern where
  "pattern_Query_VirtualStakingMaxCapLimits_0 = \<lparr>pt_version = 1, pt_ops = [2, 0, 2, 1, 2, 2, 2, 3],
     pt_pool = [''osmosis'', ''meshsecurity'', ''v1beta1'', ''max_cap_limits''], pt_verb = ''''\<rparr>"

definition pattern_Query_Params_0 :: pattern where
  "pattern_Query_Params_0 = \<lparr>pt_version = 1, pt_ops = [2, 0, 2, 1, 2, 2, 2, 3],
     pt_pool = [''osmosis'', ''meshsecurity'', ''v1beta1'', ''params''], pt_verb = ''''\<rparr>"

text \<open>What is written to the HTTP response.\<close>

datatype QueryMessage =
    LimitMessage QueryVirtualStakingMaxCapLimitResponse
  | LimitsMessage QueryVirtualStakingMaxCapLimitsResponse
  | ParamsMessage QueryParamsResponse

datatype http = HTTPError err | ForwardResponse QueryMessage | HandlerPanic string

definition respond :: "('m \<Rightarrow> QueryMessage) \<Rightarrow> 'm res \<Rightarrow> http" where
  "respond f r = (case r of Ok m \<Rightarrow> ForwardResponse (f m) | Err e \<Rightarrow> HTTPError e | Panic p \<Rightarrow> HandlerPanic p)"

text \<open>
  The routes, each a method, a pattern and a handler of the annotated request and its path
  parameters; \<open>annotate\<close> makes the context of the request, or fails.
\<close>

type_synonym ('q, 'c) route = "string \<times> pattern \<times> ('q \<Rightarrow> (string \<rightharpoonup> string) \<Rightarrow> http)"

definition RegisterQueryHandlerServer ::
  "(string \<Rightarrow> string res) \<Rightarrow> ('q \<Rightarrow> 'c res) \<Rightarrow> 'c QueryServer \<Rightarrow> ('q, 'c) route list" where
  "RegisterQueryHandlerServer rt_String annotate server =
     [(''GET'', pattern_Query_VirtualStakingMaxCapLimit_0, \<lambda>req pathParams.
         respond LimitMessage (bindR (annotate req) (\<lambda>rctx.
           local_request_Query_VirtualStakingMaxCapLimit_0 rt_String rctx server pathParams))),
      (''GET'', pattern_Query_VirtualStakingMaxCapLimits_0, \<lambda>req pathParams.
         respond LimitsMessage (bindR (annotate req) (\<lambda>rctx.
           local_request_Query_VirtualStakingMaxCapLimits_0 rctx server))),
      (''GET'', pattern_Query_Params_0, \<lambda>req pathParams.
         respond ParamsMessage (bindR (annotate req) (\<lambda>rctx. local_request_Query_Params_0 rctx server)))]"

definition RegisterQueryHandlerClient ::
  "(string \<Rightarrow> string res) \<Rightarrow> ('q \<Rightarrow> 'c res) \<Rightarrow> 'c QueryServer \<Rightarrow> ('q, 'c) route list" where
  "RegisterQueryHandlerClient rt_String annotate client =
     [(''GET'', pattern_Query_VirtualStakingMaxCapLimit_0, \<lambda>req pathParams.
         respond LimitMessage (bindR (annotate req) (\<lambda>rctx.
           request_Query_VirtualStakingMaxCapLimit_0 rt_String rctx client pathParams))),
      (''GET'', pattern_Query_VirtualStakingMaxCapLimits_0, \<lambda>req pathParams.
         respond LimitsMessage (bindR (annotate req) (\<lambda>rctx.
           request_Query_VirtualStakingMaxCapLimits_0 rctx client))),
      (''GET'', pattern_Query_Params_0, \<lambda>req pathParams.
         respond ParamsMessage (bindR (annotate req) (\<lambda>rctx. request_Query_Params_0 rctx client)))]"

text \<open>A connection \<open>'n\<close> is a client of the service by \<open>NewQueryClient\<close>.\<close>

definition RegisterQueryHandler ::
  "(string \<Rightarrow> string res) \<Rightarrow> ('q \<Rightarrow> 'c res) \<Rightarrow> ('n \<Rightarrow> 'c QueryServer) \<Rightarrow> 'n \<Rightarrow> ('q, 'c) route list res" where
  "RegisterQueryHandler rt_String annotate NewQueryClient conn =
     Ok (RegisterQueryHandlerClient rt_String annotate (NewQueryClient conn))"

text \<open>
  A connection that was dialled is closed at once when the registration returns an error, and otherwise
  when the context is done; an error of closing is logged only.
\<close>

datatype closing = CloseNow | CloseWhenDone

definition RegisterQueryHandlerFromEndpoint ::
  "(string \<Rightarrow> string res) \<Rightarrow> ('q \<Rightarrow> 'c res) \<Rightarrow> ('n \<Rightarrow> 'c QueryServer) \<Rightarrow> (string \<Rightarrow> 'n res) \<Rightarrow> string \<Rightarrow>
    ('q, 'c) route list res \<times> ('n \<times> closing) option" where
  "RegisterQueryHandlerFromEndpoint rt_String annotate NewQueryClient Dial endpoint = (case Dial endpoint of
     Err e \<Rightarrow> (Err e, None)
   | Panic p \<Rightarrow> (Panic p, None)
   | Ok conn \<Rightarrow> let r = RegisterQueryHandler rt_String annotate NewQueryClient conn in
       (r, Some (conn, if err_of r \<noteq> None then CloseNow else CloseWhenDone)))"

definition basic_RegisterGRPCGatewayRoutes ::
  "(string \<Rightarrow> string res) \<Rightarrow> ('q \<Rightarrow> 'c res) \<Rightarrow> 'c QueryServer \<Rightarrow> ('q, 'c) route list \<Rightarrow> ('q, 'c) route list" where
  "basic_RegisterGRPCGatewayRoutes rt_String annotate client mux =
     mux @ RegisterQueryHandlerClient rt_String annotate client"

section \<open>Commands\<close>

text \<open>
  A \<open>cobra.Command\<close>: the first word of its use line, which is its name, the exact number of arguments
  if it has one, its own flags with their defaults, what it runs on its arguments, if anything, and
  its subcommands; the help texts are left out.  \<open>ValidateCmd\<close>, which the groups run, is the SDK's.
\<close>

datatype command = Command (Use: string) (ExactArgs: "nat option") (Flags: "(string \<times> string) list")
  (RunE: "(string list \<Rightarrow> unit res) option") (Commands: "command list")

definition flagAuthority :: string where "flagAuthority = ''authority''"
definition FlagTitle :: string where "FlagTitle = ''title''"
definition FlagSummary :: string where "FlagSummary = ''summary''"
definition FlagMetadata :: string where "FlagMetadata = ''metadata''"
definition FlagDeposit :: string where "FlagDeposit = ''deposit''"

lemmas flag_defs = flagAuthority_def FlagTitle_def FlagSummary_def FlagMetadata_def FlagDeposit_def

text \<open>
  What a command uses of its process and of the SDK: the values of its flags, the client context
  \<open>'cc\<close> for transactions and queries, and the formats of coins and proposals.
\<close>

record ('cc, 'p) cli_env =
  GetString :: "string \<Rightarrow> string res"
  GetClientTxContext :: "'cc res"
  GetClientQueryContext :: "'cc res"
  GetFromAddress :: "'cc \<Rightarrow> string"
  ParseCoinNormalized :: "string \<Rightarrow> coin res"
  ParseCoinsNormalized :: "string \<Rightarrow> coin list res"
  NewMsgSubmitProposal :: "MsgSetVirtualStakingMaxCap list \<Rightarrow> coin list \<Rightarrow> string \<Rightarrow> string \<Rightarrow> string \<Rightarrow> string \<Rightarrow> 'p res"
  proposal_ValidateBasic :: "'p \<Rightarrow> unit res"
  GenerateOrBroadcastTxCLI :: "'cc \<Rightarrow> 'p \<Rightarrow> unit res"
  NewQueryClient :: "'cc \<Rightarrow> unit QueryServer"
  PrintProto :: "'cc \<Rightarrow> QueryMessage \<Rightarrow> unit res"
  ValidateCmd :: "string list \<Rightarrow> unit res"
  DefaultGovAuthority :: string

definition getProposalInfo :: "('cc, 'p) cli_env \<Rightarrow> ('cc \<times> string \<times> string \<times> string \<times> coin list) res" where
  "getProposalInfo env =
     bindR (GetClientTxContext env) (\<lambda>clientCtx.
     bindR (GetString env FlagTitle) (\<lambda>proposalTitle.
     bindR (GetString env FlagSummary) (\<lambda>summary.
     bindR (GetString env FlagMetadata) (\<lambda>metadata.
     bindR (GetString env FlagDeposit) (\<lambda>depositArg.
     bindR (ParseCoinsNormalized env depositArg) (\<lambda>deposit.
     Ok (clientCtx, proposalTitle, summary, metadata, deposit)))))))"

definition run_set_max_cap :: "('cc, 'p) cli_env \<Rightarrow> string list \<Rightarrow> unit res" where
  "run_set_max_cap env args =
     bindR (getProposalInfo env) (\<lambda>(clientCtx, proposalTitle, summary, metadata, deposit).
     bindR (case GetString env flagAuthority of Err e \<Rightarrow> Err (Wrapped (Errorf ''authority'') (err_text e)) | r \<Rightarrow> r) (\<lambda>auth.
     if auth = [] then Err (Errorf ''authority address is required'')
     else
       bindR (parseSetVirtualStakingMaxCapArgs (ParseCoinNormalized env) args auth) (\<lambda>src.
       bindR (NewMsgSubmitProposal env [src] deposit (GetFromAddress env clientCtx) metadata proposalTitle summary) (\<lambda>proposalMsg.
       bindR (proposal_ValidateBasic env proposalMsg) (\<lambda>_.
       GenerateOrBroadcastTxCLI env clientCtx proposalMsg)))))"

text \<open>The flags that \<open>AddTxFlagsToCmd\<close> adds are the SDK's and left out.\<close>

definition addCommonProposalFlags :: "('cc, 'p) cli_env \<Rightarrow> (string \<times> string) list" where
  "addCommonProposalFlags env = [(FlagTitle, []), (FlagSummary, []), (FlagMetadata, []), (FlagDeposit, []),
     (flagAuthority, DefaultGovAuthority env)]"

definition ProposalSetVirtualStakingMaxCapCmd :: "('cc, 'p) cli_env \<Rightarrow> command" where
  "ProposalSetVirtualStakingMaxCapCmd env = Command ''set-virtual-staking-max-cap'' (Some 2)
     (addCommonProposalFlags env) (Some (run_set_max_cap env)) []"

definition SubmitProposalCmd :: "('cc, 'p) cli_env \<Rightarrow> command" where
  "SubmitProposalCmd env = Command ''submit-proposal'' None [] None [ProposalSetVirtualStakingMaxCapCmd env]"

definition GetTxCmd :: "('cc, 'p) cli_env \<Rightarrow> command" where
  "GetTxCmd env = Command ModuleName None [] (Some (ValidateCmd env)) [SubmitProposalCmd env]"

definition run_query_max_cap_limit :: "sdk_lib \<Rightarrow> ('cc, 'p) cli_env \<Rightarrow> string list \<Rightarrow> unit res" where
  "run_query_max_cap_limit L env args =
     bindR (GetClientQueryContext env) (\<lambda>clientCtx.
     bindR (go_index args 0) (\<lambda>arg.
     bindR (acc_from_bech32 L arg) (\<lambda>_.
     bindR (srv_VirtualStakingMaxCapLimit (NewQueryClient env clientCtx) () \<lparr>limit_req_Address = arg\<rparr>) (\<lambda>res.
     PrintProto env clientCtx (LimitMessage res)))))"

definition GetCmdQueryMaxCapLimit :: "sdk_lib \<Rightarrow> ('cc, 'p) cli_env \<Rightarrow> command" where
  "GetCmdQueryMaxCapLimit L env = Command ''max-cap-limit'' (Some 1) [] (Some (run_query_max_cap_limit L env)) []"

definition run_query_max_cap_limits :: "('cc, 'p) cli_env \<Rightarrow> string list \<Rightarrow> unit res" where
  "run_query_max_cap_limits env args =
     bindR (GetClientQueryContext env) (\<lambda>clientCtx.
     bindR (srv_VirtualStakingMaxCapLimits (NewQueryClient env clientCtx) () QueryVirtualStakingMaxCapLimitsRequest) (\<lambda>res.
     PrintProto env clientCtx (LimitsMessage res)))"

definition GetCmdQueryMaxCapLimits :: "('cc, 'p) cli_env \<Rightarrow> command" where
  "GetCmdQueryMaxCapLimits env = Command ''max-cap-limits'' (Some 0) [] (Some (run_query_max_cap_limits env)) []"

text \<open>The parameters are printed without the response around them.\<close>

definition run_query_params :: "('cc, 'p) cli_env \<Rightarrow> ('cc \<Rightarrow> Params \<Rightarrow> unit res) \<Rightarrow> string list \<Rightarrow> unit res" where
  "run_query_params env print args =
     bindR (GetClientQueryContext env) (\<lambda>clientCtx.
     bindR (srv_Params (NewQueryClient env clientCtx) () QueryParamsRequest) (\<lambda>res.
     print clientCtx (params_resp_Params res)))"

definition GetCmdQueryParams :: "('cc, 'p) cli_env \<Rightarrow> ('cc \<Rightarrow> Params \<Rightarrow> unit res) \<Rightarrow> command" where
  "GetCmdQueryParams env print = Command ''params'' (Some 0) [] (Some (run_query_params env print)) []"

definition GetQueryCmd :: "sdk_lib \<Rightarrow> ('cc, 'p) cli_env \<Rightarrow> ('cc \<Rightarrow> Params \<Rightarrow> unit res) \<Rightarrow> command" where
  "GetQueryCmd L env print = Command ModuleName None [] (Some (ValidateCmd env))
     [GetCmdQueryMaxCapLimit L env, GetCmdQueryMaxCapLimits env, GetCmdQueryParams env print]"

text \<open>The basic module hands out both.\<close>

definition basic_GetTxCmd :: "('cc, 'p) cli_env \<Rightarrow> command" where
  "basic_GetTxCmd env = GetTxCmd env"

definition basic_GetQueryCmd :: "sdk_lib \<Rightarrow> ('cc, 'p) cli_env \<Rightarrow> ('cc \<Rightarrow> Params \<Rightarrow> unit res) \<Rightarrow> command" where
  "basic_GetQueryCmd L env print = GetQueryCmd L env print"

end
