(* ===== verification/AppProps.thy ===== *)
theory AppProps
  imports App Client HandlerProps Books "HOL-Library.Multiset"
begin

text \<open>
  The properties of the module in the demo chain and towards its users: which handler a contract's
  message reaches, which accounts are blocked, that the orders of the modules are complete, that all
  ways to query a limit agree, and what the proposal command submits.
\<close>

section \<open>The chain of message handlers\<close>

lemma unknown_msg_simps [simp]:
  "unknown_msg (Err e) = (root_err e = ErrUnknownMsg)" "\<not> unknown_msg (Ok x)" "\<not> unknown_msg (Panic s)"
  by (simp_all add: unknown_msg_def)

lemma root_err_UnknownMsg [simp]: "root_err ErrUnknownMsg = ErrUnknownMsg"
  by (simp add: ErrUnknownMsg_def)

lemma chain_step:
  assumes "chain_laws chain_of"
  shows "chain_of (h # hs) contract msg c =
    (case h contract msg c of (r, d) \<Rightarrow> if unknown_msg r then chain_of hs contract msg d else (r, d))"
  using assms by (simp add: chain_laws_def)

lemma chain_end:
  assumes "chain_laws chain_of"
  obtains e where "unknown_msg (Err e)" "\<And>contract msg c. chain_of [] contract msg c = (Err e, c)"
  using assms that by (auto simp: chain_laws_def)

lemma unsupported_known: "ErrUnsupported \<noteq> ErrUnknownMsg"
  by (simp add: ErrUnknownMsg_def ErrUnsupported_def)

text \<open>
  C12.  A contract with a limit cannot stake past the module: whatever wasmd's own handler does, its
  staking and stargate messages are refused before they reach it, and nothing has changed.  Every
  other message goes to wasmd's handler; one that this refuses with \<open>ErrUnknownMsg\<close>, bare or wrapped
  as its encoder of custom messages does, goes on to the module's handler, and when that does not
  know it either, the chain ends with \<open>ErrUnknownMsg\<close>.
\<close>
theorem message_routing:
  assumes laws: "chain_laws chain_of"
  shows "\<exists>e. root_err e = ErrUnknownMsg \<and>
    meshMessageHandler chain_of json k vanilla contract msg c =
     (if HasMaxCapLimit c contract \<and> (cm_Staking msg \<noteq> None \<or> cm_Stargate msg \<noteq> None)
      then (Err (Wrapped ErrUnsupported ''message type for contracts with max cap set''), c)
      else case vanilla contract msg c of (r, d) \<Rightarrow>
        if \<not> unknown_msg r then (r, d)
        else case DispatchMsg (lib k) json (NewDefaultCustomMsgHandler k) contract msg d of (r', d') \<Rightarrow>
          if \<not> unknown_msg r' then (r', d') else (Err e, d'))"
proof -
  obtain e where e: "unknown_msg (Err e)" "\<And>contract msg c. chain_of [] contract msg c = (Err e, c)"
    by (rule chain_end [OF laws]) blast
  then show ?thesis
    by (intro exI [of _ e]) (auto simp: meshMessageHandler_def chain_step [OF laws] NewIntegrityHandler_def
        unsupported_known split: prod.splits)
qed

text \<open>A chain of handlers, as wasmd's documentation describes it.\<close>

primrec demo_chain_of :: "'x messenger list \<Rightarrow> 'x messenger" where
  "demo_chain_of [] contract msg = fail (Wrapped ErrUnknownMsg ''no handler found'')"
| "demo_chain_of (h # hs) contract msg = (\<lambda>c.
     case h contract msg c of (r, d) \<Rightarrow> if unknown_msg r then demo_chain_of hs contract msg d else (r, d))"

lemma demo_chain_laws: "chain_laws demo_chain_of"
  by (simp add: chain_laws_def)

text \<open>
  A handler that executes the staking messages and, like wasmd's, refuses custom ones with a wrapped
  error: the first never see it from the contract with a limit, and the bond reaches the module.
\<close>

definition demo_vanilla :: "'x messenger" where
  "demo_vanilla contract msg =
     (if cm_Staking msg = None then fail (Wrapped ErrUnknownMsg ''custom variant not supported'') else ret [])"

lemma demo_bond_runs:
  obtains d evs where "DispatchMsg demo_lib demo_bond (NewDefaultCustomMsgHandler demo_keeper) con_a demo_custom demo_capped =
      (Ok evs, d)" "total_delegated demo_keeper d con_a = 100"
proof -
  let ?s = "(open_cache demo_capped)\<lparr>chain := (chain demo_capped)\<lparr>demo_supply := 100\<rparr>\<rparr>"
  obtain d where run: "Delegate demo_keeper con_a val_a (coin_of ''stake'' 100) demo_capped = (Ok 100, d)"
    and total: "total_delegated demo_keeper d con_a = 100"
    using Delegate_runs [of demo_keeper demo_capped con_a val_a "coin_of ''stake'' 100" 100
      "[coin_of ''stake'' 100]" ?s ?s ?s "Ok 100" ?s]
    by (auto simp: may_delegate_def demo_chain_simps add_supply_def demo_amount_of_def attempt_apply)
  have "convert_wasm_coin demo_lib \<lparr>wasm_denom = ''stake'', wasm_amount = ''100''\<rparr> = Ok (coin_of ''stake'' 100)"
    by code_simp
  moreover have "val_from_bech32 demo_lib ''vala'' = Ok val_a"
    by (simp add: demo_lib_def val_a_def)
  ultimately show ?thesis
    using run total that
    by (simp add: DispatchMsg_def demo_custom_def demo_bond_def NewDefaultCustomMsgHandler_def
        defaultMaxCapAuthorizator_def handleBondMsg_def bind_apply)
qed

theorem message_routing_witness:
  "meshMessageHandler demo_chain_of demo_bond demo_keeper demo_vanilla con_a
     \<lparr>cm_Custom = None, cm_Staking = Some [], cm_Stargate = None\<rparr> demo_capped =
   (Err (Wrapped ErrUnsupported ''message type for contracts with max cap set''), demo_capped) \<and>
   (\<exists>evs d. meshMessageHandler demo_chain_of demo_bond demo_keeper demo_vanilla con_a demo_custom demo_capped =
     (Ok evs, d) \<and> total_delegated demo_keeper d con_a = 100)"
proof -
  obtain d evs where bond: "DispatchMsg (lib demo_keeper) demo_bond (NewDefaultCustomMsgHandler demo_keeper) con_a
      demo_custom demo_capped = (Ok evs, d)" "total_delegated demo_keeper d con_a = 100"
    by (rule demo_bond_runs) simp
  show ?thesis
    using bond message_routing [OF demo_chain_laws, of demo_bond demo_keeper demo_vanilla con_a demo_custom demo_capped]
      message_routing [OF demo_chain_laws, of demo_bond demo_keeper demo_vanilla con_a
        "\<lparr>cm_Custom = None, cm_Staking = Some [], cm_Stargate = None\<rparr>" demo_capped]
    by (auto simp: demo_vanilla_def demo_custom_def)
qed

section \<open>Accounts and orders\<close>

lemma blocked_fold:
  "fold (\<lambda>acc m. m(addr acc \<mapsto> True)) accs m s = (if \<exists>acc \<in> set accs. s = addr acc then Some True else m s)"
  by (induction accs arbitrary: m) auto

text \<open>
  The addresses that cannot receive funds are those of the module accounts, the module's own
  included, except the governance account, which is the module's authority.
\<close>
theorem blocked_addresses:
  assumes "inj addr"
  shows "BlockedAddresses addr s =
    (if \<exists>acc \<in> fst ` set maccPerms. acc \<noteq> ModuleAccount govtypes \<and> s = addr acc then Some True else None)"
  using assms by (force simp: BlockedAddresses_def blocked_fold inj_eq)

text \<open>Addresses of the instance, by the position of a name in a list of all.\<close>

definition all_names :: "mod_name list" where
  "all_names = ibctm # icahosttypes # icacontrollertypes # ModuleManager"

lemma all_names: "n \<in> set all_names"
  by (cases n) (simp_all add: all_names_def ModuleManager_def)

definition name_index :: "mod_name \<Rightarrow> nat" where
  "name_index n = length (takeWhile (\<lambda>m. m \<noteq> n) all_names)"

lemma nth_position: "n \<in> set xs \<Longrightarrow> xs ! length (takeWhile (\<lambda>m. m \<noteq> n) xs) = n"
  by (induction xs) auto

lemma name_index_inject: "name_index m = name_index n \<longleftrightarrow> m = n"
  unfolding name_index_def by (metis nth_position all_names)

definition demo_address :: "account_name \<Rightarrow> string" where
  "demo_address acc = replicate (case acc of FeeCollector \<Rightarrow> 0 | BondedPool \<Rightarrow> 1 | NotBondedPool \<Rightarrow> 2
     | ModuleAccount n \<Rightarrow> 3 + name_index n) (CHR ''a'')"

lemma demo_address_inj: "inj demo_address"
  by (rule injI) (auto simp: demo_address_def name_index_inject split: account_name.splits)

theorem blocked_addresses_witness:
  "BlockedAddresses demo_address (demo_address (ModuleAccount meshsectypes)) = Some True \<and>
   BlockedAddresses demo_address (demo_address (ModuleAccount govtypes)) = None"
  by (auto simp: blocked_addresses [OF demo_address_inj] maccPerms_def inj_eq [OF demo_address_inj])

text \<open>
  Each order lists every module of the manager exactly once, and the module comes last, after all
  modules whose events it captures; its stores are mounted.
\<close>
theorem module_orders:
  "mset OrderBeginBlockers = mset ModuleManager \<and> mset OrderEndBlockers = mset ModuleManager \<and>
   mset genesisModuleOrder = mset ModuleManager \<and> distinct ModuleManager \<and>
   last OrderBeginBlockers = meshsectypes \<and> last OrderEndBlockers = meshsectypes \<and>
   last genesisModuleOrder = meshsectypes \<and> set ModuleBasics = insert ibctm (set ModuleManager) \<and>
   meshsectypes \<in> set kv_store_keys \<and> meshsectypes \<in> set memory_store_keys"
proof -
  have distinct: "distinct ModuleManager" "distinct OrderBeginBlockers" "distinct OrderEndBlockers" "distinct genesisModuleOrder"
    by (simp_all add: ModuleManager_def OrderBeginBlockers_def OrderEndBlockers_def genesisModuleOrder_def)
  have "set OrderBeginBlockers = set ModuleManager" "set OrderEndBlockers = set ModuleManager"
    "set genesisModuleOrder = set ModuleManager" "set ModuleBasics = insert ibctm (set ModuleManager)"
    by (auto simp: ModuleManager_def OrderBeginBlockers_def OrderEndBlockers_def genesisModuleOrder_def ModuleBasics_def)
  with distinct show ?thesis
    by (simp add: set_eq_iff_mset_eq_distinct [symmetric])
      (simp add: OrderBeginBlockers_def OrderEndBlockers_def genesisModuleOrder_def kv_store_keys_def memory_store_keys_def)
qed

section \<open>Queries and commands\<close>

text \<open>
  C36.  All ways to ask for a contract's limit agree, on the stored limit and total in the bond
  denomination: the service, the gateway's path, a contract's own query, and, for a contract that was
  given a limit, the list of all limits.
\<close>
theorem query_ways_agree:
  assumes laws: "coin_laws (lib k)" and ok: "ledger_ok k c" and acc: "acc_from_bech32 (lib k) s = Ok a"
    and path: "pathParams ''address'' = Some s" "rt_String s = Ok s" "annotate req = Ok c"
    and custom: "unmarshal bz = Ok \<lparr>query_VirtualStake = Some \<lparr>BondStatus = Some \<lparr>query_Contract = s\<rparr>, SlashRatio = x\<rparr>\<rparr>"
    and cap: "cap = coin_of (bond_denom k c) (max_cap k c a)"
    and delegated: "delegated = coin_of (bond_denom k c) (total_delegated k c a)"
  shows "srv_VirtualStakingMaxCapLimit (NewQuerier k) c \<lparr>limit_req_Address = s\<rparr> =
      Ok \<lparr>limit_resp_Delegated = delegated, limit_resp_Cap = cap\<rparr> \<and>
    snd (snd (hd (RegisterQueryHandlerServer rt_String annotate (NewQuerier k)))) req pathParams =
      ForwardResponse (LimitMessage \<lparr>limit_resp_Delegated = delegated, limit_resp_Cap = cap\<rparr>) \<and>
    NewQueryDecorator (lib k) unmarshal (view_of k) sk next c caller \<lparr>qr_Custom = Some bz\<rparr> =
      bindR (convert_sdk_coin (lib k) cap) (\<lambda>w. bindR (convert_sdk_coin (lib k) delegated) (\<lambda>v.
        Ok (string_bytes (bond_status_json (lib k) \<lparr>rsp_MaxCap = w, rsp_Delegated = v\<rparr>)))) \<and>
    (HasMaxCapLimit c a \<longrightarrow> (\<exists>infos. srv_VirtualStakingMaxCapLimits (NewQuerier k) c QueryVirtualStakingMaxCapLimitsRequest =
        Ok \<lparr>MaxCapInfos = infos\<rparr> \<and>
      \<lparr>info_Contract = acc_string (lib k) a, info_Delegated = delegated, info_Cap = cap\<rparr> \<in> set infos))"
proof -
  have get: "GetMaxCapLimit k c a = Ok cap" "GetTotalDelegated k c a = Ok delegated"
    using GetMaxCapLimit_value [OF laws, of c a] GetTotalDelegated_value [OF laws, of c a] ok
    by (simp_all add: cap delegated ledger_ok_def)
  have one: "srv_VirtualStakingMaxCapLimit (NewQuerier k) c \<lparr>limit_req_Address = s\<rparr> =
      Ok \<lparr>limit_resp_Delegated = delegated, limit_resp_Cap = cap\<rparr>"
    by (simp add: NewQuerier_def query_VirtualStakingMaxCapLimit_def acc get)
  have listed: "\<exists>infos. srv_VirtualStakingMaxCapLimits (NewQuerier k) c QueryVirtualStakingMaxCapLimitsRequest =
        Ok \<lparr>MaxCapInfos = infos\<rparr> \<and>
      \<lparr>info_Contract = acc_string (lib k) a, info_Delegated = delegated, info_Cap = cap\<rparr> \<in> set infos"
    if "HasMaxCapLimit c a"
  proof -
    from that have "(a, max_cap k c a) \<in> set (max_caps k c)"
      by (simp add: max_caps_iff)
    then show ?thesis
      using all_limits_run [OF laws ok, of QueryVirtualStakingMaxCapLimitsRequest]
      by (force simp: NewQuerier_def cap delegated)
  qed
  show ?thesis
    using one listed path
    by (simp add: RegisterQueryHandlerServer_def local_request_Query_VirtualStakingMaxCapLimit_0_def
        limit_path_request_def respond_def NewQueryDecorator_def ChainedCustomQuerier_def custom acc view_of_def get)
qed

theorem query_ways_agree_witness:
  "\<exists>infos. srv_VirtualStakingMaxCapLimits (NewQuerier demo_keeper) demo_bonded QueryVirtualStakingMaxCapLimitsRequest =
      Ok \<lparr>MaxCapInfos = infos\<rparr> \<and>
    \<lparr>info_Contract = ''cona'', info_Delegated = coin_of ''stake'' 100, info_Cap = coin_of ''stake'' 500\<rparr> \<in> set infos"
proof -
  have "acc_string demo_lib con_a = ''cona''"
    by (simp add: demo_lib_def con_a_def)
  moreover have "HasMaxCapLimit demo_bonded con_a"
    by (rule has_positive_cap [of demo_keeper]) simp
  ultimately show ?thesis
    using query_ways_agree [of demo_keeper demo_bonded "''cona''" con_a "[''address'' \<mapsto> ''cona'']" Ok "\<lambda>_. Ok demo_bonded" "()"
      "\<lambda>_. Ok \<lparr>query_VirtualStake = Some \<lparr>BondStatus = Some \<lparr>query_Contract = ''cona''\<rparr>, SlashRatio = None\<rparr>\<rparr>" "[]" None]
    by (simp add: con_a_def [symmetric])
qed

text \<open>
  What the proposal command submits, exactly: it succeeds if and only if everything it reads
  parses, the authority is not empty, and the proposal with the one message that sets the limit of
  the contract in the first argument to the coin in the second is valid and broadcast.
\<close>
theorem proposal_command:
  "map_option (\<lambda>run. run [contract, coin_arg]) (RunE (ProposalSetVirtualStakingMaxCapCmd env)) = Some (Ok ()) \<longleftrightarrow>
    (\<exists>cc title summary metadata deposit auth maxCap p.
       getProposalInfo env = Ok (cc, title, summary, metadata, deposit) \<and>
       GetString env flagAuthority = Ok auth \<and> auth \<noteq> [] \<and> ParseCoinNormalized env coin_arg = Ok maxCap \<and>
       NewMsgSubmitProposal env [\<lparr>setcap_Authority = auth, setcap_Contract = contract, setcap_MaxCap = maxCap\<rparr>]
         deposit (GetFromAddress env cc) metadata title summary = Ok p \<and>
       proposal_ValidateBasic env p = Ok () \<and> GenerateOrBroadcastTxCLI env cc p = Ok ())"
  by (cases "GetString env flagAuthority")
    (auto simp: ProposalSetVirtualStakingMaxCapCmd_def run_set_max_cap_def parseSetVirtualStakingMaxCapArgs_def
      bindR_eq_Ok go_index_def split: if_splits; blast)+

end
