(* ===== verification/Export.thy ===== *)
theory Export
  imports Keeper
begin

text \<open>
  \<open>demo/app/export.go\<close>: the export of the chain's state, and its preparation for a fresh start at
  height zero.  The keepers of the SDK are an argument, a record of their methods on a state \<open>'s\<close> that
  includes the context's height; an iteration of a keeper runs over what there is when it starts.
  \<open>log.Fatal\<close> ends the process, which is a panic here.
\<close>

section \<open>Keepers\<close>

record delegation =
  DelegatorAddress :: string
  ValidatorAddress_of :: string

record unbonding_entry =
  CreationHeight :: u64
  entry_rest :: bytes

record unbonding =
  unbonding_key :: bytes
  Entries :: "unbonding_entry list"

record staking_validator =
  UnbondingHeight :: u64
  Jailed_flag :: bool
  validator_rest :: bytes

record signing_info =
  StartHeight :: u64
  info_rest :: bytes

text \<open>\<open>'d\<close> are the decimal coins of the distribution module.\<close>

record ('s, 'd) export_keepers =
  ctx_height :: "'s \<Rightarrow> u64"
  WithBlockHeight :: "u64 \<Rightarrow> 's \<Rightarrow> 's"
  AssertInvariants :: "('s, unit) call"
  ValidatorOperators :: "'s \<Rightarrow> bytes list"
  WithdrawValidatorCommission :: "bytes \<Rightarrow> ('s, unit) call"
  GetAllDelegations :: "'s \<Rightarrow> delegation list"
  WithdrawDelegationRewards :: "bytes \<Rightarrow> bytes \<Rightarrow> ('s, unit) call"
  DeleteAllValidatorSlashEvents :: "'s \<Rightarrow> 's"
  DeleteAllValidatorHistoricalRewards :: "'s \<Rightarrow> 's"
  GetValidatorOutstandingRewardsCoins :: "'s \<Rightarrow> bytes \<Rightarrow> 'd"
  GetCommunityPool :: "'s \<Rightarrow> 'd"
  SetCommunityPool :: "'d \<Rightarrow> 's \<Rightarrow> 's"
  dec_coins_add :: "'d \<Rightarrow> 'd \<Rightarrow> 'd"
  distr_AfterValidatorCreated :: "bytes \<Rightarrow> ('s, unit) call"
  distr_BeforeDelegationCreated :: "bytes \<Rightarrow> bytes \<Rightarrow> ('s, unit) call"
  distr_AfterDelegationModified :: "bytes \<Rightarrow> bytes \<Rightarrow> ('s, unit) call"
  Redelegations :: "'s \<Rightarrow> unbonding list"
  SetRedelegation :: "unbonding \<Rightarrow> 's \<Rightarrow> 's"
  UnbondingDelegations :: "'s \<Rightarrow> unbonding list"
  SetUnbondingDelegation :: "unbonding \<Rightarrow> 's \<Rightarrow> 's"
  ValidatorsByKey :: "'s \<Rightarrow> bytes list"
  staking_GetValidator :: "'s \<Rightarrow> bytes \<Rightarrow> staking_validator option"
  staking_SetValidator :: "bytes \<Rightarrow> staking_validator \<Rightarrow> 's \<Rightarrow> 's"
  CloseIterator :: "unit res"
  ApplyAndReturnValidatorSetUpdates :: "('s, unit) call"
  SigningInfos :: "'s \<Rightarrow> (bytes \<times> signing_info) list"
  SetValidatorSigningInfo :: "bytes \<Rightarrow> signing_info \<Rightarrow> 's \<Rightarrow> 's"

section \<open>Loops\<close>

text \<open>A loop over a list whose body may end the program.\<close>

primrec for_each :: "('e \<Rightarrow> ('s, unit) call) \<Rightarrow> 'e list \<Rightarrow> ('s, unit) call" where
  "for_each f [] = ret ()"
| "for_each f (x # xs) = bind (f x) (\<lambda>_. for_each f xs)"

text \<open>A loop over what a function of the current state lists, and errors that end the program.\<close>

definition for_all :: "('s \<Rightarrow> 'e list) \<Rightarrow> ('e \<Rightarrow> ('s, unit) call) \<Rightarrow> ('s, unit) call" where
  "for_all g f = (\<lambda>s. for_each f (g s) s)"

definition or_panic :: "('s, 'a) call \<Rightarrow> ('s, 'a) call" where
  "or_panic m = bind (attempt m) (\<lambda>r. case r of Ok x \<Rightarrow> ret x | Err e \<Rightarrow> panic (err_text e) | Panic p \<Rightarrow> panic p)"

section \<open>The preparation\<close>

text \<open>The addresses that stay unjailed have to parse.\<close>

primrec check_allowed :: "sdk_lib \<Rightarrow> string list \<Rightarrow> unit res" where
  "check_allowed L [] = Ok ()"
| "check_allowed L (a # as) = bindR (must (val_from_bech32 L a)) (\<lambda>_. check_allowed L as)"

definition withdraw_rewards :: "sdk_lib \<Rightarrow> ('s, 'd) export_keepers \<Rightarrow> delegation \<Rightarrow> ('s, unit) call" where
  "withdraw_rewards L app d =
     bind (reading (\<lambda>_. must (val_from_bech32 L (ValidatorAddress_of d)))) (\<lambda>valAddr.
     bind (reading (\<lambda>_. must (acc_from_bech32 L (DelegatorAddress d)))) (\<lambda>delAddr.
     or_panic (WithdrawDelegationRewards app delAddr valAddr)))"

text \<open>Commissions that cannot be withdrawn are passed over.\<close>

definition withdraw_commissions :: "('s, 'd) export_keepers \<Rightarrow> ('s, unit) call" where
  "withdraw_commissions app = for_all (ValidatorOperators app)
     (\<lambda>v. bind (attempt (WithdrawValidatorCommission app v)) (\<lambda>_. ret ()))"

definition reinit_validator :: "('s, 'd) export_keepers \<Rightarrow> bytes \<Rightarrow> ('s, unit) call" where
  "reinit_validator app v =
     bind (update_state (\<lambda>s. SetCommunityPool app
       (dec_coins_add app (GetCommunityPool app s) (GetValidatorOutstandingRewardsCoins app s v)) s)) (\<lambda>_.
     or_panic (distr_AfterValidatorCreated app v))"

definition reinit_delegation :: "sdk_lib \<Rightarrow> ('s, 'd) export_keepers \<Rightarrow> delegation \<Rightarrow> ('s, unit) call" where
  "reinit_delegation L app d =
     bind (reading (\<lambda>_. must (val_from_bech32 L (ValidatorAddress_of d)))) (\<lambda>valAddr.
     bind (reading (\<lambda>_. must (acc_from_bech32 L (DelegatorAddress d)))) (\<lambda>delAddr.
     bind (or_panic (distr_BeforeDelegationCreated app delAddr valAddr)) (\<lambda>_.
     or_panic (distr_AfterDelegationModified app delAddr valAddr))))"

text \<open>Both run at height zero; then the context has its own height again.\<close>

definition reinit_distribution :: "sdk_lib \<Rightarrow> ('s, 'd) export_keepers \<Rightarrow> delegation list \<Rightarrow> ('s, unit) call" where
  "reinit_distribution L app dels = (\<lambda>s. let height = ctx_height app s in
     bind (update_state (WithBlockHeight app 0)) (\<lambda>_.
     bind (for_all (ValidatorOperators app) (reinit_validator app)) (\<lambda>_.
     bind (for_each (reinit_delegation L app) dels) (\<lambda>_.
     update_state (WithBlockHeight app height)))) s)"

definition reset_heights :: "unbonding \<Rightarrow> unbonding" where
  "reset_heights u = u\<lparr>Entries := map (\<lambda>e. e\<lparr>CreationHeight := 0\<rparr>) (Entries u)\<rparr>"

definition reset_unbonding :: "('s, 'd) export_keepers \<Rightarrow> ('s, unit) call" where
  "reset_unbonding app =
     bind (for_all (Redelegations app) (\<lambda>red. update_state (SetRedelegation app (reset_heights red)))) (\<lambda>_.
     for_all (UnbondingDelegations app) (\<lambda>ubd. update_state (SetUnbondingDelegation app (reset_heights ubd))))"

text \<open>A validator outside the list of allowed addresses, if there is such a list, is jailed.\<close>

definition reset_validator :: "sdk_lib \<Rightarrow> ('s, 'd) export_keepers \<Rightarrow> string list \<Rightarrow> bytes \<Rightarrow> ('s, unit) call" where
  "reset_validator L app jailAllowedAddrs addr = (\<lambda>s. case staking_GetValidator app s addr of
     None \<Rightarrow> panic ''expected validator, not found'' s
   | Some v \<Rightarrow> update_state (staking_SetValidator app addr
       (v\<lparr>UnbondingHeight := 0,
          Jailed_flag := (if jailAllowedAddrs \<noteq> [] \<and> val_string L addr \<notin> set jailAllowedAddrs then True
            else Jailed_flag v)\<rparr>)) s)"

definition reset_signing_infos :: "('s, 'd) export_keepers \<Rightarrow> ('s, unit) call" where
  "reset_signing_infos app =
     for_all (SigningInfos app) (\<lambda>(addr, info). update_state (SetValidatorSigningInfo app addr (info\<lparr>StartHeight := 0\<rparr>)))"

text \<open>
  The whole preparation.  The delegations are read once the commissions are withdrawn; an iterator
  that cannot be closed ends the preparation without an error.
\<close>

definition prepForZeroHeightGenesis :: "sdk_lib \<Rightarrow> ('s, 'd) export_keepers \<Rightarrow> string list \<Rightarrow> ('s, unit) call" where
  "prepForZeroHeightGenesis L app jailAllowedAddrs =
     bind (reading (\<lambda>_. check_allowed L jailAllowedAddrs)) (\<lambda>_.
     bind (AssertInvariants app) (\<lambda>_.
     bind (withdraw_commissions app) (\<lambda>_.
     bind (reading (\<lambda>s. Ok (GetAllDelegations app s))) (\<lambda>dels.
     bind (for_each (withdraw_rewards L app) dels) (\<lambda>_.
     bind (update_state (DeleteAllValidatorSlashEvents app)) (\<lambda>_.
     bind (update_state (DeleteAllValidatorHistoricalRewards app)) (\<lambda>_.
     bind (reinit_distribution L app dels) (\<lambda>_.
     bind (reset_unbonding app) (\<lambda>_.
     bind (for_all (ValidatorsByKey app) (reset_validator L app jailAllowedAddrs)) (\<lambda>_.
     case CloseIterator app of
       Err _ \<Rightarrow> ret ()
     | Panic p \<Rightarrow> panic p
     | Ok _ \<Rightarrow>
         bind (or_panic (ApplyAndReturnValidatorSetUpdates app)) (\<lambda>_.
         reset_signing_infos app)))))))))))"

section \<open>The export\<close>

text \<open>
  The export takes the state of the last block, which \<open>NewContext\<close> gives with its height, and is for
  the height after it, or for zero.
\<close>

record ExportedApp =
  AppState :: bytes
  ex_Validators :: bytes
  ex_Height :: int
  ex_ConsensusParams :: bytes

definition ExportAppStateAndValidators :: "sdk_lib \<Rightarrow> ('s, 'd) export_keepers \<Rightarrow> int \<Rightarrow>
    ('s \<Rightarrow> string list \<Rightarrow> bytes res) \<Rightarrow> ('s \<Rightarrow> bytes res) \<Rightarrow> ('s \<Rightarrow> bytes) \<Rightarrow>
    bool \<Rightarrow> string list \<Rightarrow> string list \<Rightarrow> ('s, ExportedApp) call" where
  "ExportAppStateAndValidators L app lastHeight export_json WriteValidators GetConsensusParams
       forZeroHeight jailAllowedAddrs modulesToExport =
     bind (if forZeroHeight then prepForZeroHeightGenesis L app jailAllowedAddrs else ret ()) (\<lambda>_.
     bind (reading (\<lambda>s. export_json s modulesToExport)) (\<lambda>appState.
     bind (reading WriteValidators) (\<lambda>validators.
     reading (\<lambda>s. Ok \<lparr>AppState = appState, ex_Validators = validators,
       ex_Height = (if forZeroHeight then 0 else lastHeight + 1), ex_ConsensusParams = GetConsensusParams s\<rparr>))))"

end
