(* ===== verification/ExportProps.thy ===== *)
theory ExportProps
  imports Export Example
begin

text \<open>
  The preparation for height zero: what its loops make of the validators and of the entries that
  unbond, on any keepers whose tables return what was last set.
\<close>

section \<open>Tables\<close>

text \<open>A keeper's table: a value that was set is returned under its key, and no other has changed.\<close>

definition table_law :: "('s \<Rightarrow> 'k \<Rightarrow> 'v option) \<Rightarrow> ('k \<Rightarrow> 'v \<Rightarrow> 's \<Rightarrow> 's) \<Rightarrow> bool" where
  "table_law get set' \<longleftrightarrow> (\<forall>s a b v. get (set' a v s) b = (if b = a then Some v else get s b))"

definition restarted :: "sdk_lib \<Rightarrow> string list \<Rightarrow> bytes \<Rightarrow> staking_validator \<Rightarrow> staking_validator" where
  "restarted L allowed a v = v\<lparr>UnbondingHeight := 0,
     Jailed_flag := Jailed_flag v \<or> (allowed \<noteq> [] \<and> val_string L a \<notin> set allowed)\<rparr>"

lemma restarted_twice [simp]: "restarted L allowed a (restarted L allowed a v) = restarted L allowed a v"
  by (auto simp: restarted_def)

lemma reset_validator_run:
  "reset_validator L app allowed a s = (case staking_GetValidator app s a of
     None \<Rightarrow> (Panic ''expected validator, not found'', s)
   | Some v \<Rightarrow> (Ok (), staking_SetValidator app a (restarted L allowed a v) s))"
  by (auto simp: reset_validator_def restarted_def split: option.split intro!: arg_cong [where f = "\<lambda>v. staking_SetValidator app a v s"])

lemma for_each_reset:
  assumes law: "table_law (staking_GetValidator app) (staking_SetValidator app)"
  shows "\<forall>a \<in> set as. staking_GetValidator app s a \<noteq> None \<Longrightarrow>
    \<exists>t. for_each (reset_validator L app allowed) as s = (Ok (), t) \<and>
      (\<forall>a. staking_GetValidator app t a = (if a \<in> set as
        then map_option (restarted L allowed a) (staking_GetValidator app s a) else staking_GetValidator app s a))"
proof (induction as arbitrary: s)
  case (Cons a as)
  then obtain v where v: "staking_GetValidator app s a = Some v" by auto
  let ?s = "staking_SetValidator app a (restarted L allowed a v) s"
  have get: "staking_GetValidator app ?s b = (if b = a then Some (restarted L allowed a v) else staking_GetValidator app s b)" for b
    using law by (simp add: table_law_def)
  then have "\<forall>b \<in> set as. staking_GetValidator app ?s b \<noteq> None"
    using Cons.prems by simp
  from Cons.IH [OF this] obtain t where "for_each (reset_validator L app allowed) as ?s = (Ok (), t)"
    and "\<And>b. staking_GetValidator app t b = (if b \<in> set as
        then map_option (restarted L allowed b) (staking_GetValidator app ?s b) else staking_GetValidator app ?s b)"
    by blast
  then show ?case
    using reset_validator_run [of L app allowed a s] by (auto simp: bind_apply v get)
qed simp

text \<open>
  C40.  The loop over the validators does not panic when every key it lists belongs to a validator.
  Afterwards each of them has the unbonding height zero, is jailed if it was or if there is a list of
  allowed addresses without its own, and is otherwise as before; nobody is unjailed, and no other
  validator has changed.
\<close>
theorem zero_height_validators:
  assumes law: "table_law (staking_GetValidator app) (staking_SetValidator app)"
    and known: "\<forall>a \<in> set (ValidatorsByKey app s). staking_GetValidator app s a \<noteq> None"
  shows "\<exists>t. for_all (ValidatorsByKey app) (reset_validator L app allowed) s = (Ok (), t) \<and>
    (\<forall>a. staking_GetValidator app t a = (if a \<in> set (ValidatorsByKey app s)
      then map_option (\<lambda>v. v\<lparr>UnbondingHeight := 0,
        Jailed_flag := Jailed_flag v \<or> (allowed \<noteq> [] \<and> val_string L a \<notin> set allowed)\<rparr>) (staking_GetValidator app s a)
      else staking_GetValidator app s a))"
  using for_each_reset [OF law known, of L allowed] unfolding for_all_def restarted_def by blast

text \<open>An instance whose state is the table of validators.\<close>

definition demo_export :: "((bytes \<times> staking_validator) list, unit) export_keepers" where
  "demo_export = \<lparr>ctx_height = (\<lambda>_. 7), WithBlockHeight = (\<lambda>_ s. s), AssertInvariants = ret (),
     ValidatorOperators = map fst, WithdrawValidatorCommission = (\<lambda>_. ret ()), GetAllDelegations = (\<lambda>_. []),
     WithdrawDelegationRewards = (\<lambda>_ _. ret ()), DeleteAllValidatorSlashEvents = (\<lambda>s. s),
     DeleteAllValidatorHistoricalRewards = (\<lambda>s. s), GetValidatorOutstandingRewardsCoins = (\<lambda>_ _. ()),
     GetCommunityPool = (\<lambda>_. ()), SetCommunityPool = (\<lambda>_ s. s), dec_coins_add = (\<lambda>_ _. ()),
     distr_AfterValidatorCreated = (\<lambda>_. ret ()), distr_BeforeDelegationCreated = (\<lambda>_ _. ret ()),
     distr_AfterDelegationModified = (\<lambda>_ _. ret ()), Redelegations = (\<lambda>_. []), SetRedelegation = (\<lambda>_ s. s),
     UnbondingDelegations = (\<lambda>_. []), SetUnbondingDelegation = (\<lambda>_ s. s), ValidatorsByKey = map fst,
     staking_GetValidator = map_of, staking_SetValidator = (\<lambda>a v s. (a, v) # s), CloseIterator = Ok (),
     ApplyAndReturnValidatorSetUpdates = ret (), SigningInfos = (\<lambda>_. []), SetValidatorSigningInfo = (\<lambda>_ _ s. s)\<rparr>"

definition demo_table :: "(bytes \<times> staking_validator) list" where
  "demo_table = [(val_a, \<lparr>UnbondingHeight = 5, Jailed_flag = False, validator_rest = []\<rparr>),
     (con_a, \<lparr>UnbondingHeight = 6, Jailed_flag = False, validator_rest = []\<rparr>)]"

theorem zero_height_validators_witness:
  "\<exists>t. for_all (ValidatorsByKey demo_export) (reset_validator demo_lib demo_export [''vala'']) demo_table = (Ok (), t) \<and>
    map_of t val_a = Some \<lparr>UnbondingHeight = 0, Jailed_flag = False, validator_rest = []\<rparr> \<and>
    map_of t con_a = Some \<lparr>UnbondingHeight = 0, Jailed_flag = True, validator_rest = []\<rparr>"
proof -
  have law: "table_law (staking_GetValidator demo_export) (staking_SetValidator demo_export)"
    by (simp add: table_law_def demo_export_def)
  have known: "\<forall>a \<in> set (ValidatorsByKey demo_export demo_table). staking_GetValidator demo_export demo_table a \<noteq> None"
    by (auto simp: demo_export_def demo_table_def)
  have names: "bytes_string val_a = ''vala''" "bytes_string con_a = ''cona''" "val_a \<noteq> con_a"
    by (simp_all add: val_a_def con_a_def string_bytes_inject)
  have table: "staking_GetValidator demo_export = map_of" "ValidatorsByKey demo_export demo_table = [val_a, con_a]"
    by (simp_all add: demo_export_def demo_table_def)
  have entries: "map_of demo_table val_a = Some \<lparr>UnbondingHeight = 5, Jailed_flag = False, validator_rest = []\<rparr>"
    "map_of demo_table con_a = Some \<lparr>UnbondingHeight = 6, Jailed_flag = False, validator_rest = []\<rparr>"
    using names(3) by (simp_all add: demo_table_def)
  from zero_height_validators [OF law known, of demo_lib "[''vala'']"]
  show ?thesis
    by (auto simp: table names entries)
qed

end
