(* ===== verification/Lifecycle.thy ===== *)
theory Lifecycle
  imports App System
begin

text \<open>
  The life of the demo chain: the calls of \<open>demo/app/app.go\<close> that the consensus engine makes
  (\<open>InitChainer\<close>, \<open>BeginBlocker\<close>, \<open>EndBlocker\<close>), with the upgrade handlers of \<open>demo/app/upgrades.go\<close>.
  They hand everything to the SDK's module manager, which is an argument: what its documentation says
  of it is the law \<open>manager_laws\<close>.  The last section has the steps of the whole chain.
\<close>

section \<open>The module manager\<close>

text \<open>
  A module, as the manager sees it: its name, its genesis, and what it does before and after a block.
  One that does nothing there has a method that does nothing.  Validator updates are bytes here.
\<close>

type_synonym validator_updates = "bytes list"

record 'x app_module =
  mod_Name :: mod_name
  mod_InitGenesis :: "bytes \<Rightarrow> ('x ctx, validator_updates) call"
  mod_BeginBlock :: "('x ctx, unit) call"
  mod_EndBlock :: "('x ctx, validator_updates) call"

text \<open>The genesis of the chain, \<open>GenesisState\<close> of \<open>demo/app/genesis.go\<close>: raw JSON by module.\<close>

type_synonym app_GenesisState = "mod_name \<rightharpoonup> bytes"

text \<open>Both ends of a block answer with their events; the end with the validator updates as well.\<close>

record 'x manager =
  mm_InitGenesis :: "app_GenesisState \<Rightarrow> ('x ctx, validator_updates) call"
  mm_BeginBlock :: "('x ctx, unit \<times> event list) call"
  mm_EndBlock :: "('x ctx, validator_updates \<times> event list) call"
  mm_GetVersionMap :: "mod_name \<rightharpoonup> u64"
  mm_RunMigrations :: "(mod_name \<rightharpoonup> u64) \<Rightarrow> ('x ctx, mod_name \<rightharpoonup> u64) call"

text \<open>\<open>NewManager\<close> and the orders for the two ends of a block and for genesis and export.\<close>

type_synonym 'x NewManager =
  "'x app_module list \<Rightarrow> mod_name list \<Rightarrow> mod_name list \<Rightarrow> mod_name list \<Rightarrow> mod_name list \<Rightarrow> 'x manager"

text \<open>
  What the manager is known to do.  It calls the modules of an order one after the other and passes
  over names that it has no module for; only one of them may update the validator set.  Each end of a
  block has an event manager of its own.
\<close>

primrec in_turn :: "('x ctx, validator_updates) call list \<Rightarrow> validator_updates \<Rightarrow> ('x ctx, validator_updates) call" where
  "in_turn [] ups = ret ups"
| "in_turn (m # ms) ups = bind m (\<lambda>u.
     if u \<noteq> [] \<and> ups \<noteq> [] then panic ''validator updates already set by a previous module'' else in_turn ms (ups @ u))"

definition with_events :: "('x ctx, 'a) call \<Rightarrow> ('x ctx, 'a \<times> event list) call" where
  "with_events m = (\<lambda>c. case m (c\<lparr>emitted := []\<rparr>) of
     (Ok u, d) \<Rightarrow> (Ok (u, emitted d), d\<lparr>emitted := emitted c\<rparr>)
   | (Err e, d) \<Rightarrow> (Err e, d\<lparr>emitted := emitted c\<rparr>)
   | (Panic p, d) \<Rightarrow> (Panic p, d\<lparr>emitted := emitted c\<rparr>))"

definition named :: "'x app_module list \<Rightarrow> mod_name \<Rightarrow> 'x app_module option" where
  "named ms n = find (\<lambda>m. mod_Name m = n) ms"

definition begin_calls :: "'x app_module list \<Rightarrow> mod_name list \<Rightarrow> ('x ctx, validator_updates) call list" where
  "begin_calls ms order = List.map_filter (\<lambda>n. map_option (\<lambda>m. bind (mod_BeginBlock m) (\<lambda>_. ret [])) (named ms n)) order"

definition end_calls :: "'x app_module list \<Rightarrow> mod_name list \<Rightarrow> ('x ctx, validator_updates) call list" where
  "end_calls ms order = List.map_filter (\<lambda>n. map_option mod_EndBlock (named ms n)) order"

definition genesis_calls :: "'x app_module list \<Rightarrow> app_GenesisState \<Rightarrow> mod_name list \<Rightarrow>
    ('x ctx, validator_updates) call list" where
  "genesis_calls ms gen order = List.map_filter (\<lambda>n. case (named ms n, gen n) of
     (Some m, Some bz) \<Rightarrow> Some (mod_InitGenesis m bz) | _ \<Rightarrow> None) order"

definition manager_laws :: "'x NewManager \<Rightarrow> bool" where
  "manager_laws new_manager \<longleftrightarrow> (\<forall>ms ob oe oi ox.
     mm_BeginBlock (new_manager ms ob oe oi ox) = with_events (bind (in_turn (begin_calls ms ob) []) (\<lambda>_. ret ())) \<and>
     mm_EndBlock (new_manager ms ob oe oi ox) = with_events (in_turn (end_calls ms oe) []) \<and>
     (\<forall>gen. mm_InitGenesis (new_manager ms ob oe oi ox) gen = bind (in_turn (genesis_calls ms gen oi) []) (\<lambda>ups.
        if ups = [] then panic ''validator set is empty after InitGenesis'' else ret ups)))"

section \<open>The application\<close>

text \<open>The module as the manager gets it; it returns no validator updates.\<close>

definition mesh_app_module :: "'x AppModule \<Rightarrow> (bytes \<Rightarrow> GenesisState res) \<Rightarrow> 'x app_module" where
  "mesh_app_module am unmarshal = \<lparr>mod_Name = meshsectypes,
     mod_InitGenesis = (\<lambda>bz. bind (module_InitGenesis am unmarshal bz) (\<lambda>_. ret [])),
     mod_BeginBlock = BeginBlock am,
     mod_EndBlock = bind (EndBlock am) (\<lambda>_. ret [])\<rparr>"

text \<open>All modules, in the order of the constructor's arguments; \<open>others\<close> are those of the SDK, IBC and wasmd.\<close>

definition app_modules :: "(mod_name \<Rightarrow> 'x app_module) \<Rightarrow> 'x AppModule \<Rightarrow> (bytes \<Rightarrow> GenesisState res) \<Rightarrow>
    'x app_module list" where
  "app_modules others am unmarshal =
     map (\<lambda>n. if n = meshsectypes then mesh_app_module am unmarshal else (others n)\<lparr>mod_Name := n\<rparr>) ModuleManager"

definition app_ModuleManager :: "'x NewManager \<Rightarrow> (mod_name \<Rightarrow> 'x app_module) \<Rightarrow> 'x AppModule \<Rightarrow>
    (bytes \<Rightarrow> GenesisState res) \<Rightarrow> 'x manager" where
  "app_ModuleManager new_manager others am unmarshal = new_manager (app_modules others am unmarshal)
     OrderBeginBlockers OrderEndBlockers genesisModuleOrder genesisModuleOrder"

record 'x MeshApp =
  app_Manager :: "'x manager"
  SetModuleVersionMap :: "(mod_name \<rightharpoonup> u64) \<Rightarrow> 'x ctx \<Rightarrow> 'x ctx"

definition app_BeginBlocker :: "'x MeshApp \<Rightarrow> ('x ctx, unit \<times> event list) call" where
  "app_BeginBlocker app = mm_BeginBlock (app_Manager app)"

definition app_EndBlocker :: "'x MeshApp \<Rightarrow> ('x ctx, validator_updates \<times> event list) call" where
  "app_EndBlocker app = mm_EndBlock (app_Manager app)"

text \<open>\<open>json\<close> is the standard library's decoder at the type of the chain's genesis.\<close>

definition InitChainer :: "'x MeshApp \<Rightarrow> (bytes \<Rightarrow> app_GenesisState res) \<Rightarrow> bytes \<Rightarrow> ('x ctx, validator_updates) call" where
  "InitChainer app json AppStateBytes =
     bind (reading (\<lambda>_. must (json AppStateBytes))) (\<lambda>genesisState.
     bind (update_state (SetModuleVersionMap app (mm_GetVersionMap (app_Manager app)))) (\<lambda>_.
     mm_InitGenesis (app_Manager app) genesisState))"

section \<open>Upgrades\<close>

text \<open>
  \<open>MigrateParams\<close> is the SDK's, with the legacy subspace and the keeper it gets; the plan is not read.
\<close>

definition upgrade_handler :: "('x ctx, unit) call \<Rightarrow> 'x MeshApp \<Rightarrow> 'p \<Rightarrow> (mod_name \<rightharpoonup> u64) \<Rightarrow>
    ('x ctx, mod_name \<rightharpoonup> u64) call" where
  "upgrade_handler MigrateParams app plan fromVM =
     bind MigrateParams (\<lambda>_. mm_RunMigrations (app_Manager app) fromVM)"

text \<open>The subspaces with their key tables, the handler by the name of its plan, and the store loader.\<close>

definition RegisterUpgradeHandlers :: "'x MeshApp \<Rightarrow> subspace list \<Rightarrow> ('x ctx, unit) call \<Rightarrow> (string \<times> u64) res \<Rightarrow>
    (u64 \<Rightarrow> bool) \<Rightarrow> (subspace list \<times>
      (string \<rightharpoonup> ('p \<Rightarrow> (mod_name \<rightharpoonup> u64) \<Rightarrow> ('x ctx, mod_name \<rightharpoonup> u64) call)) \<times>
      (u64 \<times> mod_name list) option) res" where
  "RegisterUpgradeHandlers app subspaces MigrateParams upgradeInfo IsSkipHeight =
     bindR (store_upgrades upgradeInfo IsSkipHeight) (\<lambda>loader.
     Ok (map register_key_table subspaces, [UpgradeName \<mapsto> upgrade_handler MigrateParams app], loader))"

section \<open>The steps of the chain\<close>

text \<open>
  Between its blocks the chain runs transactions, which reach the module by the steps of \<open>System\<close>.  An
  end of a block that panics stops the chain, so only those that return lead on.
\<close>

inductive app_step :: "'x MeshApp \<Rightarrow> ('x ctx \<Rightarrow> 'x ctx \<Rightarrow> bool) \<Rightarrow> 'x ctx \<Rightarrow> 'x ctx \<Rightarrow> bool" for app tx where
  begins: "app_BeginBlocker app c = (Ok r, d) \<Longrightarrow> app_step app tx c d"
| transaction: "tx c d \<Longrightarrow> app_step app tx c d"
| ends: "app_EndBlocker app c = (Ok r, d) \<Longrightarrow> app_step app tx c d"

text \<open>
  What the other modules do to this one: in their geneses they may report changes of validators, in
  their blocks they do what the steps allow, and they cannot set the height.
\<close>

inductive genesis_effect :: "'x Keeper \<Rightarrow> 'x ctx \<Rightarrow> 'x ctx \<Rightarrow> bool" for k where
  genesis_bonded: "AfterValidatorBonded k cons val c = (r, d) \<Longrightarrow> genesis_effect k c d"
| genesis_unbonding: "AfterValidatorBeginUnbonding k cons val c = (r, d) \<Longrightarrow> genesis_effect k c d"
| genesis_modified: "BeforeValidatorModified k val c = (r, d) \<Longrightarrow> genesis_effect k c d"
| genesis_elsewhere: "mstore d = mstore c \<Longrightarrow> genesis_effect k c d"

definition other_modules :: "'x Keeper \<Rightarrow> ('x ctx \<Rightarrow> 'x ctx \<Rightarrow> bool) \<Rightarrow> (mod_name \<Rightarrow> 'x app_module) \<Rightarrow> bool" where
  "other_modules k tx others \<longleftrightarrow> (\<forall>n c.
     (\<forall>bz. (genesis_effect k)\<^sup>*\<^sup>* c (snd (mod_InitGenesis (others n) bz c))) \<and>
     tx\<^sup>*\<^sup>* c (snd (mod_BeginBlock (others n) c)) \<and> tx\<^sup>*\<^sup>* c (snd (mod_EndBlock (others n) c)) \<and>
     BlockHeight (snd (mod_EndBlock (others n) c)) = BlockHeight c)"

definition upgrade_laws :: "'x MeshApp \<Rightarrow> bool" where
  "upgrade_laws app \<longleftrightarrow> (\<forall>vm c. mstore (SetModuleVersionMap app vm c) = mstore c)"

end
