(* ===== verification/LifecycleProps.thy ===== *)
theory LifecycleProps
  imports Lifecycle SystemProps
begin

text \<open>
  The properties of the module in the running demo chain: the end blocker runs it after all other
  modules, and from the chain's genesis on, through all blocks and transactions, the steps of the
  chain are steps of the module, so that its invariants hold and it never stops the chain.
\<close>

section \<open>Modules in turn\<close>

lemma in_turn_append: "in_turn (xs @ ys) ups = bind (in_turn xs ups) (in_turn ys)"
  by (induction xs arbitrary: ups) (auto simp: bind_apply fun_eq_iff split: prod.split res.split)

lemma snd_bind_ret [simp]: "snd (bind m (\<lambda>_. ret x) c) = snd (m c)"
  by (simp add: bind_apply split: prod.split res.split)

lemma in_turn_steps:
  assumes "\<And>m c. m \<in> set ms \<Longrightarrow> R\<^sup>*\<^sup>* c (snd (m c))"
  shows "R\<^sup>*\<^sup>* c (snd (in_turn ms ups c))"
  using assms
proof (induction ms arbitrary: c ups)
  case (Cons m ms)
  have m: "R\<^sup>*\<^sup>* c (snd (m c))" and ms: "R\<^sup>*\<^sup>* d (snd (in_turn ms u d))" for d u
    using Cons by simp_all
  show ?case
    using m by (auto simp: bind_apply split: prod.split res.split intro: rtranclp_trans [OF _ ms])
qed simp

lemma in_turn_keeps: "(\<And>m. m \<in> set ms \<Longrightarrow> keeps f m) \<Longrightarrow> keeps f (in_turn ms ups)"
  by (induction ms arbitrary: ups) (auto intro!: keeps_bind)

lemma named_modules:
  "named (app_modules others am unmarshal) n = (if n \<notin> set ModuleManager then None
     else Some (if n = meshsectypes then mesh_app_module am unmarshal else (others n)\<lparr>mod_Name := n\<rparr>))"
proof -
  have "find (\<lambda>m. mod_Name m = n) (map f ns) = (if n \<in> set ns then Some (f n) else None)"
    if "\<And>n. mod_Name (f n) = n" for f :: "mod_name \<Rightarrow> 'a app_module" and ns
    using that by (induction ns) auto
  then show ?thesis
    by (simp add: named_def app_modules_def mesh_app_module_def)
qed

lemma end_calls_app:
  "end_calls (app_modules others am unmarshal) OrderEndBlockers =
     map (\<lambda>n. mod_EndBlock (others n)) (butlast OrderEndBlockers) @ [bind (EndBlock am) (\<lambda>_. ret [])]"
  by (simp add: end_calls_def OrderEndBlockers_def named_modules ModuleManager_def List.map_filter_simps)
    (simp add: mesh_app_module_def)

lemma begin_calls_app:
  "begin_calls (app_modules others am unmarshal) OrderBeginBlockers =
     map (\<lambda>n. bind (mod_BeginBlock (others n)) (\<lambda>_. ret [])) (butlast OrderBeginBlockers) @ [bind (BeginBlock am) (\<lambda>_. ret [])]"
  by (simp add: begin_calls_def OrderBeginBlockers_def named_modules ModuleManager_def List.map_filter_simps)
    (simp add: mesh_app_module_def)

lemma genesis_calls_app:
  assumes "gen meshsectypes = Some raw"
  obtains ms where "genesis_calls (app_modules others am unmarshal) gen genesisModuleOrder =
      ms @ [bind (module_InitGenesis am unmarshal raw) (\<lambda>_. ret [])]"
    and "\<forall>m \<in> set ms. \<exists>n bz. m = mod_InitGenesis (others n) bz"
proof
  let ?f = "\<lambda>n. case (named (app_modules others am unmarshal) n, gen n) of
    (Some m, Some bz) \<Rightarrow> Some (mod_InitGenesis m bz) | _ \<Rightarrow> None"
  let ?ms = "List.map_filter ?f (butlast genesisModuleOrder)"
  have order: "genesisModuleOrder = butlast genesisModuleOrder @ [meshsectypes]"
    by (simp add: genesisModuleOrder_def)
  have "?f meshsectypes = Some (bind (module_InitGenesis am unmarshal raw) (\<lambda>_. ret []))"
    using assms by (simp add: named_modules ModuleManager_def) (simp add: mesh_app_module_def)
  then show "genesis_calls (app_modules others am unmarshal) gen genesisModuleOrder =
      ?ms @ [bind (module_InitGenesis am unmarshal raw) (\<lambda>_. ret [])]"
    unfolding genesis_calls_def by (subst order) (simp add: List.map_filter_def)
  show "\<forall>m \<in> set ?ms. \<exists>n bz. m = mod_InitGenesis (others n) bz"
  proof
    fix m
    assume m: "m \<in> set ?ms"
    have "meshsectypes \<notin> set (butlast genesisModuleOrder)"
      by (simp add: genesisModuleOrder_def)
    with m show "\<exists>n bz. m = mod_InitGenesis (others n) bz"
      by (auto simp: List.map_filter_def named_modules split: option.splits if_splits) blast+
  qed
qed

section \<open>The genesis of the chain\<close>

text \<open>While nothing is stored a change of a validator is piped and nobody is told.\<close>

lemma sendAsync_unstored: "mstore c = kv_empty \<Longrightarrow> mstore (snd (sendAsync k op v info c)) = kv_empty"
  by (simp add: sendAsync_def bind_apply IterateMaxCapLimit_def split: res.split)

lemma genesis_effects:
  assumes "(genesis_effect k)\<^sup>*\<^sup>* c d" and "mstore c = kv_empty"
  shows "mstore d = kv_empty"
  using assms
proof (rule rtrancl_invariant [where P = "\<lambda>s. mstore s = kv_empty"])
  fix x y
  assume "genesis_effect k x y" and x: "mstore x = kv_empty"
  then show "mstore y = kv_empty"
    by cases (use sendAsync_unstored [OF x, of k] in \<open>simp_all add: AfterValidatorBonded_def ScheduleBonded_def
        AfterValidatorBeginUnbonding_def ScheduleUnbonded_def BeforeValidatorModified_def ScheduleModified_def,
      (metis snd_conv)+\<close>)
qed

lemma init_chain_genesis:
  assumes mods: "manager_laws new_manager" "other_modules k tx others" "upgrade_laws app"
    and app: "app_Manager app = app_ModuleManager new_manager others am unmarshal" "am_k am = k"
    and start: "mstore b = kv_empty" and decode: "json bz = Ok gen" "gen meshsectypes = Some raw" "unmarshal raw = Ok gs"
    and valid: "ValidateGenesis (lib k) gs = Ok ()" "Params_good (lib k) (gs_Params gs)"
    and init: "InitChainer app json bz b = (Ok ups, c)" and denom: "ValidateDenom (lib k) (bond_denom k c)"
  shows "genesis k gs c"
proof -
  let ?b = "SetModuleVersionMap app (mm_GetVersionMap (app_Manager app)) b"
  obtain ms where calls: "genesis_calls (app_modules others am unmarshal) gen genesisModuleOrder =
      ms @ [bind (module_InitGenesis am unmarshal raw) (\<lambda>_. ret [])]"
    and ms: "\<forall>m \<in> set ms. \<exists>n bz. m = mod_InitGenesis (others n) bz"
    using decode(2) by (rule genesis_calls_app)
  have "in_turn (ms @ [bind (module_InitGenesis am unmarshal raw) (\<lambda>_. ret [])]) [] ?b = (Ok ups, c)"
    using init mods(1) by (auto simp: InitChainer_def decode app app_ModuleManager_def manager_laws_def bind_eq_Ok
        calls [symmetric] split: if_splits)
  then obtain u d where d: "in_turn ms [] ?b = (Ok u, d)" "InitGenesis k gs d = (Ok (), c)"
    by (auto simp: in_turn_append bind_eq_Ok module_InitGenesis_def decode app split: if_splits)
  have "(genesis_effect k)\<^sup>*\<^sup>* ?b (snd (in_turn ms [] ?b))"
    by (rule in_turn_steps) (use ms mods(2) in \<open>force simp: other_modules_def\<close>)
  moreover have "mstore ?b = kv_empty"
    using mods(3) start by (simp add: upgrade_laws_def)
  ultimately have "mstore d = kv_empty"
    using d(1) by (auto dest: genesis_effects)
  moreover have "c = d\<lparr>mstore := mstore c\<rparr>"
    using d(2) SetParams_Ok [OF valid(2), of d] by (auto simp: InitGenesis_def)
  then have "bond_denom k d = bond_denom k c"
    by (simp add: bond_denom_def) (metis ctx.ext_inject ctx.surjective ctx.update_convs(1))
  ultimately show ?thesis
    using valid denom d(2) by (auto simp: genesis_def)
qed

section \<open>Blocks\<close>

lemma with_events_steps:
  assumes m: "\<And>c. R\<^sup>*\<^sup>* c (snd (m c))" and P: "\<And>c d. R c d \<Longrightarrow> P c \<Longrightarrow> P d"
    and events: "\<And>c e. P c \<Longrightarrow> R c (c\<lparr>emitted := e\<rparr>)" and c: "P c"
  shows "R\<^sup>*\<^sup>* c (snd (with_events m c))"
proof -
  let ?c = "c\<lparr>emitted := []\<rparr>" and ?d = "snd (m (c\<lparr>emitted := []\<rparr>))"
  have "R c ?c"
    by (rule events [OF c])
  then have run: "R\<^sup>*\<^sup>* c ?d"
    using m by (rule converse_rtranclp_into_rtranclp)
  then have "P ?d"
    using c by (rule rtrancl_invariant) (rule P)
  from rtranclp.rtrancl_into_rtrancl [OF run events [OF this]]
  show ?thesis
    by (auto simp: with_events_def split: prod.split res.split)
qed

text \<open>Whatever a block or a transaction does, it does it by steps of the module.\<close>

lemma app_step_steps:
  assumes laws: "int_laws (lib k)" "coin_laws (lib k)" "layout_laws (lib k)" "validate_laws (lib k)"
    and hooks: "only_hooks k sk ek" "only_messages k json" and am: "am_k am = k"
    and handler: "\<And>r. keeps (\<lambda>c. c) (asyncTaskRspHandler am r)"
    and mods: "manager_laws new_manager" "other_modules k (mesh_step am sk st ek json) others"
    and app: "app_Manager app = app_ModuleManager new_manager others am unmarshal"
    and step: "app_step app (mesh_step am sk st ek json) c d" and c: "books k p {} c"
  shows "(mesh_step am sk st ek json)\<^sup>*\<^sup>* c d"
proof -
  let ?R = "mesh_step am sk st ek json"
  have moves: "?R\<^sup>*\<^sup>* c (snd (with_events (in_turn ms []) c))" "?R\<^sup>*\<^sup>* c (snd (with_events (bind (in_turn ms []) (\<lambda>_. ret ())) c))"
    if ms: "\<And>m c. m \<in> set ms \<Longrightarrow> ?R\<^sup>*\<^sup>* c (snd (m c))" for ms
  proof -
    have events: "?R c (c\<lparr>emitted := e\<rparr>)" if "books k p {} c" for c e
      using that by (intro mesh_step.header)
        (simp_all add: am books_def ledger_ok_def bond_denom_def)
    note around = with_events_steps [where P = "books k p {}" and R = ?R and c = c, OF _ mesh_step_books [OF laws hooks am handler] events c]
    have turn: "?R\<^sup>*\<^sup>* c (snd (in_turn ms [] c))" for c
      by (rule in_turn_steps) (rule ms)
    show "?R\<^sup>*\<^sup>* c (snd (with_events (in_turn ms []) c))"
      by (rule around) (rule turn)
    show "?R\<^sup>*\<^sup>* c (snd (with_events (bind (in_turn ms []) (\<lambda>_. ret ())) c))"
      by (rule around) (simp add: turn)
  qed
  have "?R c (snd (EndBlock am c))" for c
    by (rule mesh_step.end_block) (rule surjective_pairing)
  then have own: "?R\<^sup>*\<^sup>* c (snd (bind (EndBlock am) (\<lambda>_. ret []) c))" "?R\<^sup>*\<^sup>* c (snd (bind (BeginBlock am) (\<lambda>_. ret []) c))" for c
    unfolding snd_bind_ret by (auto simp only: BeginBlock_def ret_apply snd_conv intro: r_into_rtranclp)
  have rest: "?R\<^sup>*\<^sup>* c (snd (mod_EndBlock (others n) c))" "?R\<^sup>*\<^sup>* c (snd (bind (mod_BeginBlock (others n)) (\<lambda>_. ret []) c))" for n c
    using mods(2) by (simp_all add: other_modules_def)
  show ?thesis
    using step
  proof cases
    case (begins r)
    have "?R\<^sup>*\<^sup>* c (snd (app_BeginBlocker app c))"
      using mods(1) by (auto simp: app_BeginBlocker_def app app_ModuleManager_def manager_laws_def begin_calls_app
          intro!: moves own rest)
    with begins show ?thesis by simp
  next
    case (ends r)
    have "?R\<^sup>*\<^sup>* c (snd (app_EndBlocker app c))"
      using mods(1) by (auto simp: app_EndBlocker_def app app_ModuleManager_def manager_laws_def end_calls_app
          intro!: moves own rest)
    with ends show ?thesis by simp
  qed (rule r_into_rtranclp)
qed

lemma app_run_steps:
  assumes laws: "int_laws (lib k)" "coin_laws (lib k)" "layout_laws (lib k)" "validate_laws (lib k)"
    and hooks: "only_hooks k sk ek" "only_messages k json" and am: "am_k am = k"
    and handler: "\<And>r. keeps (\<lambda>c. c) (asyncTaskRspHandler am r)"
    and mods: "manager_laws new_manager" "other_modules k (mesh_step am sk st ek json) others"
    and app: "app_Manager app = app_ModuleManager new_manager others am unmarshal"
    and run: "(app_step app (mesh_step am sk st ek json))\<^sup>*\<^sup>* c d" and c: "books k p {} c"
  shows "(mesh_step am sk st ek json)\<^sup>*\<^sup>* c d \<and> books k p {} d"
  using run
proof (rule rtrancl_invariant)
  fix x y
  assume step: "app_step app (mesh_step am sk st ek json) x y"
    and x: "(mesh_step am sk st ek json)\<^sup>*\<^sup>* c x \<and> books k p {} x"
  have xy: "(mesh_step am sk st ek json)\<^sup>*\<^sup>* x y"
    using app_step_steps [OF laws hooks am handler mods app step] x by blast
  then have "books k p {} y"
    by (rule rtrancl_invariant) (use x mesh_step_books [OF laws hooks am handler] in blast)+
  with x xy show "(mesh_step am sk st ek json)\<^sup>*\<^sup>* c y \<and> books k p {} y"
    by (blast intro: rtranclp_trans)
qed (use c in simp)

section \<open>Properties\<close>

text \<open>
  The end of a block in the demo chain: first all other modules in their order, each on the state
  that the one before left, and then, if none of them failed, the module on what all of them left;
  the validator updates are those of the others, and the events those of the block alone.
\<close>
lemma end_blocker_order:
  assumes laws: "manager_laws new_manager"
    and app: "app_Manager app = app_ModuleManager new_manager others am unmarshal"
  shows "app_EndBlocker app = with_events
    (bind (in_turn (map (\<lambda>n. mod_EndBlock (others n)) (butlast OrderEndBlockers)) []) (\<lambda>ups.
     bind (EndBlock am) (\<lambda>_. ret ups)))"
proof -
  have "in_turn (ms @ [bind (EndBlock am) (\<lambda>_. ret [])]) [] =
      bind (in_turn ms []) (\<lambda>ups. bind (EndBlock am) (\<lambda>_. ret ups))" for ms
    by (auto simp: in_turn_append bind_apply fun_eq_iff split: prod.split res.split)
  then show ?thesis
    using laws by (simp add: app_EndBlocker_def app app_ModuleManager_def manager_laws_def end_calls_app)
qed

text \<open>
  C6.  The demo chain, from its genesis through all its blocks and transactions: the module's invariants
  hold, the parameters are those of the genesis, and the module never stops the chain: the end of a
  block succeeds whenever it does for the other modules, whatever the contracts do in their callbacks.
  If these leave the changes of validators alone, all of them are then done with, those of that end of
  a block included.
\<close>
theorem chain_from_genesis:
  assumes laws: "int_laws (lib k)" "coin_laws (lib k)" "layout_laws (lib k)" "validate_laws (lib k)"
    and hooks: "only_hooks k sk ek" "only_messages k json"
    and mods: "manager_laws new_manager" "other_modules k (mesh_step (NewAppModule k) sk st ek json) others" "upgrade_laws app"
    and app: "app_Manager app = app_ModuleManager new_manager others (NewAppModule k) unmarshal"
    and start: "mstore b = kv_empty" "decode bz = Ok gen" "gen meshsectypes = Some raw" "unmarshal raw = Ok gs"
    and valid: "ValidateGenesis (lib k) gs = Ok ()" "Params_good (lib k) (gs_Params gs)"
    and init: "InitChainer app decode bz b = (Ok ups, c0)" "ValidateDenom (lib k) (bond_denom k c0)"
    and run: "(app_step app (mesh_step (NewAppModule k) sk st ek json))\<^sup>*\<^sup>* c0 c"
    and epoch: "BlockHeight c \<le> BlockHeight c + ucast (EpochLength (gs_Params gs))"
  shows "total_caps k c \<le> total_max (gs_Params gs) \<and> ExportGenesis k c = Ok gs \<and> ledger_ok k c \<and>
    (\<forall>u d. in_turn (map (\<lambda>n. mod_EndBlock (others n)) (butlast OrderEndBlockers)) [] (c\<lparr>emitted := []\<rparr>) = (Ok u, d) \<longrightarrow>
      (\<exists>evs e. app_EndBlocker app c = (Ok (u, evs), e) \<and> books k (gs_Params gs) {} e \<and>
        (sudo_laws k \<longrightarrow> kv_prefix (mmem e) PipedValsetPrefix = [])))"
proof (intro conjI allI impI)
  let ?R = "mesh_step (NewAppModule k) sk st ek json"
  let ?turn = "in_turn (map (\<lambda>n. mod_EndBlock (others n)) (butlast OrderEndBlockers)) []"
  have handler: "\<And>r. keeps (\<lambda>c. c) (asyncTaskRspHandler (NewAppModule k) r)"
    by (simp add: default_handler_reads)
  have gen: "genesis k gs c0"
    by (rule init_chain_genesis [OF mods app demo_module(1) start valid init])
  have c: "?R\<^sup>*\<^sup>* c0 c" "books k (gs_Params gs) {} c"
    using app_run_steps [OF laws hooks demo_module(1) handler mods(1,2) app run genesis_books [OF laws(4) gen]] by simp_all
  from booksD [OF c(2)] show "total_caps k c \<le> total_max (gs_Params gs)" "ExportGenesis k c = Ok gs" "ledger_ok k c"
    by (simp_all add: ExportGenesis_def NewGenesisState_def)
  fix u d
  assume turn: "?turn (c\<lparr>emitted := []\<rparr>) = (Ok u, d)"
  have height: "BlockHeight d = BlockHeight c"
    using keepsD [OF in_turn_keeps [of _ BlockHeight] turn] mods(2) by (auto simp: other_modules_def keeps_def)
  have "?R\<^sup>*\<^sup>* (c\<lparr>emitted := []\<rparr>) (snd (?turn (c\<lparr>emitted := []\<rparr>)))"
    by (rule in_turn_steps) (use mods(2) in \<open>auto simp: other_modules_def\<close>)
  then have "?R\<^sup>*\<^sup>* (c\<lparr>emitted := []\<rparr>) d"
    by (simp add: turn)
  then have d: "books k (gs_Params gs) {} d"
  proof (rule rtrancl_invariant)
    show "books k (gs_Params gs) {} (c\<lparr>emitted := []\<rparr>)"
      by (rule books.same [OF _ _ c(2)]) simp_all
  qed (rule mesh_step_books [OF laws hooks demo_module(1) handler])
  have wraps: "BlockHeight d \<le> BlockHeight d + ucast (EpochLength (gs_Params gs))"
    using epoch by (simp add: height)
  obtain e where e: "EndBlock (NewAppModule k) d = (Ok (), e)" "books k (gs_Params gs) {} e"
    by (rule books_EndBlock [OF laws(1-3) hooks d wraps])
  let ?e = "e\<lparr>emitted := emitted c\<rparr>"
  have "app_EndBlocker app c = (Ok (u, emitted e), ?e)"
    by (simp add: end_blocker_order [OF mods(1) app] with_events_def bind_apply turn e)
  moreover have "books k (gs_Params gs) {} ?e"
    by (rule books.same [OF _ _ e(2)]) simp_all
  moreover have "sudo_laws k \<Longrightarrow> kv_prefix (mmem ?e) PipedValsetPrefix = []"
    using cleared [OF laws(3) _ d wraps e(1)] by simp
  ultimately show "\<exists>evs e. app_EndBlocker app c = (Ok (u, evs), e) \<and> books k (gs_Params gs) {} e \<and>
      (sudo_laws k \<longrightarrow> kv_prefix (mmem e) PipedValsetPrefix = [])"
    by blast
qed

section \<open>An instance\<close>

text \<open>
  A manager that does what the documentation says.  Of the other modules only staking does something:
  its genesis has a validator, and each of its blocks bonds one.
\<close>

definition demo_manager :: "'x NewManager" where
  "demo_manager ms ob oe oi ox = \<lparr>
     mm_InitGenesis = (\<lambda>gen. bind (in_turn (genesis_calls ms gen oi) []) (\<lambda>ups.
       if ups = [] then panic ''validator set is empty after InitGenesis'' else ret ups)),
     mm_BeginBlock = with_events (bind (in_turn (begin_calls ms ob) []) (\<lambda>_. ret ())),
     mm_EndBlock = with_events (in_turn (end_calls ms oe) []),
     mm_GetVersionMap = Map.empty,
     mm_RunMigrations = ret\<rparr>"

lemma demo_manager_laws [simp]: "manager_laws demo_manager"
  by (simp add: manager_laws_def demo_manager_def)

definition demo_others :: "mod_name \<Rightarrow> demo_chain app_module" where
  "demo_others n = \<lparr>mod_Name = n,
     mod_InitGenesis = (\<lambda>_. ret (if n = stakingtypes then [val_a] else [])),
     mod_BeginBlock = ret (),
     mod_EndBlock = (if n = stakingtypes then bind (AfterValidatorBonded demo_keeper [] val_a) (\<lambda>_. ret []) else ret [])\<rparr>"

lemma keeps_branch:
  "(\<And>x. keeps f (m x)) \<Longrightarrow> (\<And>x. keeps f (n x)) \<Longrightarrow> keeps f (\<lambda>s. if P s then m s s else n s s)"
  by (simp add: keeps_def)

lemma keeps_height_one_shot: "keeps BlockHeight (ScheduleOneShotTask k tp a h)"
  unfolding ScheduleOneShotTask_def
  by (rule keeps_branch [OF keeps_fail]) (intro keeps_bind keeps_reading,
    simp add: keeps_ret keeps_bind keeps_update_state EmitSchedulerRegisteredEvent_def)

lemma keeps_height_notify: "keeps BlockHeight (notify k a m e)"
  unfolding notify_def
  by (rule keeps_branch [OF _ keeps_ret]) (intro keeps_bind keeps_attempt keeps_height_one_shot,
    simp add: keeps_ret split: option.split)

lemma keeps_height_sendAsync: "keeps BlockHeight (sendAsync k op val info)"
proof -
  have "keeps BlockHeight (decode_cap k (notify k) e a)" for e a
    unfolding decode_cap_def by (intro keeps_bind keeps_reading keeps_height_notify)
  then have "keeps BlockHeight (iterate (decode_cap k (notify k)) es None)" for es
    by (rule keeps_iterate)
  then have "keeps BlockHeight (IterateMaxCapLimit k (notify k) None)"
    by (simp add: keeps_def IterateMaxCapLimit_def)
  then show ?thesis
    by (auto simp: sendAsync_def intro!: keeps_bind keeps_update_state split: option.split)
qed

lemma demo_other_modules_by:
  assumes "\<And>c d. hook_step demo_keeper c d \<Longrightarrow> R c d"
  shows "other_modules demo_keeper R demo_others"
proof -
  have "R c (snd (AfterValidatorBonded demo_keeper [] val_a c))" for c
    by (rule assms, rule hook_step.bonded) (rule surjective_pairing)
  moreover have "keeps BlockHeight (AfterValidatorBonded demo_keeper [] val_a)"
    by (simp add: AfterValidatorBonded_def ScheduleBonded_def keeps_height_sendAsync)
  ultimately show ?thesis
    by (auto simp: other_modules_def demo_others_def keeps_def)
qed

lemma demo_other_modules [simp]:
  "other_modules demo_keeper (mesh_step (NewAppModule demo_keeper) sk st ek json) demo_others"
  by (rule demo_other_modules_by) (simp add: mesh_step.block block_step.contract contract_step.hook)

definition demo_app :: "demo_chain MeshApp" where
  "demo_app = \<lparr>app_Manager = app_ModuleManager demo_manager demo_others (NewAppModule demo_keeper)
       (\<lambda>_. Ok \<lparr>gs_Params = demo_params\<rparr>),
     SetModuleVersionMap = (\<lambda>_ c. c)\<rparr>"

definition demo_decode :: "bytes \<Rightarrow> app_GenesisState res" where
  "demo_decode bz = Ok [stakingtypes \<mapsto> [], meshsectypes \<mapsto> []]"

lemma demo_upgrade_laws: "upgrade_laws demo_app"
  by (simp add: upgrade_laws_def demo_app_def)

lemma demo_genesis_valid: "ValidateGenesis demo_lib \<lparr>gs_Params = demo_params\<rparr> = Ok ()"
  using demo_genesis by (simp add: genesis_def)

lemma demo_initialised: "InitChainer demo_app demo_decode [] demo_blank = (Ok [val_a], demo_start)"
proof -
  have "InitGenesis demo_keeper \<lparr>gs_Params = demo_params\<rparr> demo_blank = (Ok (), demo_start)"
    using SetParams_Ok [of demo_keeper demo_params demo_blank]
    by (simp add: InitGenesis_def demo_start_def) (simp add: demo_blank_def)
  then show ?thesis
    by (simp add: InitChainer_def demo_app_def app_ModuleManager_def demo_manager_def genesis_calls_def genesisModuleOrder_def
        List.map_filter_simps named_modules ModuleManager_def demo_decode_def demo_others_def bind_apply mesh_app_module_def
        module_InitGenesis_def)
qed

text \<open>The first block: the staking module bonds a validator at its end, and the module is done with it.\<close>

lemma demo_turn:
  obtains d where "in_turn (map (\<lambda>n. mod_EndBlock (demo_others n)) (butlast OrderEndBlockers)) [] demo_start = (Ok [], d)"
proof -
  obtain key where "BuildPipedValsetOpKey demo_lib ValidatorBonded val_a None = Ok key"
    using BuildPipedValsetOpKey_Ok [of demo_lib ValidatorBonded val_a None] by auto
  then obtain d where "AfterValidatorBonded demo_keeper [] val_a demo_start = (Ok (), d)"
    using sendAsync_run [of demo_keeper demo_start ValidatorBonded val_a None key]
    by (auto simp: AfterValidatorBonded_def ScheduleBonded_def)
  then show ?thesis
    by (intro that [of d]) (simp add: OrderEndBlockers_def demo_others_def bind_apply)
qed

theorem chain_from_genesis_witness:
  "\<exists>evs e. InitChainer demo_app demo_decode [] demo_blank = (Ok [val_a], demo_start) \<and>
    ExportGenesis demo_keeper demo_start = Ok \<lparr>gs_Params = demo_params\<rparr> \<and>
    app_EndBlocker demo_app demo_start = (Ok ([], evs), e) \<and> kv_prefix (mmem e) PipedValsetPrefix = []"
proof (rule demo_turn)
  fix d
  assume turn: "in_turn (map (\<lambda>n. mod_EndBlock (demo_others n)) (butlast OrderEndBlockers)) [] demo_start = (Ok [], d)"
  have run: "(app_step demo_app (mesh_step (NewAppModule demo_keeper) demo_slashing demo_staking demo_evidence demo_bond))\<^sup>*\<^sup>*
      demo_start demo_start" ..
  have start: "demo_start\<lparr>emitted := []\<rparr> = demo_start"
    by (simp add: demo_start_def demo_blank_def)
  have app: "app_Manager demo_app = app_ModuleManager demo_manager demo_others (NewAppModule demo_keeper) (\<lambda>_. Ok \<lparr>gs_Params = demo_params\<rparr>)"
    by (simp add: demo_app_def)
  have epoch: "EpochLength demo_params = 50"
    by (simp add: demo_params_def)
  note main = chain_from_genesis [where gs = "\<lparr>gs_Params = demo_params\<rparr>" and gen = "[stakingtypes \<mapsto> [], meshsectypes \<mapsto> []]"
      and raw = "[]", OF _ _ _ _ _ _ demo_manager_laws demo_other_modules demo_upgrade_laws app _ _ _ _ _ _ demo_initialised _ run]
  have "ExportGenesis demo_keeper demo_start = Ok \<lparr>gs_Params = demo_params\<rparr> \<and>
      (\<forall>u d. in_turn (map (\<lambda>n. mod_EndBlock (demo_others n)) (butlast OrderEndBlockers)) [] demo_start = (Ok u, d) \<longrightarrow>
        (\<exists>evs e. app_EndBlocker demo_app demo_start = (Ok (u, evs), e) \<and> kv_prefix (mmem e) PipedValsetPrefix = []))"
    using main by (auto simp add: demo_decode_def demo_genesis_valid demo_blank_def start epoch)
  then show ?thesis
    using turn demo_initialised by blast
qed

end
