(* ===== verification/Timing.thy ===== *)
theory Timing
  imports LifecycleProps
begin

text \<open>
  When tasks run.  A report of validator changes is due in the block of the change, an epoch callback
  at its height; the lemmas follow what is still to be done through a block and its end blocker, with
  contracts whose callbacks may themselves send messages, and through the demo chain, where the module
  comes last in a block.  Only a report that a callback of the end blocker asks for can wait, and only
  for the next block.
\<close>

section \<open>What has to be gone at the end of a block\<close>

definition overdue :: "u64 \<Rightarrow> SchedulerTaskType \<Rightarrow> u64 \<Rightarrow> bool" where
  "overdue H tp h \<longleftrightarrow> tp = SchedulerTaskValsetUpdate \<and> h < H \<or> tp = SchedulerTaskHandleEpoch \<and> h \<le> H"

text \<open>The books in a block, with the tasks that are still to be executed in it.\<close>

definition timed :: "'x Keeper \<Rightarrow> Params \<Rightarrow> u64 \<Rightarrow> (SchedulerTaskType \<times> u64 \<times> bytes) set \<Rightarrow> 'x ctx \<Rightarrow> bool" where
  "timed k p H W c \<longleftrightarrow> books k p {} c \<and> BlockHeight c = H \<and>
     (\<forall>tp x. task_at (mstore c) tp x \<noteq> None \<longrightarrow> overdue H tp (fst x) \<longrightarrow> (tp, x) \<in> W)"

lemma timedD:
  assumes "timed k p H W c"
  shows "books k p {} c" and "BlockHeight c = H"
    and "task_at (mstore c) tp x \<noteq> None \<Longrightarrow> overdue H tp (fst x) \<Longrightarrow> (tp, x) \<in> W"
  using assms unfolding timed_def by blast+

lemma timedI:
  assumes "books k p {} c" and "BlockHeight c = H"
    and "\<And>tp x. task_at (mstore c) tp x \<noteq> None \<Longrightarrow> overdue H tp (fst x) \<Longrightarrow> (tp, x) \<in> W"
  shows "timed k p H W c"
  using assms unfolding timed_def by blast

lemma timed_mono: "timed k p H W c \<Longrightarrow> W \<subseteq> W' \<Longrightarrow> timed k p H W' c"
  unfolding timed_def by blast

lemma timed_tasks:
  assumes "timed k p H W c" and "books k p {} d" and "BlockHeight d = H"
    and "\<And>tp x. task_at (mstore d) tp x \<noteq> None \<Longrightarrow> task_at (mstore c) tp x \<noteq> None \<or> \<not> overdue H tp (fst x) \<or> (tp, x) \<in> W"
  shows "timed k p H W d"
  using assms timedD(3) [OF assms(1)] by (intro timedI) blast+

text \<open>At the beginning of a block: what is due in it, and reports that wait since the last one.\<close>

definition waiting :: "u64 \<Rightarrow> (SchedulerTaskType \<times> u64 \<times> bytes) set" where
  "waiting H = {(tp, h, a). tp = SchedulerTaskValsetUpdate \<and> H = h + 1 \<or> tp = SchedulerTaskHandleEpoch \<and> h = H}"

interpretation timed: module_invariant "timed k p H W" k
proof unfold_locales
  fix c e d :: "'a ctx" and tp x r
  assume c: "timed k p H W c" and chain: "chain d = chain c"
  note b = timedD(1) [OF c]
  assume e: "timed k p H W e" and height: "BlockHeight d = BlockHeight e"
  note h = height [unfolded timedD(2) [OF e]]
  show "timed k p H W d" if "mstore d = mstore c"
    by (rule timed_tasks [OF c books.same [OF that chain b] h]) (simp add: that)
  show "timed k p H W d" if "mstore d = del_task (mstore c) tp x"
    by (rule timed_tasks [OF c books.del [OF b that chain] h]) (simp add: that queue.at_del split: if_splits)
  assume due: "tp = SchedulerTaskValsetUpdate \<and> fst x = BlockHeight e \<or> BlockHeight e < fst x"
  show "timed k p H W d" if "mstore d = put_task (mstore c) tp x r"
    by (rule timed_tasks [OF c books.put [OF b that chain] h])
      (use due timedD(2) [OF e] in \<open>auto simp: that queue.at_put overdue_def split: if_splits\<close>)
next
  fix c d :: "'a ctx"
  assume c: "timed k p H W c" and d: "mstore d = mstore c" "mmem d = mmem c" "ValidateDenom (lib k) (bond_denom k d)"
    and "BlockHeight d = BlockHeight c"
  then show "timed k p H W d"
    by (intro timed_tasks [OF c books.outside [OF timedD(1) [OF c] d]]) (simp_all add: d timedD(2) [OF c])
qed

interpretation in_block: block_invariant "timed k p H (waiting H)" k
proof unfold_locales
  fix c e d :: "'a ctx" and x r
  assume c: "timed k p H (waiting H) c" and e: "timed k p H (waiting H) e" and due: "BlockHeight e \<le> fst x"
    and d: "mstore d = put_task (mstore c) SchedulerTaskHandleEpoch x r" "chain d = chain c" "BlockHeight d = BlockHeight e"
  have "SchedulerTaskHandleEpoch \<noteq> SchedulerTaskValsetUpdate"
    by (simp add: SchedulerTaskHandleEpoch_def SchedulerTaskValsetUpdate_def)
  then show "timed k p H (waiting H) d"
    using due by (intro timed_tasks [OF c books.put [OF timedD(1) [OF c] d(1,2)]])
      (auto simp: d timedD(2) [OF e] queue.at_put overdue_def waiting_def prod_eq_iff split: if_splits)
qed

section \<open>Messages and limits\<close>

lemma timed_write:
  assumes "timed k p H W c" and "books k p {} d" and "BlockHeight d = H"
    and "mstore d = mstore c \<or> mstore d = kv_set (mstore c) key bz" and "\<And>tp x. task_key tp x \<noteq> key"
  shows "timed k p H W d"
  using assms by (intro timed_tasks [OF assms(1-3)]) (auto simp: task_at_def)

lemma timed_messages:
  assumes laws: "int_laws (lib k)" "coin_laws (lib k)" "layout_laws (lib k)" and hooks: "only_hooks k sk ek"
  shows "stable (timed k p H W) (DispatchMsg (lib k) json (NewDefaultCustomMsgHandler k) contract msg)"
proof (rule stable_messages [OF laws(1,2) books.keepers_P [OF laws(3) hooks] timed.keepers_P [OF laws(3) hooks]
      timedD(1) timed.branch(1)])
  fix c d s :: "'a ctx" and a bz
  assume c: "timed k p H W c" and d: "books k p {} d" "BlockHeight d = BlockHeight c" and s: "timed k p H W s"
    and "mstore d = mstore s \<or> mstore d = kv_set (mstore s) (BuildTotalDelegatedAmountKey a) bz"
  then show "timed k p H W d"
    using ledger_key_not_task(1) by (intro timed_write [OF s]) (simp_all only: timedD(2) [OF c])
qed

lemma timed_limit:
  assumes "int_laws (lib k)" and "amount new = Some a" and "0 \<le> a"
  shows "stable (timed k p H W) (SetMaxCapLimit k contract new)"
proof (rule stable_limit [OF assms timedD(1)])
  fix c d :: "'a ctx" and bz
  assume c: "timed k p H W c" and d: "books k p {} d" "BlockHeight d = BlockHeight c"
    and "mstore d = kv_set (mstore c) (BuildMaxCapLimitKey contract) bz"
  then show "timed k p H W d"
    using ledger_key_not_task(2)
    by (intro timed_write [where key = "BuildMaxCapLimitKey contract", OF c]) (auto simp only: timedD(2) [OF c])
qed

section \<open>The end blocker\<close>

text \<open>One execution takes its task off what is to be done, whatever the callback does.\<close>

lemma timed_exec_task:
  assumes L: "layout_laws (lib k)" and tp: "tp \<noteq> SchedulerTaskUndefined" and cb: "\<And>a. stable (timed k p H W) (cb a)"
    and c: "timed k p H W c"
  obtains res d where "exec_task k tp epoch cb a h rep acc c = (Ok (False, acc @ [res]), d)"
    and "timed k p H (W - {(tp, h, a)}) d"
proof -
  have g: "GetMaxSudoGas k c = Ok (ucast (MaxGasEndBlocker p))"
    using booksD(2) [OF timedD(1) [OF c]] by (simp add: GetMaxSudoGas_def)
  obtain res d where step: "exec_task k tp epoch cb a h rep acc c = (Ok (False, acc @ [res]), d)"
    and d: "timed k p H W d" "task_at (mstore d) tp (h, a) = None"
    by (rule timed.exec_task_P [where cb = cb and a = a and epoch = epoch and h = h and rep = rep and acc = acc,
        OF L tp cb c g])
  from d have "timed k p H (W - {(tp, h, a)}) d"
    by (auto simp: timed_def)
  with step show ?thesis by (rule that)
qed

lemma timed_exec_tasks:
  assumes L: "layout_laws (lib k)" and tp: "tp \<noteq> SchedulerTaskUndefined" and cb: "\<And>W a. stable (timed k p H W) (cb a)"
  shows "timed k p H W c \<Longrightarrow> timed k p H (W - Pair tp ` fst ` set ts)
    (snd (iterate (visit (exec_task k tp epoch cb)) ts acc c))"
proof (induction ts arbitrary: W acc c)
  case (Cons t ts)
  obtain h a rep where t: "t = ((h, a), rep)"
    by (cases t) auto
  obtain res d where step: "exec_task k tp epoch cb a h rep acc c = (Ok (False, acc @ [res]), d)"
    and d: "timed k p H (W - {(tp, h, a)}) d"
    by (rule timed_exec_task [OF L tp cb Cons.prems])
  have "W - Pair tp ` fst ` set (t # ts) = W - {(tp, h, a)} - Pair tp ` fst ` set ts"
    by (auto simp: t)
  then show ?case
    using Cons.IH [OF d] by (simp add: visit_def bind_apply t step)
qed simp

text \<open>A run of a type does all of the type.\<close>

lemma timed_Exec:
  assumes L: "layout_laws (lib k)" and tp: "tp \<noteq> SchedulerTaskUndefined" and cb: "\<And>W a. stable (timed k p H W) (cb a)"
    and wf: "tasks_ok (mstore c) tp" and c: "timed k p H W c"
  shows "timed k p H (W - {tp} \<times> UNIV) (snd (ExecScheduledTasks k tp epoch cb c))"
proof -
  let ?ts = "due_tasks (mstore c) tp H" and ?W = "{(tp, x). (tp, x) \<in> W \<and> task_at (mstore c) tp x \<noteq> None \<and> overdue H tp (fst x)}"
  have "timed k p H ?W c"
    using c by (auto simp: timed_def)
  from timed_exec_tasks [OF L tp cb this]
  have run: "timed k p H (?W - Pair tp ` fst ` set ?ts) (snd (ExecScheduledTasks k tp epoch cb c))"
    by (simp add: ExecScheduledTasks_def IterateScheduledTasks_due [OF L tp wf] timedD(2) [OF c])
  have "(tp, x) \<in> Pair tp ` fst ` set ?ts" if "(tp, x) \<in> ?W" for x
  proof -
    from that obtain r where "(x, r) \<in> set ?ts"
      by (auto simp: queue.due_iff overdue_def)
    then show ?thesis by force
  qed
  then have "?W - Pair tp ` fst ` set ?ts \<subseteq> W - {tp} \<times> UNIV"
    by blast
  with run show ?thesis
    by (rule timed_mono)
qed

lemma rspHandler_reads: "(\<And>r. keeps (\<lambda>c. c) (h r)) \<Longrightarrow> keeps (\<lambda>c. c) (rspHandler h r)"
proof -
  assume h: "\<And>r. keeps (\<lambda>c. c) (h r)"
  have "keeps (\<lambda>c. c) (handle_all h rs)" for rs
    by (induction rs) (auto simp only: handle_all.simps intro!: keeps_bind keeps_ret h)
  then show ?thesis
    by (simp add: rspHandler_def keeps_fail keeps_panic split: res.split)
qed

lemma end_of_run:
  assumes "\<And>r. keeps (\<lambda>c. c) (h r)" and "bind (attempt m) (rspHandler h) c = (Ok (), d)"
  shows "d = snd (m c)"
proof -
  obtain r where "attempt m c = (Ok r, d)"
    using assms(2) keepsD [OF rspHandler_reads [OF assms(1)]] by (fastforce simp: bind_eq_Ok)
  then show ?thesis
    by (auto simp: attempt_apply split: prod.splits res.splits)
qed

text \<open>So nothing is overdue when a block has ended.\<close>

lemma timed_EndBlock:
  assumes laws: "int_laws (lib k)" "coin_laws (lib k)" "layout_laws (lib k)"
    and others: "only_hooks k sk ek" "only_messages k json" and am: "am_k am = k"
    and handler: "\<And>r. keeps (\<lambda>c. c) (asyncTaskRspHandler am r)"
    and c: "timed k p H (waiting H) c" and run: "EndBlock am c = (Ok (), d)"
  shows "timed k p H {} d"
proof -
  have sudo: "stable (timed k p H W) (Sudo (wasm k) a msg)" for W a msg
    by (rule timed.sudo_P [OF laws(3) others(2) timed_messages [OF laws others(1)]])
  have types: "SchedulerTaskValsetUpdate \<noteq> SchedulerTaskUndefined" "SchedulerTaskHandleEpoch \<noteq> SchedulerTaskUndefined"
    by simp_all
  let ?V = "{SchedulerTaskValsetUpdate} \<times> UNIV" and ?E = "{SchedulerTaskHandleEpoch} \<times> UNIV"
  obtain e c1 where first: "bind (attempt (ExecScheduledTasks k SchedulerTaskValsetUpdate e (valset_executor k)))
      (rspHandler (asyncTaskRspHandler am)) c = (Ok (), c1)"
    and second: "bind (attempt (ExecScheduledTasks k SchedulerTaskHandleEpoch e (epoch_executor k)))
      (rspHandler (asyncTaskRspHandler am)) (ClearPipedValsetOperations k c1) = (Ok (), d)"
    using run unfolding EndBlock_def am EndBlocker_parts bind_eq_Ok [of "reading _"]
    by (auto simp: bind_eq_Ok [of "bind _ _"] bind_eq_Ok [of "update_state _"] update_state_apply)
  have "timed k p H (waiting H - ?V) c1"
    unfolding end_of_run [OF handler first]
    using timedD(1) [OF c] by (intro timed_Exec [OF laws(3) types(1) stable_executors(1) [OF sudo] _ c]) (simp add: books_def)
  then have c2: "timed k p H (waiting H - ?V) (ClearPipedValsetOperations k c1)"
    using stableD [OF timed.stable_ClearPiped] by fastforce
  have "timed k p H (waiting H - ?V - ?E) d"
    unfolding end_of_run [OF handler second]
    by (rule timed_Exec [OF laws(3) types(2) stable_executors(2) [OF sudo] booksD(8) [OF timedD(1) [OF c2]] c2])
  moreover have "waiting H - ?V - ?E = {}"
    by (auto simp: waiting_def)
  ultimately show ?thesis by simp
qed

section \<open>Block by block\<close>

text \<open>
  The demo chain with its heights: transactions and the beginning of a block happen at one height, and
  the end of a block that succeeds is followed by the header of the next.
\<close>

inductive timed_step :: "'x Keeper \<Rightarrow> 'x MeshApp \<Rightarrow> ('x ctx \<Rightarrow> 'x ctx \<Rightarrow> bool) \<Rightarrow> 'x ctx \<Rightarrow> 'x ctx \<Rightarrow> bool" for k app tx where
  transacts: "tx c d \<Longrightarrow> timed_step k app tx c d"
| block_begins: "app_BeginBlocker app c = (Ok r, d) \<Longrightarrow> timed_step k app tx c d"
| next_block: "app_EndBlocker app c = (Ok r, e) \<Longrightarrow> mstore d = mstore e \<Longrightarrow> mmem d = mmem e \<Longrightarrow>
    ValidateDenom (lib k) (bond_denom k d) \<Longrightarrow> BlockHeight d = BlockHeight c + 1 \<Longrightarrow> BlockHeight c < BlockHeight d \<Longrightarrow>
    timed_step k app tx c d"

text \<open>What is due in the next block is what is not overdue in this one.\<close>

lemma timed_header:
  assumes c: "timed k p H {} c" and d: "mstore d = mstore c" "mmem d = mmem c" "ValidateDenom (lib k) (bond_denom k d)"
    and height: "BlockHeight d = H + 1" "H < BlockHeight d"
  shows "timed k p (H + 1) (waiting (H + 1)) d"
proof (rule timedI [OF books.outside [OF timedD(1) [OF c] d] height(1)])
  fix tp x assume "task_at (mstore d) tp x \<noteq> None" and over: "overdue (H + 1) tp (fst x)"
  then have now: "\<not> overdue H tp (fst x)"
    using timedD(3) [OF c, of tp x] by (metis d(1) empty_iff)
  have "fst x \<le> H \<or> H + 1 \<le> fst x"
    using unatSuc [of H] height by (cases "1 + H = 0") (auto simp: word_less_nat_alt word_le_nat_alt add.commute)
  then have "fst x \<le> H \<or> fst x = H + 1 \<or> H + 1 < fst x"
    by (auto simp: le_less)
  then show "(tp, x) \<in> waiting (H + 1)"
    using now over by (cases x) (auto simp: overdue_def waiting_def)
qed

lemma with_events_Ok:
  assumes "with_events m c = (Ok r, d)"
  obtains u d' where "m (c\<lparr>emitted := []\<rparr>) = (Ok u, d')" and "d = d'\<lparr>emitted := emitted c\<rparr>"
  using assms by (auto simp: with_events_def split: prod.splits res.splits)

lemma timed_block_step:
  assumes laws: "int_laws (lib k)" "coin_laws (lib k)" "layout_laws (lib k)" "validate_laws (lib k)"
    and hooks: "only_hooks k sk ek" and am: "am_k am = k"
    and step: "block_step am sk st ek json c d" and c: "timed k p H (waiting H) c"
  shows "timed k p H (waiting H) d"
proof (rule in_block.block_step_P [OF laws(3,4) _ _ hooks am step c])
  show "stable (timed k p H (waiting H)) (DispatchMsg (lib k) json (NewDefaultCustomMsgHandler k) contract msg)" for contract msg
    by (rule timed_messages [OF laws(1-3) hooks])
  show "stable (timed k p H (waiting H)) (SetMaxCapLimit k contract new)" if "amount new = Some a" "0 \<le> a" for contract new a
    by (rule timed_limit [OF laws(1) that])
qed

lemma timed_turn:
  assumes laws: "int_laws (lib k)" "coin_laws (lib k)" "layout_laws (lib k)" "validate_laws (lib k)"
    and hooks: "only_hooks k sk ek" and am: "am_k am = k"
    and ms: "\<And>m c. m \<in> set ms \<Longrightarrow> (block_step am sk st ek json)\<^sup>*\<^sup>* c (snd (m c))"
    and c: "timed k p H (waiting H) c"
  shows "timed k p H (waiting H) (snd (in_turn ms [] (c\<lparr>emitted := []\<rparr>)))"
proof (rule rtrancl_invariant [where P = "timed k p H (waiting H)"])
  show "(block_step am sk st ek json)\<^sup>*\<^sup>* (c\<lparr>emitted := []\<rparr>) (snd (in_turn ms [] (c\<lparr>emitted := []\<rparr>)))"
    by (rule in_turn_steps) (rule ms)
  show "timed k p H (waiting H) (c\<lparr>emitted := []\<rparr>)"
    by (rule timed.same_height [OF c]) simp_all
qed (rule timed_block_step [OF laws hooks am])

lemma timed_step_timed:
  assumes laws: "int_laws (lib k)" "coin_laws (lib k)" "layout_laws (lib k)" "validate_laws (lib k)"
    and hooks: "only_hooks k sk ek" "only_messages k json" and am: "am_k am = k"
    and handler: "\<And>r. keeps (\<lambda>c. c) (asyncTaskRspHandler am r)"
    and mods: "manager_laws new_manager" "other_modules k (block_step am sk st ek json) others"
    and app: "app_Manager app = app_ModuleManager new_manager others am unmarshal"
    and c: "timed k p H (waiting H) c"
  shows "app_EndBlocker app c = (Ok r, d) \<Longrightarrow> timed k p H {} d"
    and "timed_step k app (block_step am sk st ek json) c d \<Longrightarrow> timed k p (BlockHeight d) (waiting (BlockHeight d)) d"
proof -
  have rest: "(block_step am sk st ek json)\<^sup>*\<^sup>* c (snd (mod_EndBlock (others n) c))"
    "(block_step am sk st ek json)\<^sup>*\<^sup>* c (snd (bind (mod_BeginBlock (others n)) (\<lambda>_. ret []) c))" for n c
    using mods(2) by (simp_all add: other_modules_def)
  note turn = timed_turn [OF laws hooks(1) am _ c]
  show ends: "timed k p H {} d" if ended: "app_EndBlocker app c = (Ok r, d)" for r d
  proof -
    obtain ups c1 d1 where others: "in_turn (map (\<lambda>n. mod_EndBlock (others n)) (butlast OrderEndBlockers)) [] (c\<lparr>emitted := []\<rparr>) = (Ok ups, c1)"
      and own: "EndBlock am c1 = (Ok (), d1)" and d: "d = d1\<lparr>emitted := emitted c\<rparr>"
      using ended unfolding end_blocker_order [OF mods(1) app]
      by (elim with_events_Ok) (auto simp: bind_eq_Ok)
    have "timed k p H (waiting H) c1"
      using turn [of "map (\<lambda>n. mod_EndBlock (others n)) (butlast OrderEndBlockers)"] rest by (auto simp: others)
    then have "timed k p H {} d1"
      by (rule timed_EndBlock [OF laws(1-3) hooks am handler _ own])
    then show ?thesis
      by (rule timed.same_height) (simp_all add: d)
  qed
  assume step: "timed_step k app (block_step am sk st ek json) c d"
  from step show "timed k p (BlockHeight d) (waiting (BlockHeight d)) d"
  proof cases
    case transacts
    then have "timed k p H (waiting H) d"
      using c by (rule timed_block_step [OF laws hooks(1) am])
    then show ?thesis
      by (simp add: timedD(2))
  next
    case (block_begins r)
    let ?ms = "begin_calls (app_modules others am unmarshal) OrderBeginBlockers"
    have "\<exists>e. d = snd (in_turn ?ms [] (c\<lparr>emitted := []\<rparr>))\<lparr>emitted := e\<rparr>"
      using block_begins mods(1) by (auto simp: app_BeginBlocker_def app app_ModuleManager_def manager_laws_def
          with_events_def bind_apply split: prod.splits res.splits)
    moreover have "timed k p H (waiting H) (snd (in_turn ?ms [] (c\<lparr>emitted := []\<rparr>)))"
      using rest(2) by (intro turn) (auto simp: begin_calls_app BeginBlock_def)
    ultimately have "timed k p H (waiting H) d"
      by (auto intro: timed.same_height)
    then show ?thesis
      by (simp add: timedD(2))
  next
    case (next_block r e)
    then show ?thesis
      using timed_header [OF ends [OF next_block(1)], of d] by (simp add: timedD(2) [OF c])
  qed
qed

lemma genesis_no_task: "genesis k gs c \<Longrightarrow> task_at (mstore c) tp x = None"
  by (erule genesis_store) (auto simp: task_at_def prefix_defs ParamsKey_def)

lemma timed_run:
  assumes laws: "int_laws (lib k)" "coin_laws (lib k)" "layout_laws (lib k)" "validate_laws (lib k)"
    and hooks: "only_hooks k sk ek" "only_messages k json" and am: "am_k am = k"
    and handler: "\<And>r. keeps (\<lambda>c. c) (asyncTaskRspHandler am r)"
    and mods: "manager_laws new_manager" "other_modules k (block_step am sk st ek json) others"
    and app: "app_Manager app = app_ModuleManager new_manager others am unmarshal"
    and gen: "genesis k gs c0" and run: "(timed_step k app (block_step am sk st ek json))\<^sup>*\<^sup>* c0 c"
  shows "timed k (gs_Params gs) (BlockHeight c) (waiting (BlockHeight c)) c"
  using run
proof (rule rtrancl_invariant [where P = "\<lambda>c. timed k (gs_Params gs) (BlockHeight c) (waiting (BlockHeight c)) c"])
  show "timed k (gs_Params gs) (BlockHeight c0) (waiting (BlockHeight c0)) c0"
  proof (rule timedI [OF genesis_books [OF laws(4) gen] refl])
    fix tp x assume "task_at (mstore c0) tp x \<noteq> None"
    then show "(tp, x) \<in> waiting (BlockHeight c0)" by (simp add: genesis_no_task [OF gen])
  qed
qed (rule timed_step_timed(2) [OF laws hooks am handler mods app])

lemma task_stored: "kv_has s (SchedulerKeyPrefix @ [tp] @ put_uint64 h @ a) \<longleftrightarrow> task_at s tp (h, a) \<noteq> None"
  by (simp add: kv_has_def task_at_def)

lemma timed_stored:
  assumes "timed k p H W c"
  shows "kv_has (mstore c) (SchedulerKeyPrefix @ [SchedulerTaskHandleEpoch] @ put_uint64 h @ a) \<Longrightarrow>
      H < h \<or> (SchedulerTaskHandleEpoch, h, a) \<in> W"
    and "kv_has (mstore c) (SchedulerKeyPrefix @ [SchedulerTaskValsetUpdate] @ put_uint64 h @ a) \<Longrightarrow>
      H \<le> h \<or> (SchedulerTaskValsetUpdate, h, a) \<in> W"
  unfolding task_stored using timedD(3) [OF assms, of _ "(h, a)"] by (auto simp: overdue_def not_less [symmetric])

section \<open>Properties\<close>

text \<open>
  C7.  Tasks run on time: in every state of the demo chain, block by block from its genesis, no epoch
  callback is left from an earlier block, and no report from before the last one; and at the end of
  a block, when all other modules have had their turn, no epoch callback of this block is left and no
  report from before it.  So a report that a callback asks for while its block ends waits for the next.
\<close>
theorem tasks_run_on_time:
  assumes laws: "int_laws (lib k)" "coin_laws (lib k)" "layout_laws (lib k)" "validate_laws (lib k)"
    and hooks: "only_hooks k sk ek" "only_messages k json"
    and mods: "manager_laws new_manager" "other_modules k (block_step (NewAppModule k) sk st ek json) others"
    and app: "app_Manager app = app_ModuleManager new_manager others (NewAppModule k) unmarshal"
    and gen: "genesis k gs c0" and run: "(timed_step k app (block_step (NewAppModule k) sk st ek json))\<^sup>*\<^sup>* c0 c"
  shows "(\<forall>h a. kv_has (mstore c) (SchedulerKeyPrefix @ [SchedulerTaskHandleEpoch] @ put_uint64 h @ a) \<longrightarrow> BlockHeight c \<le> h) \<and>
    (\<forall>h a. kv_has (mstore c) (SchedulerKeyPrefix @ [SchedulerTaskValsetUpdate] @ put_uint64 h @ a) \<longrightarrow>
      BlockHeight c \<le> h \<or> BlockHeight c = h + 1) \<and>
    (\<forall>r d. app_EndBlocker app c = (Ok r, d) \<longrightarrow>
      (\<forall>h a. kv_has (mstore d) (SchedulerKeyPrefix @ [SchedulerTaskHandleEpoch] @ put_uint64 h @ a) \<longrightarrow> BlockHeight c < h) \<and>
      (\<forall>h a. kv_has (mstore d) (SchedulerKeyPrefix @ [SchedulerTaskValsetUpdate] @ put_uint64 h @ a) \<longrightarrow> BlockHeight c \<le> h))"
proof -
  have handler: "\<And>r. keeps (\<lambda>c. c) (asyncTaskRspHandler (NewAppModule k) r)"
    by (simp add: default_handler_reads)
  let ?H = "BlockHeight c"
  note c = timed_run [OF laws hooks demo_module(1) handler mods app gen run]
  have ended: "timed k (gs_Params gs) ?H {} d" if "app_EndBlocker app c = (Ok r, d)" for r d
    by (rule timed_step_timed(1) [OF laws hooks demo_module(1) handler mods app c that])
  have types: "SchedulerTaskHandleEpoch \<noteq> SchedulerTaskValsetUpdate"
    by (simp add: SchedulerTaskHandleEpoch_def SchedulerTaskValsetUpdate_def)
  show ?thesis
  proof (intro conjI allI impI)
    show "?H \<le> h" if "kv_has (mstore c) (SchedulerKeyPrefix @ [SchedulerTaskHandleEpoch] @ put_uint64 h @ a)" for h a
      using timed_stored(1) [OF c that] types by (auto simp: waiting_def)
    show "?H \<le> h \<or> ?H = h + 1" if "kv_has (mstore c) (SchedulerKeyPrefix @ [SchedulerTaskValsetUpdate] @ put_uint64 h @ a)" for h a
      using timed_stored(2) [OF c that] types by (auto simp: waiting_def)
    fix r d assume d: "app_EndBlocker app c = (Ok r, d)"
    show "?H < h" if "kv_has (mstore d) (SchedulerKeyPrefix @ [SchedulerTaskHandleEpoch] @ put_uint64 h @ a)" for h a
      using timed_stored(1) [OF ended [OF d] that] by simp
    show "?H \<le> h" if "kv_has (mstore d) (SchedulerKeyPrefix @ [SchedulerTaskValsetUpdate] @ put_uint64 h @ a)" for h a
      using timed_stored(2) [OF ended [OF d] that] by simp
  qed
qed

lemma demo_other_modules_in_block [simp]:
  "other_modules demo_keeper (block_step (NewAppModule demo_keeper) sk st ek json) demo_others"
  by (rule demo_other_modules_by) (simp_all add: block_step.contract contract_step.hook)

theorem tasks_run_on_time_witness:
  "\<exists>d. SetVirtualStakingMaxCap demo_keeper (demo_request ''gov'' 800) demo_start = (Ok MsgSetVirtualStakingMaxCapResponse, d) \<and>
    task_at (mstore d) SchedulerTaskHandleEpoch (BlockHeight demo_start + 50, con_a) = Some True \<and>
    (\<forall>h a. kv_has (mstore d) (SchedulerKeyPrefix @ [SchedulerTaskHandleEpoch] @ put_uint64 h @ a) \<longrightarrow> BlockHeight d \<le> h)"
proof (rule demo_governed)
  fix d
  assume d: "SetVirtualStakingMaxCap demo_keeper (demo_request ''gov'' 800) demo_start = (Ok MsgSetVirtualStakingMaxCapResponse, d)"
    and step: "block_step (NewAppModule demo_keeper) demo_slashing demo_staking demo_evidence demo_bond demo_start d"
    and at: "task_at (mstore d) SchedulerTaskHandleEpoch (BlockHeight demo_start + 50, con_a) = Some True"
  have app: "app_Manager demo_app = app_ModuleManager demo_manager demo_others (NewAppModule demo_keeper) (\<lambda>_. Ok \<lparr>gs_Params = demo_params\<rparr>)"
    by (simp add: demo_app_def)
  have "(timed_step demo_keeper demo_app (block_step (NewAppModule demo_keeper) demo_slashing demo_staking demo_evidence demo_bond))\<^sup>*\<^sup>*
      demo_start d"
    using step by (blast intro: timed_step.transacts)
  from tasks_run_on_time [OF _ _ _ _ _ _ demo_manager_laws demo_other_modules_in_block app demo_genesis this]
  show ?thesis
    using d at by simp
qed

end
