(* ===== verification/Wiring.thy ===== *)
theory Wiring
  imports App
begin

text \<open>
  How \<open>NewMeshApp\<close> of \<open>demo/app/app.go\<close> puts the keepers together, as data: one step for each part it
  builds, in the order of the code, with the stores and subspaces that the part gets, the parts that
  it is given, and those of which it gets the address only.  The constructors are the SDK's, IBC's and
  wasmd's; what counts here is that nothing is used before it is there and that no store is shared.
\<close>

section \<open>Steps\<close>

datatype part =
    ParamsKeeper | ConsensusParamsKeeper | CapabilityKeeper | ScopeToModule mod_name | AccountKeeper | BankKeeper
  | StakingKeeper | MintKeeper | DistrKeeper | MeshSecKeeper | SlashingKeeper | CrisisKeeper | FeeGrantKeeper
  | StakingHooks | AuthzKeeper | GroupKeeper | UpgradeKeeper | IBCKeeper | GovRouter | GovKeeper | NFTKeeper
  | EvidenceKeeper | IBCFeeKeeper | TransferKeeper | ICAHostKeeper | ICAControllerKeeper | WasmKeeper_part
  | LegacyRouter | TransferStack | IcaControllerStack | IcaHostStack | WasmStack | IBCRouter

record build_step =
  builds :: part
  key_of :: "mod_name list"
  tkey_of :: "mod_name list"
  memkey_of :: "mod_name list"
  subspace_of :: "mod_name list"
  given :: "part list"
  address_of :: "part list"

definition step :: "part \<Rightarrow> mod_name list \<Rightarrow> part list \<Rightarrow> build_step" where
  "step p keys parts = \<lparr>builds = p, key_of = keys, tkey_of = [], memkey_of = [], subspace_of = [], given = parts, address_of = []\<rparr>"

text \<open>A keeper with a subspace reads it from the parameter keeper, \<open>app.GetSubspace\<close>.\<close>

definition step_with_subspace :: "part \<Rightarrow> mod_name list \<Rightarrow> mod_name \<Rightarrow> part list \<Rightarrow> build_step" where
  "step_with_subspace p keys n parts = (step p keys (ParamsKeeper # parts))\<lparr>subspace_of := [n]\<rparr>"

definition scoped_steps :: "build_step list" where
  "scoped_steps = map (\<lambda>n. step (ScopeToModule n) [] [CapabilityKeeper])
     [ibcexported, icahosttypes, icacontrollertypes, ibctransfertypes, wasmtypes]"

definition base_steps :: "build_step list" where
  "base_steps =
    [(step ParamsKeeper [paramstypes] [])\<lparr>tkey_of := [paramstypes]\<rparr>,
     step ConsensusParamsKeeper [consensusparamtypes] [],
     (step CapabilityKeeper [capabilitytypes] [])\<lparr>memkey_of := [capabilitytypes]\<rparr>] @
    scoped_steps @
    [step AccountKeeper [authtypes] [],
     step BankKeeper [banktypes] [AccountKeeper],
     step StakingKeeper [stakingtypes] [AccountKeeper, BankKeeper],
     step MintKeeper [minttypes] [StakingKeeper, AccountKeeper, BankKeeper],
     step DistrKeeper [distrtypes] [AccountKeeper, BankKeeper, StakingKeeper]]"

text \<open>
  The module's keeper comes before wasmd's, whose address it gets; the slashing keeper is built on the
  module's decorator, and the hooks of three modules are set on the staking keeper.
\<close>

definition mesh_steps :: "build_step list" where
  "mesh_steps =
    [(step MeshSecKeeper [meshsectypes] [BankKeeper, StakingKeeper])
       \<lparr>memkey_of := [meshsectypes], address_of := [WasmKeeper_part]\<rparr>,
     step SlashingKeeper [slashingtypes] [StakingKeeper, MeshSecKeeper],
     step CrisisKeeper [crisistypes] [BankKeeper],
     step FeeGrantKeeper [feegrant] [AccountKeeper],
     step StakingHooks [] [StakingKeeper, DistrKeeper, SlashingKeeper, MeshSecKeeper],
     step AuthzKeeper [authz] [AccountKeeper],
     step GroupKeeper [group_module] [AccountKeeper],
     step UpgradeKeeper [upgradetypes] []]"

definition ibc_steps :: "build_step list" where
  "ibc_steps =
    [step_with_subspace IBCKeeper [ibcexported] ibcexported [StakingKeeper, UpgradeKeeper, ScopeToModule ibcexported],
     step GovRouter [] [ParamsKeeper, UpgradeKeeper, IBCKeeper],
     step GovKeeper [govtypes] [AccountKeeper, BankKeeper, StakingKeeper],
     step NFTKeeper [nft] [AccountKeeper, BankKeeper],
     step EvidenceKeeper [evidencetypes] [StakingKeeper, MeshSecKeeper, SlashingKeeper],
     step IBCFeeKeeper [ibcfeetypes] [IBCKeeper, AccountKeeper, BankKeeper],
     step_with_subspace TransferKeeper [ibctransfertypes] ibctransfertypes
       [IBCFeeKeeper, IBCKeeper, AccountKeeper, BankKeeper, ScopeToModule ibctransfertypes],
     step_with_subspace ICAHostKeeper [icahosttypes] icahosttypes
       [IBCFeeKeeper, IBCKeeper, AccountKeeper, ScopeToModule icahosttypes],
     step_with_subspace ICAControllerKeeper [icacontrollertypes] icacontrollertypes
       [IBCFeeKeeper, IBCKeeper, ScopeToModule icacontrollertypes],
     step WasmKeeper_part [wasmtypes]
       [MeshSecKeeper, SlashingKeeper, AccountKeeper, BankKeeper, StakingKeeper, DistrKeeper, IBCFeeKeeper, IBCKeeper,
        ScopeToModule wasmtypes, TransferKeeper],
     step LegacyRouter [] [GovKeeper, GovRouter]]"

definition stack_steps :: "build_step list" where
  "stack_steps =
    [step TransferStack [] [TransferKeeper, IBCFeeKeeper],
     step IcaControllerStack [] [ICAControllerKeeper, IBCFeeKeeper],
     step IcaHostStack [] [ICAHostKeeper, IBCFeeKeeper],
     step WasmStack [] [WasmKeeper_part, IBCKeeper, IBCFeeKeeper],
     step IBCRouter [] [TransferStack, WasmStack, IcaControllerStack, IcaHostStack, IBCKeeper]]"

definition build_steps :: "build_step list" where
  "build_steps = base_steps @ mesh_steps @ ibc_steps @ stack_steps"

text \<open>Nothing is used before it is built, and nothing is built twice.\<close>

primrec wired :: "part list \<Rightarrow> build_step list \<Rightarrow> bool" where
  "wired built [] = True"
| "wired built (s # ss) = (set (given s) \<subseteq> set built \<and> builds s \<notin> set built \<and> wired (builds s # built) ss)"

section \<open>Packets\<close>

text \<open>The stacks that packets of IBC go through; the controller has no module below it.\<close>

datatype ibc_module =
    TransferModule | IcaHostModule | WasmHandler | IcaControllerMiddleware "ibc_module option" | FeeMiddleware ibc_module

definition transferStack :: ibc_module where "transferStack = FeeMiddleware TransferModule"
definition icaControllerStack :: ibc_module where "icaControllerStack = FeeMiddleware (IcaControllerMiddleware None)"
definition icaHostStack :: ibc_module where "icaHostStack = FeeMiddleware IcaHostModule"
definition wasmStack :: ibc_module where "wasmStack = FeeMiddleware WasmHandler"

definition ibcRouter :: "(mod_name \<times> ibc_module) list" where
  "ibcRouter =
    [(ibctransfertypes, transferStack), (wasmtypes, wasmStack), (icacontrollertypes, icaControllerStack),
     (icahosttypes, icaHostStack)]"

section \<open>Lookups\<close>

text \<open>The keys by name: the constructors of the maps make one for each name.\<close>

definition GetKey :: "mod_name \<Rightarrow> mod_name option" where
  "GetKey storeKey = (if storeKey \<in> set kv_store_keys then Some storeKey else None)"

definition GetTKey :: "mod_name \<Rightarrow> mod_name option" where
  "GetTKey storeKey = (if storeKey \<in> set transient_store_keys then Some storeKey else None)"

definition GetMemKey :: "mod_name \<Rightarrow> mod_name option" where
  "GetMemKey storeKey = (if storeKey \<in> set memory_store_keys then Some storeKey else None)"

text \<open>\<open>app.GetSubspace\<close> drops whether there is one; \<open>None\<close> is the zero subspace.\<close>

definition GetSubspace :: "subspace list \<Rightarrow> mod_name \<Rightarrow> subspace option" where
  "GetSubspace subspaces n = find (\<lambda>s. ss_Name s = n) subspaces"

definition fresh_subspaces :: "subspace list" where
  "fresh_subspaces = map (\<lambda>n. \<lparr>ss_Name = n, ss_KeyTable = None\<rparr>) initParamsKeeper"

text \<open>The subspaces that modules of the manager get.\<close>

definition module_subspaces :: "mod_name list" where
  "module_subspaces =
    [authtypes, banktypes, govtypes, minttypes, slashingtypes, distrtypes, stakingtypes, wasmtypes, crisistypes]"

end
