(* ===== verification/Encoding.thy ===== *)
theory Encoding
  imports App Export
begin

text \<open>
  The codecs: what the module registers in \<open>types/codec.go\<close> and \<open>module.go\<close>, and the encoding
  configuration of the demo chain in \<open>demo/app/encoding.go\<close> and \<open>demo/app/params\<close>.  An amino codec and
  an interface registry are objects that several others point to, so they live in a store and are named by
  their places in it; their contents are the SDK's, a parameter with the calls that change them.
\<close>

section \<open>The registries of the SDK\<close>

record service_desc =
  desc_ServiceName :: string
  desc_Methods :: "string list"
  desc_Metadata :: string

text \<open>
  A Go type is known by its name.  The other packages register what they like; a basic module does so by
  the name it has in \<open>ModuleBasics\<close>.
\<close>

record ('a, 'r) codec_lib =
  NewLegacyAmino :: 'a
  NewInterfaceRegistry :: 'r
  RegisterConcrete :: "string \<Rightarrow> string \<Rightarrow> ('a, unit) call"
  RegisterImplementations :: "string \<Rightarrow> string list \<Rightarrow> ('r, unit) call"
  RegisterMsgServiceDesc :: "service_desc \<Rightarrow> ('r, unit) call"
  RegisterCrypto :: "('a, unit) call"
  sdk_RegisterLegacyAminoCodec :: "('a, unit) call"
  std_RegisterLegacyAminoCodec :: "('a, unit) call"
  std_RegisterInterfaces :: "('r, unit) call"
  other_RegisterLegacyAminoCodec :: "mod_name \<Rightarrow> ('a, unit) call"
  other_RegisterInterfaces :: "mod_name \<Rightarrow> ('r, unit) call"
  amino_MarshalJSON :: "'a \<Rightarrow> MsgSetVirtualStakingMaxCap \<Rightarrow> bytes res"
  SortJSON :: "bytes \<Rightarrow> bytes res"

section \<open>What the module registers\<close>

definition Msg_serviceDesc :: service_desc where
  "Msg_serviceDesc = \<lparr>desc_ServiceName = ''osmosis.meshsecurity.v1beta1.Msg'',
     desc_Methods = [''SetVirtualStakingMaxCap''], desc_Metadata = ''osmosis/meshsecurity/v1beta1/tx.proto''\<rparr>"

definition RegisterLegacyAminoCodec :: "('a, 'r) codec_lib \<Rightarrow> ('a, unit) call" where
  "RegisterLegacyAminoCodec L =
     RegisterConcrete L ''MsgSetVirtualStakingMaxCap'' ''meshsecurity/MsgSetVirtualStakingMaxCap''"

definition RegisterInterfaces :: "('a, 'r) codec_lib \<Rightarrow> ('r, unit) call" where
  "RegisterInterfaces L =
     bind (RegisterImplementations L ''sdk.Msg'' [''MsgSetVirtualStakingMaxCap'']) (\<lambda>_.
     RegisterMsgServiceDesc L Msg_serviceDesc)"

definition basic_RegisterLegacyAminoCodec :: "('a, 'r) codec_lib \<Rightarrow> ('a, unit) call" where
  "basic_RegisterLegacyAminoCodec L = RegisterLegacyAminoCodec L"

definition basic_RegisterInterfaces :: "('a, 'r) codec_lib \<Rightarrow> ('r, unit) call" where
  "basic_RegisterInterfaces L = RegisterInterfaces L"

section \<open>The store of codecs\<close>

record ('a, 'r) codec_store =
  aminos :: "'a list"
  registries :: "'r list"

definition new_amino :: "('a, 'r) codec_lib \<Rightarrow> (('a, 'r) codec_store, nat) call" where
  "new_amino L s = (Ok (length (aminos s)), s\<lparr>aminos := aminos s @ [NewLegacyAmino L]\<rparr>)"

definition new_registry :: "('a, 'r) codec_lib \<Rightarrow> (('a, 'r) codec_store, nat) call" where
  "new_registry L s = (Ok (length (registries s)), s\<lparr>registries := registries s @ [NewInterfaceRegistry L]\<rparr>)"

text \<open>A call on the object in a place, which it may have changed also when it fails.\<close>

definition on_amino :: "nat \<Rightarrow> ('a, 'b) call \<Rightarrow> (('a, 'r) codec_store, 'b) call" where
  "on_amino p m s = (case m (aminos s ! p) of (r, a) \<Rightarrow> (r, s\<lparr>aminos := (aminos s)[p := a]\<rparr>))"

definition on_registry :: "nat \<Rightarrow> ('r, 'b) call \<Rightarrow> (('a, 'r) codec_store, 'b) call" where
  "on_registry p m s = (case m (registries s ! p) of (r, g) \<Rightarrow> (r, s\<lparr>registries := (registries s)[p := g]\<rparr>))"

text \<open>Codecs point to what they are made with.\<close>

datatype codec = ProtoCodec (codec_registry: nat)

datatype tx_config = NewTxConfig (tx_codec: codec)

section \<open>The codec of the package\<close>

text \<open>The initialisation of the package's variables and its \<open>init\<close>; the place is that of \<open>amino\<close>.\<close>

definition types_init :: "('a, 'r) codec_lib \<Rightarrow> (('a, 'r) codec_store, nat) call" where
  "types_init L =
     bind (new_amino L) (\<lambda>amino.
     bind (on_amino amino (RegisterLegacyAminoCodec L)) (\<lambda>_.
     bind (on_amino amino (RegisterCrypto L)) (\<lambda>_.
     bind (on_amino amino (sdk_RegisterLegacyAminoCodec L)) (\<lambda>_.
     ret amino))))"

text \<open>\<open>ModuleCdc\<close> is the codec on \<open>amino\<close>.\<close>

definition GetSignBytes :: "('a, 'r) codec_lib \<Rightarrow> nat \<Rightarrow> MsgSetVirtualStakingMaxCap \<Rightarrow> ('a, 'r) codec_store \<Rightarrow> bytes res" where
  "GetSignBytes L amino msg s = bindR (must (amino_MarshalJSON L (aminos s ! amino) msg)) (\<lambda>bz. must (SortJSON L bz))"

section \<open>The configuration of the demo chain\<close>

record EncodingConfig =
  ec_InterfaceRegistry :: nat
  ec_Marshaler :: codec
  ec_TxConfig :: tx_config
  ec_Amino :: nat

definition params_MakeEncodingConfig :: "('a, 'r) codec_lib \<Rightarrow> (('a, 'r) codec_store, EncodingConfig) call" where
  "params_MakeEncodingConfig L =
     bind (new_amino L) (\<lambda>amino.
     bind (new_registry L) (\<lambda>interfaceRegistry.
     let marshaler = ProtoCodec interfaceRegistry;
         txCfg = NewTxConfig marshaler
     in ret \<lparr>ec_InterfaceRegistry = interfaceRegistry, ec_Marshaler = marshaler, ec_TxConfig = txCfg, ec_Amino = amino\<rparr>))"

definition module_RegisterLegacyAminoCodec :: "('a, 'r) codec_lib \<Rightarrow> mod_name \<Rightarrow> ('a, unit) call" where
  "module_RegisterLegacyAminoCodec L m =
     (if m = meshsectypes then basic_RegisterLegacyAminoCodec L else other_RegisterLegacyAminoCodec L m)"

definition module_RegisterInterfaces :: "('a, 'r) codec_lib \<Rightarrow> mod_name \<Rightarrow> ('r, unit) call" where
  "module_RegisterInterfaces L m =
     (if m = meshsectypes then basic_RegisterInterfaces L else other_RegisterInterfaces L m)"

text \<open>
  \<open>ModuleBasics\<close> is a map, and Go visits a map in any order: the orders of the two visits, \<open>o1\<close> and \<open>o2\<close>,
  are arguments.
\<close>

definition MakeEncodingConfig :: "('a, 'r) codec_lib \<Rightarrow> mod_name list \<Rightarrow> mod_name list \<Rightarrow>
    (('a, 'r) codec_store, EncodingConfig) call" where
  "MakeEncodingConfig L o1 o2 =
     bind (params_MakeEncodingConfig L) (\<lambda>encodingConfig.
     bind (on_amino (ec_Amino encodingConfig) (std_RegisterLegacyAminoCodec L)) (\<lambda>_.
     bind (on_registry (ec_InterfaceRegistry encodingConfig) (std_RegisterInterfaces L)) (\<lambda>_.
     bind (on_amino (ec_Amino encodingConfig) (for_each (module_RegisterLegacyAminoCodec L) o1)) (\<lambda>_.
     bind (on_registry (ec_InterfaceRegistry encodingConfig) (for_each (module_RegisterInterfaces L) o2)) (\<lambda>_.
     ret encodingConfig)))))"

section \<open>Simulation weights\<close>

text \<open>The default weights of the operations of a simulation, by the names of the constants.\<close>

definition default_weights :: "(string \<times> int) list" where
  "default_weights =
    [(''MsgSend'', 100), (''MsgMultiSend'', 10), (''MsgSetWithdrawAddress'', 50), (''MsgWithdrawDelegationReward'', 50),
     (''MsgWithdrawValidatorCommission'', 50), (''MsgFundCommunityPool'', 50), (''MsgDeposit'', 100), (''MsgVote'', 67),
     (''MsgUnjail'', 100), (''MsgCreateValidator'', 100), (''MsgEditValidator'', 5), (''MsgDelegate'', 100),
     (''MsgUndelegate'', 100), (''MsgBeginRedelegate'', 100),
     (''CommunitySpendProposal'', 5), (''TextProposal'', 5), (''ParamChangeProposal'', 5),
     (''MsgStoreCode'', 50), (''MsgInstantiateContract'', 100), (''MsgExecuteContract'', 100), (''MsgUpdateAdmin'', 25),
     (''MsgClearAdmin'', 10), (''MsgMigrateContract'', 50),
     (''StoreCodeProposal'', 5), (''InstantiateContractProposal'', 5), (''UpdateAdminProposal'', 5),
     (''ExecuteContractProposal'', 5), (''ClearAdminProposal'', 5), (''MigrateContractProposal'', 5),
     (''SudoContractProposal'', 5), (''PinCodesProposal'', 5), (''UnpinCodesProposal'', 5),
     (''UpdateInstantiateConfigProposal'', 5), (''StoreAndInstantiateContractProposal'', 5)]"

end
