(* ===== verification/Node.thy ===== *)
theory Node
  imports Wiring Encoding
begin

text \<open>
  The node: the control flow of \<open>NewMeshApp\<close> in \<open>demo/app/app.go\<close>, everything in it that can stop the
  program, and the commands of \<open>demo/cmd/meshd\<close>, with the default genesis of \<open>demo/app/genesis.go\<close> and
  the capabilities of \<open>demo/app/wasm.go\<close>.  The libraries' calls are arguments; an \<open>os.Exit\<close> is a panic,
  as \<open>log.Fatal\<close> is in \<open>Export\<close>.
\<close>

section \<open>Options\<close>

text \<open>Flags by their names in the SDK, of which only matters that they differ; values as they are set.\<close>

datatype opt_key =
    FlagHome | FlagInvCheckPeriod | FlagUnsafeSkipUpgrades | FlagSkipGenesisInvariants | TelemetryEnabled | OtherFlag string

datatype opt_value = NoValue | OptString string | OptBool bool | OptInt int | OptInts "u64 list"

text \<open>The options of a node come from viper; other implementations of the interface are possible.\<close>

datatype AppOptions = Viper "opt_key \<Rightarrow> opt_value" | OtherOptions "opt_key \<Rightarrow> opt_value"

primrec opt_get :: "AppOptions \<Rightarrow> opt_key \<Rightarrow> opt_value" where
  "opt_get (Viper f) = f"
| "opt_get (OtherOptions f) = f"

section \<open>Building the application\<close>

datatype wasm_option = VMCacheMetrics | MessageHandlerDecorator | QueryHandlerDecorator | OtherWasmOption string

text \<open>What \<open>NewMeshApp\<close> calls; \<open>'k\<close> are the names of keepers and configurations of \<open>App\<close>.\<close>

record 'k build_env =
  env_encoding :: "EncodingConfig res"
  ToIntSlice :: "opt_value \<Rightarrow> u64 list"
  ToUint :: "opt_value \<Rightarrow> nat"
  ToBool :: "opt_value \<Rightarrow> bool"
  LoadStreamingServices :: "AppOptions \<Rightarrow> unit res"
  ReadWasmConfig :: "AppOptions \<Rightarrow> 'k res"
  ReadUpgradeInfoFromDisk :: "(string \<times> u64) res"
  NewReflectionService :: "unit res"
  RegisterExtensions :: "unit res option"
  NewPostHandler :: "unit res"
  env_AccountKeeper :: 'k
  env_BankKeeper :: 'k
  env_FeeGrantKeeper :: 'k
  env_SigGasConsumer :: 'k
  env_IBCKeeper :: 'k
  env_SignModeHandler :: 'k
  env_wasm_key :: 'k

text \<open>The base application's store, on a state \<open>'s\<close>.\<close>

record 's base_app =
  LoadLatestVersion :: "('s, unit) call"
  LoadVersion :: "u64 \<Rightarrow> ('s, unit) call"
  InitializePinnedCodes :: "('s, unit) call"

record 'k built_app =
  built_encoding :: EncodingConfig
  built_AnteHandler :: "'k AnteDecorator list"
  built_StoreLoader :: "(u64 \<times> mod_name list) option"
  built_WasmOpts :: "wasm_option list"
  built_InvCheckPeriod :: nat
  built_SkipGenesisInvariants :: bool

text \<open>The heights at which upgrades are skipped, a map with \<open>false\<close> for what it does not have.\<close>

definition skipUpgradeHeights :: "u64 list \<Rightarrow> u64 \<Rightarrow> bool" where
  "skipUpgradeHeights hs = fold (\<lambda>h m. m(h := True)) hs (\<lambda>_. False)"

definition app_wasmOpts :: "wasm_option list \<Rightarrow> wasm_option list" where
  "app_wasmOpts wasmOpts = wasmOpts @ [MessageHandlerDecorator, QueryHandlerDecorator]"

text \<open>Without a snapshot manager there is nothing to register.\<close>

definition register_snapshots :: "unit res option \<Rightarrow> unit res" where
  "register_snapshots r = (case r of None \<Rightarrow> Ok () | Some r \<Rightarrow> must r)"

definition setPostHandler :: "unit res \<Rightarrow> unit res" where
  "setPostHandler r = must r"

text \<open>Both errors end the process; codes are pinned only when the latest version was loaded.\<close>

definition load_latest :: "'s base_app \<Rightarrow> bool \<Rightarrow> ('s, unit) call" where
  "load_latest B loadLatest =
     (if loadLatest then bind (or_panic (LoadLatestVersion B)) (\<lambda>_. or_panic (InitializePinnedCodes B)) else ret ())"

definition NewMeshApp :: "'k build_env \<Rightarrow> 's base_app \<Rightarrow> bool \<Rightarrow> AppOptions \<Rightarrow> wasm_option list \<Rightarrow>
    ('s, 'k built_app) call" where
  "NewMeshApp env B loadLatest appOpts wasmOpts =
     bind (reading (\<lambda>_. env_encoding env)) (\<lambda>encodingConfig.
     bind (reading (\<lambda>_. must (LoadStreamingServices env appOpts))) (\<lambda>_.
     bind (reading (\<lambda>_. must (ReadWasmConfig env appOpts))) (\<lambda>wasmConfig.
     bind (reading (\<lambda>_. store_upgrades (ReadUpgradeInfoFromDisk env)
       (skipUpgradeHeights (ToIntSlice env (opt_get appOpts FlagUnsafeSkipUpgrades))))) (\<lambda>loader.
     bind (reading (\<lambda>_. must (NewReflectionService env))) (\<lambda>_.
     bind (reading (\<lambda>_. setAnteHandler (env_AccountKeeper env) (env_BankKeeper env) (env_FeeGrantKeeper env)
       (env_SigGasConsumer env) (env_IBCKeeper env) (env_SignModeHandler env) wasmConfig (env_wasm_key env))) (\<lambda>ante.
     bind (reading (\<lambda>_. register_snapshots (RegisterExtensions env))) (\<lambda>_.
     bind (reading (\<lambda>_. setPostHandler (NewPostHandler env))) (\<lambda>_.
     bind (load_latest B loadLatest) (\<lambda>_.
     ret \<lparr>built_encoding = encodingConfig, built_AnteHandler = ante, built_StoreLoader = loader, built_WasmOpts = app_wasmOpts wasmOpts,
       built_InvCheckPeriod = ToUint env (opt_get appOpts FlagInvCheckPeriod),
       built_SkipGenesisInvariants = ToBool env (opt_get appOpts FlagSkipGenesisInvariants)\<rparr>)))))))))"

text \<open>In the node the encoding configuration is made first, on the codecs \<open>s\<close> of the process.\<close>

definition with_encoding :: "('a, 'r) codec_lib \<Rightarrow> mod_name list \<Rightarrow> mod_name list \<Rightarrow> ('a, 'r) codec_store \<Rightarrow>
    'k build_env \<Rightarrow> 'k build_env" where
  "with_encoding L o1 o2 s env = env\<lparr>env_encoding := fst (MakeEncodingConfig L o1 o2 s)\<rparr>"

text \<open>The codecs of the application are those of the configuration.\<close>

definition LegacyAmino :: "'k built_app \<Rightarrow> nat" where "LegacyAmino app = ec_Amino (built_encoding app)"
definition AppCodec :: "'k built_app \<Rightarrow> codec" where "AppCodec app = ec_Marshaler (built_encoding app)"
definition InterfaceRegistry :: "'k built_app \<Rightarrow> nat" where "InterfaceRegistry app = ec_InterfaceRegistry (built_encoding app)"
definition app_TxConfig :: "'k built_app \<Rightarrow> tx_config" where "app_TxConfig app = ec_TxConfig (built_encoding app)"

text \<open>The default genesis of the basic modules, made with the codec of the application.\<close>

definition app_DefaultGenesis :: "(codec \<Rightarrow> mod_name list \<Rightarrow> (mod_name \<rightharpoonup> bytes)) \<Rightarrow> 'k built_app \<Rightarrow> (mod_name \<rightharpoonup> bytes)" where
  "app_DefaultGenesis DefaultGenesis app = DefaultGenesis (AppCodec app) ModuleBasics"

text \<open>The services of the SDK on the router of queries, with the registry that they resolve types in.\<close>

datatype sdk_service = TxService nat | TendermintService nat | NodeService

definition RegisterTxService :: "'k built_app \<Rightarrow> sdk_service list \<Rightarrow> sdk_service list" where
  "RegisterTxService app router = router @ [TxService (InterfaceRegistry app)]"

definition RegisterTendermintService :: "'k built_app \<Rightarrow> sdk_service list \<Rightarrow> sdk_service list" where
  "RegisterTendermintService app router = router @ [TendermintService (InterfaceRegistry app)]"

definition RegisterNodeService :: "'k built_app \<Rightarrow> sdk_service list \<Rightarrow> sdk_service list" where
  "RegisterNodeService app router = router @ [NodeService]"

definition LoadHeight :: "'s base_app \<Rightarrow> u64 \<Rightarrow> ('s, unit) call" where
  "LoadHeight B height = LoadVersion B height"

section \<open>The node's callbacks\<close>

definition newApp :: "'k build_env \<Rightarrow> 's base_app \<Rightarrow> AppOptions \<Rightarrow> ('s, 'k built_app) call" where
  "newApp env B appOpts = NewMeshApp env B True appOpts
     (if ToBool env (opt_get appOpts TelemetryEnabled) then [VMCacheMetrics] else [])"

text \<open>The home directory has to be there, as a text that is not empty.\<close>

definition home_path :: "AppOptions \<Rightarrow> string option" where
  "home_path appOpts = (case opt_get appOpts FlagHome of
     OptString s \<Rightarrow> if s = [] then None else Some s | _ \<Rightarrow> None)"

text \<open>A height of \<open>-1\<close> is the latest; \<open>export\<close> is \<open>ExportAppStateAndValidators\<close> of the application.\<close>

definition appExport :: "'k build_env \<Rightarrow> 's base_app \<Rightarrow>
    ('k built_app \<Rightarrow> bool \<Rightarrow> string list \<Rightarrow> string list \<Rightarrow> ('s, ExportedApp) call) \<Rightarrow>
    u64 \<Rightarrow> bool \<Rightarrow> string list \<Rightarrow> AppOptions \<Rightarrow> string list \<Rightarrow> ('s, ExportedApp) call" where
  "appExport env B export height forZeroHeight jailAllowedAddrs appOpts modulesToExport =
     (case home_path appOpts of
        None \<Rightarrow> fail (Errorf ''application home is not set'')
      | Some _ \<Rightarrow> (case appOpts of
          OtherOptions _ \<Rightarrow> fail (Errorf ''appOpts is not viper.Viper'')
        | Viper opts \<Rightarrow>
            bind (NewMeshApp env B (height = -1) (Viper (opts(FlagInvCheckPeriod := OptInt 1))) []) (\<lambda>wasmApp.
            bind (if height \<noteq> -1 then LoadHeight B height else ret ()) (\<lambda>_.
            export wasmApp forZeroHeight jailAllowedAddrs modulesToExport))))"

section \<open>Commands\<close>

text \<open>
  A command of a library by its constructor, one that is extended by subcommands, a command of its own with
  its aliases and subcommands, or those of all basic modules.
\<close>

datatype command =
    LibCommand string | Extended string "command list" | CommandGroup string "string list" "command list" | ModuleCommands string

definition genesisCommand :: "command list \<Rightarrow> command" where
  "genesisCommand cmds = Extended ''genutilcli.GenesisCoreCommand'' cmds"

definition queryCommand :: command where
  "queryCommand = CommandGroup ''query'' [''q'']
     [LibCommand ''authcmd.GetAccountCmd'', LibCommand ''rpc.ValidatorCommand'', LibCommand ''rpc.BlockCommand'',
      LibCommand ''authcmd.QueryTxsByEventsCmd'', LibCommand ''authcmd.QueryTxCmd'', ModuleCommands ''AddQueryCommands'']"

definition txCommand :: command where
  "txCommand = CommandGroup ''tx'' []
     [LibCommand ''authcmd.GetSignCommand'', LibCommand ''authcmd.GetSignBatchCommand'',
      LibCommand ''authcmd.GetMultiSignCommand'', LibCommand ''authcmd.GetMultiSignBatchCmd'',
      LibCommand ''authcmd.GetValidateSignaturesCommand'', LibCommand ''authcmd.GetBroadcastCommand'',
      LibCommand ''authcmd.GetEncodeCommand'', LibCommand ''authcmd.GetDecodeCommand'', LibCommand ''authcmd.GetAuxToFeeCommand'',
      ModuleCommands ''AddTxCommands'']"

definition addModuleInitFlags :: "string list" where
  "addModuleInitFlags = [''crisis'', ''wasm'']"

definition initRootCmd :: "command list" where
  "initRootCmd =
    [LibCommand ''genutilcli.InitCmd'', LibCommand ''debug.Cmd'', LibCommand ''config.Cmd'', LibCommand ''pruning.PruningCmd'',
     LibCommand ''server.AddCommands'',
     LibCommand ''rpc.StatusCommand'', genesisCommand [], queryCommand, txCommand, LibCommand ''keys.Commands'',
     LibCommand ''rosettaCmd.RosettaCommand'']"

text \<open>What runs before a command, on the client context; the last step gets template and configuration.\<close>

record ('x, 'f, 't) pre_run_env =
  ReadPersistentCommandFlags :: "'x \<Rightarrow> 'x res"
  ReadFromClientConfig :: "'x \<Rightarrow> 'x res"
  SetCmdClientContextHandler :: "'x \<Rightarrow> unit res"
  InterceptConfigsPreRunHandler :: "string \<Rightarrow> 'f \<Rightarrow> 't \<Rightarrow> unit res"

definition initTendermintConfig :: "'t \<Rightarrow> 't" where
  "initTendermintConfig DefaultConfig = DefaultConfig"

record 'w server_config =
  MinGasPrices :: string
  config_Wasm :: 'w

definition initAppConfig :: "'w server_config \<Rightarrow> 'w \<Rightarrow> string \<Rightarrow> string \<Rightarrow> string \<times> 'w server_config" where
  "initAppConfig srvCfg wasmConfig serverTemplate wasmTemplate =
     (serverTemplate @ wasmTemplate, srvCfg\<lparr>MinGasPrices := ''0stake'', config_Wasm := wasmConfig\<rparr>)"

definition PersistentPreRunE :: "('x, 'w server_config, 't) pre_run_env \<Rightarrow> string \<times> 'w server_config \<Rightarrow> 't \<Rightarrow> 'x \<Rightarrow> unit res" where
  "PersistentPreRunE E appConfig tmConfig initClientCtx =
     bindR (ReadPersistentCommandFlags E initClientCtx) (\<lambda>ctx.
     bindR (ReadFromClientConfig E ctx) (\<lambda>ctx'.
     bindR (SetCmdClientContextHandler E ctx') (\<lambda>_.
     InterceptConfigsPreRunHandler E (fst appConfig) (snd appConfig) tmConfig)))"

text \<open>The prefixes of addresses; those of the kinds are the SDK's.\<close>

definition Bech32Prefix :: string where "Bech32Prefix = ''mesh''"

record bech32_prefixes =
  AccAddr :: string
  AccPub :: string
  ValAddr :: string
  ValPub :: string
  ConsAddr :: string
  ConsPub :: string

definition bech32_config :: "string \<Rightarrow> string \<Rightarrow> string \<Rightarrow> string \<Rightarrow> bech32_prefixes" where
  "bech32_config PrefixPublic PrefixValidator PrefixOperator PrefixConsensus =
    \<lparr>AccAddr = Bech32Prefix,
     AccPub = Bech32Prefix @ PrefixPublic,
     ValAddr = Bech32Prefix @ PrefixValidator @ PrefixOperator,
     ValPub = Bech32Prefix @ PrefixValidator @ PrefixOperator @ PrefixPublic,
     ConsAddr = Bech32Prefix @ PrefixValidator @ PrefixConsensus,
     ConsPub = Bech32Prefix @ PrefixValidator @ PrefixConsensus @ PrefixPublic\<rparr>"

text \<open>Variables that a build may set; the home directory is below that of the environment.\<close>

definition NodeDir :: string where "NodeDir = ''.meshd''"

definition DefaultNodeHome :: "(string \<Rightarrow> string) \<Rightarrow> string" where
  "DefaultNodeHome ExpandEnv = ExpandEnv ''$HOME/'' @ NodeDir"

text \<open>
  The root command.  Its client context starts with the codecs of the encoding configuration; the standard
  input and the account retriever, which the libraries use, are left out.  The prefixes go to the global
  configuration of the SDK, which is sealed with them.
\<close>

record client_setup =
  cs_Codec :: codec
  cs_InterfaceRegistry :: nat
  cs_TxConfig :: tx_config
  cs_LegacyAmino :: nat
  cs_HomeDir :: string
  cs_Viper :: string

record root_command =
  root_prefixes :: bech32_prefixes
  root_PersistentPreRunE :: "unit res"
  root_commands :: "command list"

definition initClientCtx :: "EncodingConfig \<Rightarrow> string \<Rightarrow> client_setup" where
  "initClientCtx encodingConfig home =
    \<lparr>cs_Codec = ec_Marshaler encodingConfig, cs_InterfaceRegistry = ec_InterfaceRegistry encodingConfig,
     cs_TxConfig = ec_TxConfig encodingConfig, cs_LegacyAmino = ec_Amino encodingConfig,
     cs_HomeDir = home, cs_Viper = []\<rparr>"

definition NewRootCmd :: "('a, 'r) codec_lib \<Rightarrow> mod_name list \<Rightarrow> mod_name list \<Rightarrow> bech32_prefixes \<Rightarrow> string \<Rightarrow>
    (client_setup, 'w server_config, 't) pre_run_env \<Rightarrow> string \<times> 'w server_config \<Rightarrow> 't \<Rightarrow>
    (('a, 'r) codec_store, root_command \<times> EncodingConfig) call" where
  "NewRootCmd L o1 o2 prefixes home E appConfig tmConfig =
     bind (MakeEncodingConfig L o1 o2) (\<lambda>encodingConfig.
     ret (\<lparr>root_prefixes = prefixes,
           root_PersistentPreRunE = PersistentPreRunE E appConfig tmConfig (initClientCtx encodingConfig home),
           root_commands = initRootCmd\<rparr>, encodingConfig))"

section \<open>The program\<close>

text \<open>The exit code for the error that the root command returned; without one the program just ends.\<close>

datatype exec_error = ErrorCode int | OtherError err

definition main_exit :: "exec_error option \<Rightarrow> int" where
  "main_exit result = (case result of None \<Rightarrow> 0 | Some (ErrorCode code) \<Rightarrow> code | Some (OtherError _) \<Rightarrow> 1)"

text \<open>The default genesis is that of the basic modules; capabilities are announced as one text.\<close>

definition NewDefaultGenesisState :: "(mod_name list \<Rightarrow> (mod_name \<rightharpoonup> bytes)) \<Rightarrow> (mod_name \<rightharpoonup> bytes)" where
  "NewDefaultGenesisState DefaultGenesis = DefaultGenesis ModuleBasics"

definition AllCapabilities :: "string list" where
  "AllCapabilities =
    [''iterator'', ''staking'', ''stargate'', ''cosmwasm_1_1'', ''cosmwasm_1_2'', ''cosmwasm_1_3'', ''virtual_staking'']"

primrec join_commas :: "string list \<Rightarrow> string" where
  "join_commas [] = []"
| "join_commas (s # ss) = s @ (if ss = [] then [] else CHR '','' # join_commas ss)"

definition availableCapabilities :: string where
  "availableCapabilities = join_commas AllCapabilities"

text \<open>The routes of the API server, in their order; the swagger server may fail.\<close>

definition RegisterAPIRoutes :: "unit res \<Rightarrow> string list res" where
  "RegisterAPIRoutes swagger = bindR (must swagger) (\<lambda>_.
     Ok [''authtx'', ''tmservice'', ''nodeservice'', ''ModuleBasics''])"

end
