(* ===== verification/EncodingProps.thy ===== *)
theory EncodingProps
  imports Encoding "HOL-Library.Multiset"
begin

text \<open>
  What ends up in the codecs.  The documented behaviour of the registries is stated on what they know:
  the names that an amino codec has for types, and the implementations that an interface registry has.
  A codec refuses, with a panic, to register a type or a name a second time, and a registry a type that
  does not implement its interface or a type URL that stands for another type, so that the construction
  can fail; that it does so depends on what the modules register and not on the order of the visits.
\<close>

section \<open>Laws of the registries\<close>

type_synonym concretes = "(string \<times> string) list"

definition mesh_concretes :: concretes where
  "mesh_concretes = [(''MsgSetVirtualStakingMaxCap'', ''meshsecurity/MsgSetVirtualStakingMaxCap'')]"

text \<open>No type twice, and no name twice.\<close>

definition no_clash :: "concretes \<Rightarrow> bool" where
  "no_clash ts \<longleftrightarrow> distinct (map fst ts) \<and> distinct (map snd ts)"

text \<open>What can still be registered where \<open>K\<close> is known.\<close>

definition admissible :: "concretes \<Rightarrow> (string \<times> string) set \<Rightarrow> bool" where
  "admissible ts K \<longleftrightarrow> no_clash ts \<and> fst ` set ts \<inter> fst ` K = {} \<and> snd ` set ts \<inter> snd ` K = {}"

definition registers :: "('a \<Rightarrow> (string \<times> string) set) \<Rightarrow> concretes \<Rightarrow> ('a, unit) call \<Rightarrow> bool" where
  "registers known ts m \<longleftrightarrow>
     (\<forall>a. if admissible ts (known a) then \<exists>a'. m a = (Ok (), a') \<and> known a' = known a \<union> set ts
          else \<exists>p a'. m a = (Panic p, a'))"

text \<open>\<open>std\<close>, \<open>crypto\<close>, \<open>msgs\<close> and \<open>mods\<close> are the lists of what the other packages register.\<close>

definition amino_laws :: "('a, 'r) codec_lib \<Rightarrow> ('a \<Rightarrow> (string \<times> string) set) \<Rightarrow>
    concretes \<Rightarrow> concretes \<Rightarrow> concretes \<Rightarrow> (mod_name \<Rightarrow> concretes) \<Rightarrow> bool" where
  "amino_laws L known std crypto msgs mods \<longleftrightarrow>
     known (NewLegacyAmino L) = {} \<and> (\<forall>t n. registers known [(t, n)] (RegisterConcrete L t n)) \<and>
     registers known std (std_RegisterLegacyAminoCodec L) \<and> registers known crypto (RegisterCrypto L) \<and>
     registers known msgs (sdk_RegisterLegacyAminoCodec L) \<and>
     (\<forall>m. registers known (mods m) (other_RegisterLegacyAminoCodec L m))"

text \<open>
  An interface registry knows, for an interface and a type URL, the Go type that implements it.  A
  registration panics when a type does not implement its interface, or when the URL already stands
  for another type of it; the same type may be registered again.
\<close>

type_synonym impl = "string \<times> string \<times> string"

definition sound :: "(string \<Rightarrow> string \<Rightarrow> bool) \<Rightarrow> impl set \<Rightarrow> bool" where
  "sound implements es \<longleftrightarrow> (\<forall>i u t. (i, u, t) \<in> es \<longrightarrow> implements t i) \<and>
     (\<forall>i u t t'. (i, u, t) \<in> es \<and> (i, u, t') \<in> es \<longrightarrow> t = t')"

definition enters :: "(string \<Rightarrow> string \<Rightarrow> bool) \<Rightarrow> ('r \<Rightarrow> impl set) \<Rightarrow> impl set \<Rightarrow> ('r, unit) call \<Rightarrow> bool" where
  "enters implements impls es m \<longleftrightarrow> (\<forall>r. sound implements (impls r) \<longrightarrow>
     (if sound implements (impls r \<union> es) then \<exists>r'. m r = (Ok (), r') \<and> impls r' = impls r \<union> es
      else \<exists>p r'. m r = (Panic p, r')))"

text \<open>
  \<open>url\<close> is the type URL of a message, \<open>svc\<close> what the description of a service registers, and \<open>istd\<close>
  and \<open>imods\<close> are what the other packages register.
\<close>

definition registry_laws :: "('a, 'r) codec_lib \<Rightarrow> (string \<Rightarrow> string \<Rightarrow> bool) \<Rightarrow> ('r \<Rightarrow> impl set) \<Rightarrow> (string \<Rightarrow> string) \<Rightarrow>
    (service_desc \<Rightarrow> impl set) \<Rightarrow> impl set \<Rightarrow> (mod_name \<Rightarrow> impl set) \<Rightarrow> bool" where
  "registry_laws L implements impls url svc istd imods \<longleftrightarrow>
     impls (NewInterfaceRegistry L) = {} \<and>
     (\<forall>i ts. enters implements impls ((\<lambda>t. (i, url t, t)) ` set ts) (RegisterImplementations L i ts)) \<and>
     (\<forall>d. enters implements impls (svc d) (RegisterMsgServiceDesc L d)) \<and>
     enters implements impls istd (std_RegisterInterfaces L) \<and>
     (\<forall>m. enters implements impls (imods m) (other_RegisterInterfaces L m))"

section \<open>Registration in sequence\<close>

lemma admissible_append: "admissible (ts @ us) K \<longleftrightarrow> admissible ts K \<and> admissible us (K \<union> set ts)"
  by (simp add: admissible_def no_clash_def image_Un Int_Un_distrib Int_commute conj_ac)

lemma admissible_empty [simp]: "admissible ts {} = no_clash ts"
  by (simp add: admissible_def)

lemma no_clash_mset: "mset ts = mset us \<Longrightarrow> no_clash ts = no_clash us"
  using mset_eq_imp_distinct_iff [of "map fst ts" "map fst us"] mset_eq_imp_distinct_iff [of "map snd ts" "map snd us"]
  by (simp add: no_clash_def)

lemma registers_Ok: "registers known ts m \<Longrightarrow> admissible ts (known a) \<Longrightarrow>
    \<exists>a'. m a = (Ok (), a') \<and> known a' = known a \<union> set ts"
  unfolding registers_def by presburger

lemma registers_Panic: "registers known ts m \<Longrightarrow> \<not> admissible ts (known a) \<Longrightarrow> \<exists>p a'. m a = (Panic p, a')"
  unfolding registers_def by presburger

lemma registers_nil: "registers known [] (ret ())"
  by (simp add: registers_def admissible_def no_clash_def)

lemma registers_bind:
  assumes m: "registers known ts m" and n: "registers known us n"
  shows "registers known (ts @ us) (bind m (\<lambda>_. n))"
  unfolding registers_def
proof
  fix a
  show "if admissible (ts @ us) (known a)
          then \<exists>a'. bind m (\<lambda>_. n) a = (Ok (), a') \<and> known a' = known a \<union> set (ts @ us)
          else \<exists>p a'. bind m (\<lambda>_. n) a = (Panic p, a')"
  proof (cases "admissible ts (known a)")
    case True
    then obtain b where b: "m a = (Ok (), b)" "known b = known a \<union> set ts"
      using registers_Ok [OF m] by blast
    then show ?thesis
      using registers_Ok [OF n, of b] registers_Panic [OF n, of b] True
      by (simp add: admissible_append bind_apply Un_assoc)
  next
    case False
    then show ?thesis
      using registers_Panic [OF m False] by (auto simp: bind_apply admissible_append)
  qed
qed

lemma registers_for_each:
  "(\<And>x. x \<in> set xs \<Longrightarrow> registers known (f x) (m x)) \<Longrightarrow> registers known (concat (map f xs)) (for_each m xs)"
  by (induction xs) (simp_all add: registers_nil registers_bind)

text \<open>The interfaces: their registrations add up whatever the order.\<close>

lemma sound_subset: "sound implements es \<Longrightarrow> fs \<subseteq> es \<Longrightarrow> sound implements fs"
  unfolding sound_def by blast

lemma enters_Ok: "enters implements impls es m \<Longrightarrow> sound implements (impls r \<union> es) \<Longrightarrow>
    \<exists>r'. m r = (Ok (), r') \<and> impls r' = impls r \<union> es"
  unfolding enters_def using sound_subset [of implements "impls r \<union> es" "impls r"] by auto

lemma enters_Panic: "enters implements impls es m \<Longrightarrow> sound implements (impls r) \<Longrightarrow>
    \<not> sound implements (impls r \<union> es) \<Longrightarrow> \<exists>p r'. m r = (Panic p, r')"
  unfolding enters_def by presburger

lemma enters_nil: "enters implements impls {} (ret ())"
  by (simp add: enters_def)

lemma enters_bind:
  assumes m: "enters implements impls es m" and n: "enters implements impls fs n"
  shows "enters implements impls (es \<union> fs) (bind m (\<lambda>_. n))"
  unfolding enters_def
proof (intro allI impI)
  fix r assume r: "sound implements (impls r)"
  show "if sound implements (impls r \<union> (es \<union> fs))
      then \<exists>r'. bind m (\<lambda>_. n) r = (Ok (), r') \<and> impls r' = impls r \<union> (es \<union> fs)
      else \<exists>p r'. bind m (\<lambda>_. n) r = (Panic p, r')"
  proof (cases "sound implements (impls r \<union> es)")
    case True
    then obtain q where q: "m r = (Ok (), q)" "impls q = impls r \<union> es"
      using enters_Ok [OF m] by blast
    then show ?thesis
      using enters_Ok [OF n, of q] enters_Panic [OF n, of q] True by (simp add: bind_apply Un_assoc)
  next
    case False
    then have "\<not> sound implements (impls r \<union> (es \<union> fs))"
      using sound_subset [of implements "impls r \<union> (es \<union> fs)" "impls r \<union> es"] by auto
    with enters_Panic [OF m r False] show ?thesis
      by (auto simp: bind_apply)
  qed
qed

lemma enters_for_each:
  "(\<And>x. x \<in> set xs \<Longrightarrow> enters implements impls (f x) (m x)) \<Longrightarrow>
     enters implements impls (\<Union> (f ` set xs)) (for_each m xs)"
  by (induction xs) (simp_all add: enters_nil enters_bind)

section \<open>The configuration\<close>

definition basic_concretes :: "(mod_name \<Rightarrow> concretes) \<Rightarrow> mod_name \<Rightarrow> concretes" where
  "basic_concretes mods m = (if m = meshsectypes then mesh_concretes else mods m)"

lemma module_registers:
  "amino_laws L known std crypto msgs mods \<Longrightarrow>
   registers known (basic_concretes mods m) (module_RegisterLegacyAminoCodec L m)"
  by (simp add: amino_laws_def basic_concretes_def module_RegisterLegacyAminoCodec_def mesh_concretes_def
      basic_RegisterLegacyAminoCodec_def RegisterLegacyAminoCodec_def)

definition mesh_impls :: "(string \<Rightarrow> string) \<Rightarrow> (service_desc \<Rightarrow> impl set) \<Rightarrow> impl set" where
  "mesh_impls url svc =
     insert (''sdk.Msg'', url ''MsgSetVirtualStakingMaxCap'', ''MsgSetVirtualStakingMaxCap'') (svc Msg_serviceDesc)"

definition basic_impls :: "(string \<Rightarrow> string) \<Rightarrow> (service_desc \<Rightarrow> impl set) \<Rightarrow> (mod_name \<Rightarrow> impl set) \<Rightarrow> mod_name \<Rightarrow> impl set" where
  "basic_impls url svc imods m = (if m = meshsectypes then mesh_impls url svc else imods m)"

lemma module_enters:
  assumes "registry_laws L implements impls url svc istd imods"
  shows "enters implements impls (basic_impls url svc imods m) (module_RegisterInterfaces L m)"
proof -
  have "enters implements impls ((\<lambda>t. (''sdk.Msg'', url t, t)) ` set [''MsgSetVirtualStakingMaxCap''])
      (RegisterImplementations L ''sdk.Msg'' [''MsgSetVirtualStakingMaxCap''])"
    and "enters implements impls (svc Msg_serviceDesc) (RegisterMsgServiceDesc L Msg_serviceDesc)"
    using assms unfolding registry_laws_def by blast+
  from enters_bind [OF this] have "enters implements impls (mesh_impls url svc) (RegisterInterfaces L)"
    by (simp add: RegisterInterfaces_def mesh_impls_def)
  with assms show ?thesis
    by (simp add: module_RegisterInterfaces_def basic_RegisterInterfaces_def basic_impls_def registry_laws_def)
qed

lemma registers_whole:
  assumes laws: "amino_laws L known std crypto msgs mods"
  shows "registers known (std @ concat (map (basic_concretes mods) o1))
     (bind (std_RegisterLegacyAminoCodec L) (\<lambda>_. for_each (module_RegisterLegacyAminoCodec L) o1))"
  using laws by (intro registers_bind registers_for_each module_registers) (auto simp: amino_laws_def)

lemma enters_whole:
  assumes laws: "registry_laws L implements impls url svc istd imods"
  shows "enters implements impls (istd \<union> (\<Union>m \<in> set o2. basic_impls url svc imods m))
     (bind (std_RegisterInterfaces L) (\<lambda>_. for_each (module_RegisterInterfaces L) o2))"
  using laws by (intro enters_bind enters_for_each module_enters) (auto simp: registry_laws_def)

text \<open>
  The configuration on a store: a new codec and a new registry, each with its registrations; the two do
  not touch each other, so that the registrations of one kind can be taken together.
\<close>

lemma MakeEncodingConfig_apply:
  fixes s :: "('a, 'r) codec_store"
  defines "cfg \<equiv> \<lparr>ec_InterfaceRegistry = length (registries s), ec_Marshaler = ProtoCodec (length (registries s)),
     ec_TxConfig = NewTxConfig (ProtoCodec (length (registries s))), ec_Amino = length (aminos s)\<rparr>"
  assumes interfaces: "bind (std_RegisterInterfaces L) (\<lambda>_. for_each (module_RegisterInterfaces L) o2)
       (NewInterfaceRegistry L) = (y, r)"
    and codec: "bind (std_RegisterLegacyAminoCodec L) (\<lambda>_. for_each (module_RegisterLegacyAminoCodec L) o1)
       (NewLegacyAmino L) = (x, a)" and failed: "\<And>e. x \<noteq> Err e" "\<And>e. y \<noteq> Err e"
  shows "if is_ok x \<and> is_ok y then MakeEncodingConfig L o1 o2 s
        = (Ok cfg, \<lparr>aminos = aminos s @ [a], registries = registries s @ [r]\<rparr>)
    else \<exists>p t. MakeEncodingConfig L o1 o2 s = (Panic p, t)"
proof -
  obtain y1 r1 where r1: "std_RegisterInterfaces L (NewInterfaceRegistry L) = (y1, r1)"
    by fastforce
  obtain x1 a1 where a1: "std_RegisterLegacyAminoCodec L (NewLegacyAmino L) = (x1, a1)"
    by fastforce
  note run = MakeEncodingConfig_def params_MakeEncodingConfig_def new_amino_def new_registry_def
    on_amino_def on_registry_def bind_apply cfg_def Let_def r1 a1
  consider p where "x1 = Panic p" | p where "x1 = Ok ()" "y1 = Panic p" | "x1 = Ok ()" "y1 = Ok ()"
    using failed codec interfaces by (cases x1; cases y1) (auto simp: bind_apply r1 a1)
  then show ?thesis
  proof cases
    case 1
    then show ?thesis using codec by (auto simp: run)
  next
    case 2
    then show ?thesis using interfaces by (auto simp: run)
  next
    case 3
    then have "for_each (module_RegisterInterfaces L) o2 r1 = (y, r)"
        "for_each (module_RegisterLegacyAminoCodec L) o1 a1 = (x, a)"
      using interfaces codec by (simp_all add: bind_apply r1 a1)
    with 3 failed show ?thesis
      by (cases x; cases y) (auto simp: run)
  qed
qed

lemma mset_concat_map: "mset xs = mset ys \<Longrightarrow> mset (concat (map f xs)) = mset (concat (map f ys))"
proof -
  have "mset (concat (map f zs)) = sum_mset (image_mset (\<lambda>x. mset (f x)) (mset zs))" for zs
    by (induction zs) simp_all
  then show "mset xs = mset ys \<Longrightarrow> ?thesis" by simp
qed

lemma encoding_config_outcome:
  assumes laws: "amino_laws L known std crypto msgs mods" "registry_laws L implements impls url svc istd imods"
    and o1: "mset o1 = mset ModuleBasics" and o2: "mset o2 = mset ModuleBasics"
  defines "all \<equiv> std @ concat (map (basic_concretes mods) ModuleBasics)"
    and "ifaces \<equiv> istd \<union> (\<Union>m \<in> set ModuleBasics. basic_impls url svc imods m)"
  shows "if no_clash all \<and> sound implements ifaces
    then \<exists>a r. MakeEncodingConfig L o1 o2 s =
        (Ok \<lparr>ec_InterfaceRegistry = length (registries s), ec_Marshaler = ProtoCodec (length (registries s)),
          ec_TxConfig = NewTxConfig (ProtoCodec (length (registries s))), ec_Amino = length (aminos s)\<rparr>,
         \<lparr>aminos = aminos s @ [a], registries = registries s @ [r]\<rparr>) \<and>
       known a = set all \<and> impls r = ifaces
    else \<exists>p t. MakeEncodingConfig L o1 o2 s = (Panic p, t)"
proof -
  let ?all = "\<lambda>o1. std @ concat (map (basic_concretes mods) o1)"
  have new: "known (NewLegacyAmino L) = {}" "impls (NewInterfaceRegistry L) = {}"
    using laws by (simp_all add: amino_laws_def registry_laws_def)
  have same: "mset (?all o1) = mset all"
    using mset_concat_map [OF o1] by (simp add: all_def)
  have "set o2 = set ModuleBasics"
    using o2 by (rule mset_eq_setD)
  then have whole: "enters implements impls ifaces
      (bind (std_RegisterInterfaces L) (\<lambda>_. for_each (module_RegisterInterfaces L) o2))"
    using enters_whole [OF laws(2), of o2] by (simp add: ifaces_def)
  obtain y r where r: "bind (std_RegisterInterfaces L) (\<lambda>_. for_each (module_RegisterInterfaces L) o2)
      (NewInterfaceRegistry L) = (y, r)"
    by fastforce
  obtain x a where a: "bind (std_RegisterLegacyAminoCodec L) (\<lambda>_. for_each (module_RegisterLegacyAminoCodec L) o1)
      (NewLegacyAmino L) = (x, a)"
    by fastforce
  have y: "if sound implements ifaces then y = Ok () \<and> impls r = ifaces else \<exists>p. y = Panic p"
    using enters_Ok [OF whole, of "NewInterfaceRegistry L"] enters_Panic [OF whole, of "NewInterfaceRegistry L"] r
    by (auto simp: new sound_def)
  have x: "if no_clash all then x = Ok () \<and> known a = set all else \<exists>p. x = Panic p"
    using registers_Ok [OF registers_whole [OF laws(1), of o1], of "NewLegacyAmino L"]
      registers_Panic [OF registers_whole [OF laws(1), of o1], of "NewLegacyAmino L"] a
      no_clash_mset [OF same] mset_eq_setD [OF same]
    by (auto simp: new)
  show ?thesis
    using MakeEncodingConfig_apply [OF r a] x y by (auto split: if_splits)
qed

text \<open>C34.  The demo chain's codecs do not depend on the order in which Go visits the map of modules.  If the
  types and names that the modules register with amino are all different, every type that they register
  with the registry implements its interface, and no type URL stands for two types, the configuration
  is built, on a codec and a registry of its own: both know exactly what was registered, the module's
  message among it; marshaler and transaction configuration use the registry that has got the message
  as an \<open>sdk.Msg\<close>, though it was registered after they had been made; and codecs made before, such as
  that of the package, are as they were.  Otherwise the construction panics, in every order.\<close>
theorem encoding_config_registers:
  assumes laws: "amino_laws L known std crypto msgs mods" "registry_laws L implements impls url svc istd imods"
    and o1: "mset o1 = mset ModuleBasics" and o2: "mset o2 = mset ModuleBasics"
  shows "if no_clash (std @ concat (map (basic_concretes mods) ModuleBasics)) \<and>
      sound implements (istd \<union> (\<Union>m \<in> set ModuleBasics. basic_impls url svc imods m))
    then \<exists>cfg t a r. MakeEncodingConfig L o1 o2 s = (Ok cfg, t) \<and>
       aminos t = aminos s @ [a] \<and> registries t = registries s @ [r] \<and> ec_Amino cfg = length (aminos s) \<and>
       {ec_InterfaceRegistry cfg, codec_registry (ec_Marshaler cfg), codec_registry (tx_codec (ec_TxConfig cfg))}
         = {length (registries s)} \<and>
       known a = set (std @ concat (map (basic_concretes mods) ModuleBasics)) \<and>
       (''MsgSetVirtualStakingMaxCap'', ''meshsecurity/MsgSetVirtualStakingMaxCap'') \<in> known a \<and>
       impls r = istd \<union> (\<Union>m \<in> set ModuleBasics. basic_impls url svc imods m) \<and>
       (''sdk.Msg'', url ''MsgSetVirtualStakingMaxCap'', ''MsgSetVirtualStakingMaxCap'') \<in> impls r \<and>
       svc Msg_serviceDesc \<subseteq> impls r
    else \<exists>p t. MakeEncodingConfig L o1 o2 s = (Panic p, t)"
proof -
  let ?all = "std @ concat (map (basic_concretes mods) ModuleBasics)"
  let ?ifaces = "istd \<union> (\<Union>m \<in> set ModuleBasics. basic_impls url svc imods m)"
  have "(''MsgSetVirtualStakingMaxCap'', ''meshsecurity/MsgSetVirtualStakingMaxCap'') \<in> set ?all"
    by (auto simp: ModuleBasics_def basic_concretes_def mesh_concretes_def)
  moreover have "mesh_impls url svc \<subseteq> ?ifaces"
    by (auto simp: ModuleBasics_def basic_impls_def)
  ultimately show ?thesis
    using encoding_config_outcome [OF assms, of s]
    by (cases "no_clash ?all \<and> sound implements ?ifaces") (auto simp: mesh_impls_def)
qed

text \<open>
  An instance: codecs as lists of what they know, checked as each entry is added; the bank module
  registers a type of its own.
\<close>

definition list_RegisterConcrete :: "string \<Rightarrow> string \<Rightarrow> ((string \<times> string) list, unit) call" where
  "list_RegisterConcrete t n a =
     (if t \<in> fst ` set a \<or> n \<in> snd ` set a then (Panic ''registered'', a) else (Ok (), (t, n) # a))"

definition list_registers :: "concretes \<Rightarrow> ((string \<times> string) list, unit) call" where
  "list_registers = for_each (\<lambda>(t, n). list_RegisterConcrete t n)"

definition demo_mods :: "mod_name \<Rightarrow> concretes" where
  "demo_mods m = (if m = banktypes then [(''MsgSend'', ''cosmos-sdk/MsgSend'')] else [])"

definition list_RegisterImplementations :: "impl list \<Rightarrow> (impl list, unit) call" where
  "list_RegisterImplementations = for_each (\<lambda>(i, u, t) r.
     if t = ''Coin'' \<or> (\<exists>e \<in> set r. fst e = i \<and> fst (snd e) = u \<and> snd (snd e) \<noteq> t) then (Panic ''registered'', r)
     else (Ok (), (i, u, t) # r))"

definition demo_service :: "service_desc \<Rightarrow> impl list" where
  "demo_service d = [(''sdk.Msg'', ''/MsgSetVirtualStakingMaxCap'', ''MsgSetVirtualStakingMaxCap''),
     (''tx.MsgResponse'', ''/MsgSetVirtualStakingMaxCapResponse'', ''MsgSetVirtualStakingMaxCapResponse'')]"

definition demo_codecs :: "((string \<times> string) list, impl list) codec_lib" where
  "demo_codecs = \<lparr>NewLegacyAmino = [], NewInterfaceRegistry = [], RegisterConcrete = list_RegisterConcrete,
     RegisterImplementations = (\<lambda>i ts. list_RegisterImplementations (map (\<lambda>t. (i, CHR ''/'' # t, t)) ts)),
     RegisterMsgServiceDesc = (\<lambda>d. list_RegisterImplementations (demo_service d)), RegisterCrypto = list_registers [], sdk_RegisterLegacyAminoCodec = list_registers [],
     std_RegisterLegacyAminoCodec = list_registers [(''StdTx'', ''cosmos-sdk/StdTx'')], std_RegisterInterfaces = ret (),
     other_RegisterLegacyAminoCodec = (\<lambda>m. list_registers (demo_mods m)), other_RegisterInterfaces = (\<lambda>_. ret ()),
     amino_MarshalJSON = (\<lambda>_ _. Ok []), SortJSON = Ok\<rparr>"

lemma list_one: "registers set [(t, n)] (list_RegisterConcrete t n)"
  by (auto simp: registers_def admissible_def no_clash_def list_RegisterConcrete_def)

lemma list_many: "registers set ts (list_registers ts)"
proof -
  have "registers set (concat (map (\<lambda>e. [e]) ts)) (list_registers ts)"
    unfolding list_registers_def by (rule registers_for_each) (auto simp: list_one)
  then show ?thesis by (simp add: concat_map_singleton)
qed

lemma sound_insert: "sound implements (es \<union> {e}) \<longleftrightarrow> sound implements es \<and> implements (snd (snd e)) (fst e) \<and>
    (\<forall>f \<in> es. fst f = fst e \<and> fst (snd f) = fst (snd e) \<longrightarrow> snd (snd f) = snd (snd e))"
proof -
  obtain i u t where e: "e = (i, u, t)"
    by (cases e)
  show ?thesis
    unfolding e sound_def Ball_def split_paired_All fst_conv snd_conv Un_iff singleton_iff prod.inject by blast
qed

lemma list_enters: "enters (\<lambda>t i. t \<noteq> ''Coin'') set (set es) (list_RegisterImplementations es)"
proof -
  have one: "enters (\<lambda>t i. t \<noteq> ''Coin'') set {e} (\<lambda>r. case e of (i, u, t) \<Rightarrow>
      if t = ''Coin'' \<or> (\<exists>e \<in> set r. fst e = i \<and> fst (snd e) = u \<and> snd (snd e) \<noteq> t) then (Panic ''registered'', r)
      else (Ok (), (i, u, t) # r))" for e
  proof -
    obtain i u t where e: "e = (i, u, t)"
      by (cases e)
    have "sound (\<lambda>t i. t \<noteq> ''Coin'') (set r \<union> {e}) \<longleftrightarrow>
        \<not> (t = ''Coin'' \<or> (\<exists>e \<in> set r. fst e = i \<and> fst (snd e) = u \<and> snd (snd e) \<noteq> t))"
      if "sound (\<lambda>t i. t \<noteq> ''Coin'') (set r)" for r
      unfolding sound_insert using that by (force simp: e)
    then show ?thesis
      unfolding enters_def by (intro allI impI) (auto simp: e)
  qed
  have "enters (\<lambda>t i. t \<noteq> ''Coin'') set (\<Union> ((\<lambda>e. {e}) ` set es)) (list_RegisterImplementations es)"
    unfolding list_RegisterImplementations_def
    by (rule enters_for_each) (use one in \<open>simp add: case_prod_beta\<close>)
  then show ?thesis by simp
qed

lemma demo_amino_laws: "amino_laws demo_codecs set [(''StdTx'', ''cosmos-sdk/StdTx'')] [] [] demo_mods"
  by (auto simp: amino_laws_def demo_codecs_def list_one list_many)

lemma demo_registry_laws:
  "registry_laws demo_codecs (\<lambda>t i. t \<noteq> ''Coin'') set (\<lambda>t. CHR ''/'' # t) (\<lambda>d. set (demo_service d)) {} (\<lambda>_. {})"
  using list_enters [of "map (\<lambda>t. (i, CHR ''/'' # t, t)) ts" for i ts] list_enters
  by (simp add: registry_laws_def demo_codecs_def enters_nil)

theorem encoding_config_registers_witness:
  "\<exists>cfg t. MakeEncodingConfig demo_codecs ModuleBasics (rev ModuleBasics) \<lparr>aminos = [[]], registries = []\<rparr> = (Ok cfg, t) \<and>
     ec_Amino cfg = 1 \<and> aminos t ! 0 = [] \<and>
     (''sdk.Msg'', ''/MsgSetVirtualStakingMaxCap'', ''MsgSetVirtualStakingMaxCap'')
       \<in> set (registries t ! codec_registry (tx_codec (ec_TxConfig cfg)))"
proof -
  have "no_clash ([(''StdTx'', ''cosmos-sdk/StdTx'')] @ concat (map (basic_concretes demo_mods) ModuleBasics))"
    by (simp add: ModuleBasics_def basic_concretes_def demo_mods_def mesh_concretes_def no_clash_def)
  moreover have "sound (\<lambda>t i. t \<noteq> ''Coin'') ({} \<union> (\<Union>m \<in> set ModuleBasics.
      basic_impls (\<lambda>t. CHR ''/'' # t) (\<lambda>d. set (demo_service d)) (\<lambda>_. {}) m))"
    by (auto simp: sound_def basic_impls_def mesh_impls_def demo_service_def split: if_splits)
  ultimately show ?thesis
    using encoding_config_registers [OF demo_amino_laws demo_registry_laws, of ModuleBasics "rev ModuleBasics"
        "\<lparr>aminos = [[]], registries = []\<rparr>"]
    by auto
qed

text \<open>The codec of the package knows its message, in the same way.\<close>

lemma on_amino_new: "m a = (r, b) \<Longrightarrow>
    on_amino (length (aminos s)) m (s\<lparr>aminos := aminos s @ [a]\<rparr>) = (r, s\<lparr>aminos := aminos s @ [b]\<rparr>)"
  by (simp add: on_amino_def)

lemma package_codec:
  assumes laws: "amino_laws L known std crypto msgs mods" and clash: "no_clash (mesh_concretes @ crypto @ msgs)"
  shows "\<exists>a. types_init L s = (Ok (length (aminos s)), s\<lparr>aminos := aminos s @ [a]\<rparr>) \<and>
     known a = set (mesh_concretes @ crypto @ msgs)"
proof -
  have all: "registers known (mesh_concretes @ crypto @ msgs)
      (bind (RegisterLegacyAminoCodec L) (\<lambda>_. bind (RegisterCrypto L) (\<lambda>_. sdk_RegisterLegacyAminoCodec L)))"
    using laws by (intro registers_bind) (simp_all add: amino_laws_def RegisterLegacyAminoCodec_def mesh_concretes_def)
  have new: "known (NewLegacyAmino L) = {}"
    using laws by (simp add: amino_laws_def)
  show ?thesis
    using registers_Ok [OF all, of "NewLegacyAmino L"] clash
    by (auto simp: new types_init_def new_amino_def bind_eq_Ok bind_apply on_amino_new split: prod.splits res.splits)
qed

end
