(* ===== verification/NodeProps.thy ===== *)
theory NodeProps
  imports Node EncodingProps
begin

text \<open>
  The properties of the node: the parts of the application are there before they are used and share no
  store, and what the export command needs to succeed.
\<close>

section \<open>Wiring\<close>

lemmas all_steps = build_steps_def base_steps_def scoped_steps_def mesh_steps_def ibc_steps_def stack_steps_def
  step_with_subspace_def step_def

text \<open>
  Every part of the application is given only parts that are built before it, except that the
  module's keeper gets the address of wasmd's keeper, which is built later; no part is built twice.  Each
  mounted store goes to exactly one keeper, every subspace that is asked for exists, and packets of
  every route go through the fee middleware to a module with a capability of its own.
\<close>
theorem keeper_wiring:
  "wired [] build_steps \<and>
   map (\<lambda>s. (builds s, address_of s)) (filter (\<lambda>s. address_of s \<noteq> []) build_steps) = [(MeshSecKeeper, [WasmKeeper_part])] \<and>
   WasmKeeper_part \<in> builds ` set build_steps \<and>
   mset (concat (map key_of build_steps)) = mset kv_store_keys \<and>
   mset (concat (map tkey_of build_steps)) = mset transient_store_keys \<and>
   mset (concat (map memkey_of build_steps)) = mset memory_store_keys \<and>
   list_all (\<lambda>n. GetSubspace fresh_subspaces n \<noteq> None) (module_subspaces @ concat (map subspace_of build_steps)) \<and>
   list_all (\<lambda>(n, stack). ScopeToModule n \<in> builds ` set build_steps \<and> (\<exists>m. stack = FeeMiddleware m)) ibcRouter"
proof (intro conjI)
  show "wired [] build_steps"
    by (simp add: all_steps)
  show "map (\<lambda>s. (builds s, address_of s)) (filter (\<lambda>s. address_of s \<noteq> []) build_steps) = [(MeshSecKeeper, [WasmKeeper_part])]"
    by (simp add: all_steps)
  show "WasmKeeper_part \<in> builds ` set build_steps"
    by (simp add: all_steps)
  have "distinct (concat (map key_of build_steps))" "distinct kv_store_keys"
    by (simp_all add: all_steps kv_store_keys_def)
  moreover have "set (concat (map key_of build_steps)) = set kv_store_keys"
    by (auto simp: all_steps kv_store_keys_def)
  ultimately show "mset (concat (map key_of build_steps)) = mset kv_store_keys"
    by (simp add: set_eq_iff_mset_eq_distinct [symmetric])
  show "mset (concat (map tkey_of build_steps)) = mset transient_store_keys"
    by (simp add: all_steps transient_store_keys_def)
  show "mset (concat (map memkey_of build_steps)) = mset memory_store_keys"
    by (simp add: all_steps memory_store_keys_def)
  show "list_all (\<lambda>n. GetSubspace fresh_subspaces n \<noteq> None) (module_subspaces @ concat (map subspace_of build_steps))"
    by (simp add: all_steps module_subspaces_def GetSubspace_def fresh_subspaces_def initParamsKeeper_def)
  show "list_all (\<lambda>(n, stack). ScopeToModule n \<in> builds ` set build_steps \<and> (\<exists>m. stack = FeeMiddleware m)) ibcRouter"
    by (simp add: all_steps ibcRouter_def transferStack_def wasmStack_def icaControllerStack_def icaHostStack_def)
qed

section \<open>Building and exporting\<close>

lemma skipUpgradeHeights: "skipUpgradeHeights hs = (\<lambda>h. h \<in> set hs)"
proof
  fix h
  have "fold (\<lambda>h m. m(h := True)) hs m h \<longleftrightarrow> h \<in> set hs \<or> m h" for m
    by (induction hs arbitrary: m) auto
  then show "skipUpgradeHeights hs h \<longleftrightarrow> h \<in> set hs"
    by (simp add: skipUpgradeHeights_def)
qed

text \<open>
  The application that is built, by its fields: the libraries have to do their part, and the ante handler
  is never what is missing.
\<close>

definition built :: "'k build_env \<Rightarrow> AppOptions \<Rightarrow> wasm_option list \<Rightarrow> 'k built_app \<Rightarrow> bool" where
  "built env appOpts wasmOpts app \<longleftrightarrow>
     env_encoding env = Ok (built_encoding app) \<and>
     LoadStreamingServices env appOpts = Ok () \<and> NewReflectionService env = Ok () \<and>
     RegisterExtensions env \<in> {None, Some (Ok ())} \<and> NewPostHandler env = Ok () \<and>
     (\<exists>config. ReadWasmConfig env appOpts = Ok config \<and>
       Ok (built_AnteHandler app) = setAnteHandler (env_AccountKeeper env) (env_BankKeeper env) (env_FeeGrantKeeper env)
         (env_SigGasConsumer env) (env_IBCKeeper env) (env_SignModeHandler env) config (env_wasm_key env)) \<and>
     (\<exists>name height. ReadUpgradeInfoFromDisk env = Ok (name, height) \<and>
       built_StoreLoader app = (if name = UpgradeName \<and> height \<notin> set (ToIntSlice env (opt_get appOpts FlagUnsafeSkipUpgrades))
         then Some (height, [consensusparamtypes, crisistypes]) else None)) \<and>
     built_WasmOpts app = wasmOpts @ [MessageHandlerDecorator, QueryHandlerDecorator] \<and>
     built_InvCheckPeriod app = ToUint env (opt_get appOpts FlagInvCheckPeriod) \<and>
     built_SkipGenesisInvariants app = ToBool env (opt_get appOpts FlagSkipGenesisInvariants)"

lemma any_unit: "(\<exists>x. P x) \<longleftrightarrow> P ()"
  by (metis (full_types) unit.exhaust)

lemma register_snapshots_Ok: "register_snapshots r = Ok () \<longleftrightarrow> r \<in> {None, Some (Ok ())}"
  by (auto simp: register_snapshots_def must_eq_Ok split: option.split)

lemma store_upgrades_Ok:
  "store_upgrades r skipped = Ok loader \<longleftrightarrow> (\<exists>name height. r = Ok (name, height) \<and>
     loader = (if name = UpgradeName \<and> \<not> skipped height then Some (height, [consensusparamtypes, crisistypes]) else None))"
  by (auto simp: store_upgrades_def bindR_eq_Ok must_eq_Ok)

lemma NewMeshApp_Ok:
  "NewMeshApp env B loadLatest appOpts wasmOpts s = (Ok app, t) \<longleftrightarrow>
     built env appOpts wasmOpts app \<and> load_latest B loadLatest s = (Ok (), t)"
proof (cases app)
  case (fields encoding ante loader opts period skip)
  have ante: "Ok ante = r \<longleftrightarrow> r = Ok ante" for r
    by auto
  show ?thesis
    unfolding fields built_def NewMeshApp_def built_app.simps built_app.iffs bind_eq_Ok reading_apply ret_apply ante any_unit
      must_eq_Ok register_snapshots_Ok setPostHandler_def store_upgrades_Ok skipUpgradeHeights app_wasmOpts_def prod.inject res.inject
    by auto
qed

text \<open>
  The codecs of an application that was built on the configuration of the node: one new codec and one new
  registry, which marshaler and transactions share.
\<close>

lemma built_codecs:
  assumes app: "built (with_encoding L o1 o2 s env) appOpts wasmOpts app"
    and laws: "amino_laws L known std crypto msgs mods" "registry_laws L implements impls url svc istd imods"
    and orders: "mset o1 = mset ModuleBasics" "mset o2 = mset ModuleBasics"
  shows "LegacyAmino app = length (aminos s) \<and> InterfaceRegistry app = length (registries s) \<and>
     AppCodec app = ProtoCodec (InterfaceRegistry app) \<and> app_TxConfig app = NewTxConfig (AppCodec app)"
proof -
  have "fst (MakeEncodingConfig L o1 o2 s) = Ok (built_encoding app)"
    using app by (simp add: built_def with_encoding_def)
  then have "built_encoding app = \<lparr>ec_InterfaceRegistry = length (registries s),
      ec_Marshaler = ProtoCodec (length (registries s)),
      ec_TxConfig = NewTxConfig (ProtoCodec (length (registries s))), ec_Amino = length (aminos s)\<rparr>"
    using encoding_config_outcome [OF laws orders, of s] by (auto split: if_splits)
  then show ?thesis
    by (simp add: LegacyAmino_def InterfaceRegistry_def AppCodec_def app_TxConfig_def)
qed

lemma or_panic_eq_Ok: "or_panic m s = (Ok x, t) \<longleftrightarrow> m s = (Ok x, t)"
  by (auto simp: or_panic_def bind_apply attempt_apply split: prod.split res.split)

lemma load_latest_Ok:
  "load_latest B l s = (Ok (), t) \<longleftrightarrow> (if l then \<exists>s'. LoadLatestVersion B s = (Ok (), s') \<and> InitializePinnedCodes B s' = (Ok (), t)
     else s = t)"
  by (simp add: load_latest_def bind_eq_Ok or_panic_eq_Ok any_unit)

lemma home_path_Some: "home_path appOpts = Some h \<longleftrightarrow> opt_get appOpts FlagHome = OptString h \<and> h \<noteq> []"
  by (auto simp: home_path_def split: opt_value.split)

text \<open>
  When the export command succeeds, and with what: the options have to come from viper and name a
  home; the application is then built with an invariant check in every block, whatever the options
  say; the state is the latest, with its pinned codes, for a height of \<open>-1\<close>, and otherwise that of
  the height; and the result is what the application exports from that state.
\<close>
theorem export_command:
  "appExport env B export height zero jail appOpts ms s = (Ok x, d) \<longleftrightarrow>
    (\<exists>opts home app t. appOpts = Viper opts \<and> opts FlagHome = OptString home \<and> home \<noteq> [] \<and>
      built env (Viper (opts(FlagInvCheckPeriod := OptInt 1))) [] app \<and>
      (if height = - 1 then \<exists>s'. LoadLatestVersion B s = (Ok (), s') \<and> InitializePinnedCodes B s' = (Ok (), t)
       else LoadVersion B height s = (Ok (), t)) \<and>
      export app zero jail ms t = (Ok x, d))"
proof (cases appOpts)
  case (Viper opts)
  have home: "home_path (Viper opts) = None \<or> (\<exists>h. opts FlagHome = OptString h \<and> h \<noteq> [] \<and> home_path (Viper opts) = Some h)"
    using home_path_Some [of "Viper opts"] by (cases "home_path (Viper opts)") auto
  then show ?thesis
  proof (elim disjE exE conjE)
    assume none: "home_path (Viper opts) = None"
    then have "\<not> (opts FlagHome = OptString h \<and> h \<noteq> [])" for h
      using home_path_Some [of "Viper opts" h] by simp
    with none show ?thesis
      by (auto simp: appExport_def Viper)
  next
    fix h
    assume h: "opts FlagHome = OptString h" "h \<noteq> []" "home_path (Viper opts) = Some h"
    have "appExport env B export height zero jail appOpts ms s = (Ok x, d) \<longleftrightarrow>
      (\<exists>app t. built env (Viper (opts(FlagInvCheckPeriod := OptInt 1))) [] app \<and>
        (if height = - 1 then \<exists>s'. LoadLatestVersion B s = (Ok (), s') \<and> InitializePinnedCodes B s' = (Ok (), t)
         else LoadVersion B height s = (Ok (), t)) \<and>
        export app zero jail ms t = (Ok x, d))"
      by (auto simp: appExport_def Viper h(3) bind_eq_Ok NewMeshApp_Ok load_latest_Ok LoadHeight_def any_unit)
    with h show ?thesis
      by (auto simp: Viper)
  qed
qed (auto simp: appExport_def split: option.split)

end
