(* ===== verification/Supply.thy ===== *)
theory Supply
  imports SystemProps
begin

text \<open>
  What bonding does to the money of the chain.  The bank is known by two figures of the bond
  denomination, its supply and the offset that a bank may keep for the supply it reports; the law says
  how its calls move them.  The lemmas show that every message of a contract moves the supply by exactly
  what it moves the contract's total, so that all virtual coins are accounted for.
\<close>

section \<open>The bank\<close>

text \<open>
  \<open>supported\<close> tells a bank with an offset, as that of Osmosis, from the vanilla one.  Coins are counted
  as \<open>AmountOf\<close> of the SDK counts them.  Staking moves coins that there are.
\<close>

definition supply_laws :: "'x Keeper \<Rightarrow> string \<Rightarrow> ('x \<Rightarrow> int) \<Rightarrow> ('x \<Rightarrow> int) \<Rightarrow> bool \<Rightarrow> bool" where
  "supply_laws k dn supply offset supported \<longleftrightarrow>
     (\<forall>md cs c d x. MintCoins (bank k) md cs c = (Ok (), d) \<longrightarrow> amount_of (lib k) cs dn = Ok x \<longrightarrow>
        supply (chain d) = supply (chain c) + x \<and> offset (chain d) = offset (chain c)) \<and>
     (\<forall>md cs c d x. BurnCoins (bank k) md cs c = (Ok (), d) \<longrightarrow> amount_of (lib k) cs dn = Ok x \<longrightarrow>
        supply (chain d) = supply (chain c) - x \<and> offset (chain d) = offset (chain c)) \<and>
     (\<forall>i c d. AddSupplyOffset (bank k) dn i c = (Ok (), d) \<longrightarrow>
        supply (chain d) = supply (chain c) \<and> offset (chain d) = offset (chain c) + (if supported then i else 0)) \<and>
     (\<forall>a md cs. keeps (\<lambda>c. (supply (chain c), offset (chain c))) (SendCoinsFromAccountToModule (bank k) a md cs)) \<and>
     (\<forall>a md cs. keeps (\<lambda>c. (supply (chain c), offset (chain c))) (SendCoinsFromModuleToAccount (bank k) md a cs)) \<and>
     (\<forall>a i st v b. keeps (\<lambda>c. (supply (chain c), offset (chain c))) (StakingDelegate (Staking k) a i st v b)) \<and>
     (\<forall>a va sh. keeps (\<lambda>c. (supply (chain c), offset (chain c))) (InstantUndelegate (Staking k) a va sh))"

text \<open>\<open>NewCoins\<close> of a coin counts as that coin.\<close>

definition count_laws :: "sdk_lib \<Rightarrow> bool" where
  "count_laws L \<longleftrightarrow> (\<forall>d a cs. new_coins L (coin_of d a) = Ok cs \<longrightarrow> 0 < a \<longrightarrow> amount_of L cs d = Ok a)"

lemma supply_lawsD:
  assumes "supply_laws k dn supply offset supported"
  shows "MintCoins (bank k) md cs c = (Ok (), d) \<Longrightarrow> amount_of (lib k) cs dn = Ok x \<Longrightarrow>
      supply (chain d) = supply (chain c) + x \<and> offset (chain d) = offset (chain c)"
    and "BurnCoins (bank k) md cs c = (Ok (), d) \<Longrightarrow> amount_of (lib k) cs dn = Ok x \<Longrightarrow>
      supply (chain d) = supply (chain c) - x \<and> offset (chain d) = offset (chain c)"
    and "AddSupplyOffset (bank k) dn i c = (Ok (), d) \<Longrightarrow>
      supply (chain d) = supply (chain c) \<and> offset (chain d) = offset (chain c) + (if supported then i else 0)"
    and "SendCoinsFromAccountToModule (bank k) a md cs c = (u, d) \<Longrightarrow>
      supply (chain d) = supply (chain c) \<and> offset (chain d) = offset (chain c)"
    and "SendCoinsFromModuleToAccount (bank k) md a cs c = (u, d) \<Longrightarrow>
      supply (chain d) = supply (chain c) \<and> offset (chain d) = offset (chain c)"
    and "attempt (StakingDelegate (Staking k) a i st v b) c = (s, d) \<Longrightarrow>
      supply (chain d) = supply (chain c) \<and> offset (chain d) = offset (chain c)"
    and "InstantUndelegate (Staking k) a va sh c = (w, d) \<Longrightarrow>
      supply (chain d) = supply (chain c) \<and> offset (chain d) = offset (chain c)"
proof -
  let ?f = "\<lambda>c. (supply (chain c), offset (chain c))"
  have keeps: "keeps ?f (SendCoinsFromAccountToModule (bank k) a md cs)" "keeps ?f (SendCoinsFromModuleToAccount (bank k) md a cs)"
    "keeps ?f (StakingDelegate (Staking k) a i st v b)" "keeps ?f (InstantUndelegate (Staking k) a va sh)"
    using assms by (simp_all add: supply_laws_def)
  note kept = keepsD [OF keeps(1)] keepsD [OF keeps(2)] keepsD [OF keeps_attempt [OF keeps(3)]] keepsD [OF keeps(4)]
  show "SendCoinsFromAccountToModule (bank k) a md cs c = (u, d) \<Longrightarrow>
      supply (chain d) = supply (chain c) \<and> offset (chain d) = offset (chain c)"
    using kept(1) by simp
  show "SendCoinsFromModuleToAccount (bank k) md a cs c = (u, d) \<Longrightarrow>
      supply (chain d) = supply (chain c) \<and> offset (chain d) = offset (chain c)"
    using kept(2) by simp
  show "attempt (StakingDelegate (Staking k) a i st v b) c = (s, d) \<Longrightarrow>
      supply (chain d) = supply (chain c) \<and> offset (chain d) = offset (chain c)"
    using kept(3) by simp
  show "InstantUndelegate (Staking k) a va sh c = (w, d) \<Longrightarrow>
      supply (chain d) = supply (chain c) \<and> offset (chain d) = offset (chain c)"
    using kept(4) by simp
  show "MintCoins (bank k) md cs c = (Ok (), d) \<Longrightarrow> amount_of (lib k) cs dn = Ok x \<Longrightarrow>
      supply (chain d) = supply (chain c) + x \<and> offset (chain d) = offset (chain c)"
    using assms unfolding supply_laws_def by metis
  show "BurnCoins (bank k) md cs c = (Ok (), d) \<Longrightarrow> amount_of (lib k) cs dn = Ok x \<Longrightarrow>
      supply (chain d) = supply (chain c) - x \<and> offset (chain d) = offset (chain c)"
    using assms unfolding supply_laws_def by metis
  show "AddSupplyOffset (bank k) dn i c = (Ok (), d) \<Longrightarrow>
      supply (chain d) = supply (chain c) \<and> offset (chain d) = offset (chain c) + (if supported then i else 0)"
    using assms unfolding supply_laws_def by metis
qed

section \<open>Moves\<close>

text \<open>The supply moves as the total of the contract does, the offset against it, and other totals stay.\<close>

definition accounted :: "'x Keeper \<Rightarrow> ('x \<Rightarrow> int) \<Rightarrow> ('x \<Rightarrow> int) \<Rightarrow> bool \<Rightarrow> bytes \<Rightarrow> 'x ctx \<Rightarrow> 'x ctx \<Rightarrow> bool" where
  "accounted k supply offset supported actor c d \<longleftrightarrow>
     (let moved = total_delegated k d actor - total_delegated k c actor in
        supply (chain d) = supply (chain c) + moved \<and>
        offset (chain d) = offset (chain c) - (if supported then moved else 0) \<and>
        (\<forall>a. a \<noteq> actor \<longrightarrow> total_delegated k d a = total_delegated k c a))"

lemma accounted_same: "mstore d = mstore c \<Longrightarrow> chain d = chain c \<Longrightarrow> accounted k supply offset supported actor c d"
  by (simp add: accounted_def Let_def total_delegated_def)

text \<open>What a branch has done is accounted for once it is written.\<close>

lemma accounted_written:
  assumes "ledger_of k s = (ledger_of k c)\<lparr>lg_bonded := (lg_bonded (ledger_of k c))(actor := total_delegated k s actor)\<rparr>"
    and "supply (chain s) = supply (chain c) + (total_delegated k s actor - total_delegated k c actor)"
    and "offset (chain s) = offset (chain c) - (if supported then total_delegated k s actor - total_delegated k c actor else 0)"
    and d: "d = write_cache c s"
  shows "accounted k supply offset supported actor c d"
proof -
  have total: "total_delegated k d = total_delegated k s"
    by (rule ext) (simp add: d total_delegated_def)
  have "total_delegated k s a = total_delegated k c a" if "a \<noteq> actor" for a
    using arg_cong [OF assms(1), of "\<lambda>l. lg_bonded l a"] that by simp
  moreover have "chain d = chain s"
    by (simp add: d)
  ultimately show ?thesis
    using assms(2,3) unfolding accounted_def Let_def total by simp
qed

lemma Delegate_accounted:
  assumes laws: "int_laws (lib k)" "coin_laws (lib k)" "count_laws (lib k)"
    and money: "supply_laws k (bond_denom k c) supply offset supported"
    and keepers: "keepers_stable k (within k p A ((=) (ledger_of k c)))"
    and c: "books k p A c" and run: "Delegate k actor v amt c = (r, d)"
  shows "accounted k supply offset supported actor c d"
proof (cases "amount amt")
  case None
  with run show ?thesis by (simp add: Delegate_def positive_def accounted_same)
next
  case (Some a)
  let ?t = "total_delegated k c actor + a" and ?d = "bond_denom k c"
  show ?thesis
  proof (rule Delegate_branch [OF laws(1,2) booksD(1) [OF c] Some run])
    fix va sh s
    assume may: "may_delegate k c actor v amt a" and fits: "int_fits ?t" and d: "d = write_cache c s"
      and branch: "delegate_in_branch k actor va ?d amt a (coin_of ?d ?t) (open_cache c) = (Ok (True, sh), s)"
    have a: "0 < a" "amt = coin_of ?d a"
      using may Some by (auto simp: may_delegate_def)
    have "0 \<le> ?t"
      using a(1) total_delegated_nonneg [of k c actor] by simp
    then have total: "total_delegated k s actor = ?t"
      by (rule delegate_in_branch_total(2) [OF laws(1) fits _ branch])
    have "within k p A ((=) (ledger_of k c)) (open_cache c)"
      using c by (intro within.branch) (simp add: within_def)
    note ledger = delegate_in_branch_ledger [OF keepers this branch]
    obtain cs s1 s2 s3 x s4 u where coins: "new_coins (lib k) (coin_of ?d a) = Ok cs"
      and calls: "MintCoins (bank k) ModuleName cs (open_cache c) = (Ok (), s1)"
        "AddSupplyOffset (bank k) ?d (- a) s1 = (Ok (), s2)"
        "SendCoinsFromModuleToAccount (bank k) ModuleName actor cs s2 = (Ok (), s3)"
        "attempt (StakingDelegate (Staking k) actor a Unbonded va True) s3 = (Ok x, s4)"
      and set: "setTotalDelegated k actor (coin_of ?d ?t) s4 = (Ok u, s)"
      using branch a(2) by (auto simp: delegate_in_branch_def bind_eq_Ok)
    have "amount_of (lib k) cs ?d = Ok a"
      using laws(3) coins a(1) by (simp add: count_laws_def)
    with supply_lawsD [OF money] calls
    have "supply (chain s4) = supply (chain c) + a" "offset (chain s4) = offset (chain c) - (if supported then a else 0)"
      by fastforce+
    moreover have "chain s = chain s4"
      by (rule total_after_set(4) [OF laws(1) fits \<open>0 \<le> ?t\<close> set])
    ultimately show ?thesis
      using ledger d by (intro accounted_written) (simp_all add: total)
  qed (simp add: accounted_same)
qed

lemma Undelegate_accounted:
  assumes laws: "int_laws (lib k)" "coin_laws (lib k)"
    and money: "supply_laws k (bond_denom k c) supply offset supported"
    and keepers: "keepers_stable k (within k p A ((=) (ledger_of k c)))"
    and c: "books k p A c" and run: "Undelegate k actor v amt c = (r, d)"
  shows "accounted k supply offset supported actor c d"
proof (cases "amount amt")
  case None
  with run show ?thesis by (simp add: Undelegate_def positive_def accounted_same)
next
  case (Some a)
  let ?t = "total_delegated k c actor" and ?d = "bond_denom k c"
  show ?thesis
  proof (rule Undelegate_branch [OF laws booksD(1) [OF c] Some run])
    fix sh s
    assume branch: "unbond_and_burn k actor v ?d (coin_of ?d ?t) sh (open_cache c) = (Ok (True, ()), s)"
      and d: "d = write_cache c s"
    have "within k p A ((=) (ledger_of k c)) (open_cache c)"
      using c by (intro within.branch) (simp add: within_def)
    note ledger = unbond_and_burn_ledger [OF keepers this branch]
    obtain cs s1 s2 s3 x s4 where calls: "InstantUndelegate (Staking k) actor v sh (open_cache c) = (Ok cs, s1)"
        "SendCoinsFromAccountToModule (bank k) actor ModuleName cs s1 = (Ok (), s2)"
        "BurnCoins (bank k) ModuleName cs s2 = (Ok (), s3)" "amount_of (lib k) cs ?d = Ok x"
        "AddSupplyOffset (bank k) ?d x s3 = (Ok (), s4)"
      and rest: "chain s = chain s4" "total_delegated k s actor = ?t - x"
      using unbond_and_burn_calls [OF laws total_delegated_fits [OF laws(1)] total_delegated_nonneg branch] by metis
    from supply_lawsD [OF money] calls
    have "supply (chain s4) = supply (chain c) - x" "offset (chain s4) = offset (chain c) + (if supported then x else 0)"
      by fastforce+
    then show ?thesis
      using ledger d by (intro accounted_written) (simp_all add: rest)
  qed (simp add: accounted_same)
qed

text \<open>A message is one of the two, or does nothing.\<close>

lemma DispatchMsg_moves:
  assumes "DispatchMsg (lib k) json (NewDefaultCustomMsgHandler k) contract msg c = (r, d)"
  shows "d = c \<or> (\<exists>v n x. Delegate k contract v n c = (x, d)) \<or> (\<exists>v n x. Undelegate k contract v n c = (x, d))"
  using assms
  by (auto simp: DispatchMsg_def NewDefaultCustomMsgHandler_def defaultMaxCapAuthorizator_def handleBondMsg_def
      handleUnbondMsg_def bind_apply split: option.splits res.splits if_splits prod.splits)

section \<open>Properties\<close>

text \<open>
  C4.  Every virtual coin is accounted for: whatever message a contract sends and however it ends, the
  bank's supply of the bond denomination has moved by exactly what the contract's total has moved, the
  offset of a bank that supports one by the opposite, so that the supply it reports is as before, and
  no other contract's total has moved.  This holds also when the staking keeper refuses the delegation.
\<close>
theorem virtual_coins_accounted:
  assumes laws: "int_laws (lib k)" "coin_laws (lib k)" "layout_laws (lib k)" "count_laws (lib k)"
    and money: "supply_laws k (bond_denom k c) supply offset supported"
    and hooks: "only_hooks k sk ek" and c: "books k p A c"
    and run: "DispatchMsg (lib k) json (NewDefaultCustomMsgHandler k) contract msg c = (r, d)"
  shows "supply (chain d) - total_delegated k d contract = supply (chain c) - total_delegated k c contract \<and>
    (supported \<longrightarrow> supply (chain d) + offset (chain d) = supply (chain c) + offset (chain c)) \<and>
    (\<not> supported \<longrightarrow> offset (chain d) = offset (chain c)) \<and>
    (\<forall>a. a \<noteq> contract \<longrightarrow> total_delegated k d a = total_delegated k c a)"
proof -
  note keepers = within.keepers_P [OF laws(3) hooks]
  have "accounted k supply offset supported contract c d"
    using DispatchMsg_moves [OF run] Delegate_accounted [OF laws(1,2,4) money keepers c]
      Undelegate_accounted [OF laws(1,2) money keepers c] accounted_same [of c c]
    by blast
  then show ?thesis
    by (auto simp: accounted_def Let_def)
qed

lemma demo_count_laws: "count_laws demo_lib"
  by (auto simp: count_laws_def) (simp add: demo_lib_def)

lemma demo_supply_laws: "supply_laws demo_keeper ''stake'' demo_supply (\<lambda>_. 0) False"
proof -
  have "amount_of demo_lib cs ''stake'' = Ok x \<Longrightarrow> demo_amount_of cs = x" for cs x
    by (auto simp: demo_amount_of_def demo_lib_def)
  moreover have "keeps (\<lambda>c. (demo_supply (chain c), 0)) (adapter_InstantUndelegate demo_lib demo_staking demo_bank a v sh)" for a v sh
    using demo_undelegate surjective_pairing unfolding keeps_def by metis
  moreover have "keeps (\<lambda>c. (demo_supply (chain c), 0)) (StakingDelegate (Staking demo_keeper) a i st v b)" for a i st v b
    by (simp add: keeps_def)
  ultimately show ?thesis
    unfolding supply_laws_def by (intro conjI allI impI) (simp_all add: add_supply_def keeps_ret, auto)
qed

lemma demo_refusing_books: "books demo_keeper demo_params {} demo_refusing"
  using demo_GetParams [of demo_refusing] demo_sums(2)
  by (simp add: books_def total_caps_def max_caps_def) (simp add: demo_params_def)

text \<open>The staking keeper refuses the bond: the coins are minted, and the total says so.\<close>

theorem virtual_coins_accounted_witness:
  "\<exists>r d. DispatchMsg demo_lib demo_bond (NewDefaultCustomMsgHandler demo_keeper) con_a demo_custom demo_refusing = (r, d) \<and>
    \<not> is_ok r \<and> total_delegated demo_keeper d con_a = 100 \<and> demo_supply (chain d) = 100"
proof -
  let ?e = "Sentinel ''stakingtypes.ErrDelegatorShareExRateInvalid''"
  let ?s = "(open_cache demo_refusing)\<lparr>chain := (chain demo_refusing)\<lparr>demo_supply := 100\<rparr>\<rparr>"
  obtain d where "Delegate demo_keeper con_a val_a (coin_of ''stake'' 100) demo_refusing = (Err ?e, d)"
    and total: "total_delegated demo_keeper d con_a = 100"
    using Delegate_runs [of demo_keeper demo_refusing con_a val_a "coin_of ''stake'' 100" 100 "[coin_of ''stake'' 100]" ?s ?s ?s "Err ?e" ?s]
    by (auto simp: may_delegate_def demo_chain_simps add_supply_def demo_amount_of_def attempt_apply)
  moreover have "convert_wasm_coin demo_lib \<lparr>wasm_denom = ''stake'', wasm_amount = ''100''\<rparr> = Ok (coin_of ''stake'' 100)"
  proof -
    have "''100'' = demo_int_string 100"
      by (simp add: demo_int_string_def decimal.simps char_of_def bit_0)
    then show ?thesis
      by (simp add: demo_lib_def demo_int_parse_string)
  qed
  moreover have "HasMaxCapLimit demo_refusing con_a"
    by (simp add: HasMaxCapLimit_def demo_limits(4) [unfolded HasMaxCapLimit_def])
  ultimately have run: "DispatchMsg (lib demo_keeper) demo_bond (NewDefaultCustomMsgHandler demo_keeper) con_a demo_custom demo_refusing = (Err ?e, d)"
    by (simp add: DispatchMsg_def demo_custom_def demo_bond_def NewDefaultCustomMsgHandler_def defaultMaxCapAuthorizator_def
        handleBondMsg_def bind_apply val_a_def)
  from virtual_coins_accounted [OF _ _ _ _ _ demo_only_hooks demo_refusing_books run, of demo_supply "\<lambda>_. 0" False]
  have "demo_supply (chain d) - total_delegated demo_keeper d con_a = 0"
    by (simp add: demo_count_laws demo_supply_laws demo_chain_simps)
  with run total show ?thesis by auto
qed

end
