(* ===== verification/Spec2Isabelle.thy ===== *)
theory Spec2Isabelle
  imports StakeProps EndBlockProps HandlerProps SystemProps BlockTasks CodecProps AppProps ExportProps Timing NodeProps Supply
    EncodingProps
begin

text \<open>
  The mesh-security module of a consumer chain, \<open>x/meshsecurity\<close>, and the demo chain it is built
  into, \<open>demo/app\<close>.

  \<^bold>\<open>The program.\<close>  Governance gives a contract a limit (\<open>SetVirtualStakingMaxCap\<close>); the limits of all
  contracts stay within a maximum of the parameters.  A contract with a limit bonds and unbonds virtual
  tokens with custom messages: \<open>Delegate\<close> mints coins, sends them to the contract and delegates them,
  \<open>Undelegate\<close> takes them back at once and burns them, and a total per contract is kept.  Hooks and
  decorators capture what happens to validators; each change is written under a key of the in-memory
  store, and every contract with a limit gets a task for the current block.  The end blocker runs the
  tasks that are due: it sends each contract the report of the changes, clears them, and then runs the
  regular callbacks, each of which is scheduled again one epoch later.  Parts interact through the
  store (parameters, limits, totals and the schedule), the in-memory store (the changes), calls of the
  bank, staking and wasm keepers, and calls from the staking, slashing, evidence and wasm modules.

  \<^bold>\<open>Theories and sources\<close> (paths under \<open>src/x/meshsecurity\<close> unless they begin with \<open>demo\<close>).

  \<^item> \<open>Prelude\<close>: results (\<open>res\<close>: a value, an error or a panic), calls as state transformers, sequencing,
    \<open>attempt\<close> for errors that the caller inspects.  \<open>GoBytes\<close>: slices, indices, copies, big-endian
    numbers, with Go's bounds checks.  \<open>KVStore\<close>: the store as a sorted map of byte strings.
  \<^item> \<open>Sdk\<close>: the chain as the module sees it, \<open>types/expected_keepers.go\<close> and the SDK's values, all of it
    parameters.
  \<^item> \<open>Keys\<close>: \<open>types/keys.go\<close>, \<open>types/types.go\<close>, \<open>types/errors.go\<close>.
  \<^item> \<open>Wire\<close>, \<open>WireFields\<close>, \<open>Messages\<close>, \<open>ServiceMessages\<close>: the generated \<open>types/*.pb.go\<close>; \<open>CodecProps\<close> has
    their properties and those of the genesis.
  \<^item> \<open>Keeper\<close>: \<open>keeper/keeper.go\<close> (type and constructors), \<open>keeper/options.go\<close>, \<open>keeper/adapter.go\<close>
    (adapters), \<open>types/events.go\<close>.  \<open>Parameters\<close>: \<open>types/params.go\<close>, \<open>types/genesis.go\<close>, \<open>types/tx.go\<close>,
    \<open>keeper/params.go\<close>, \<open>keeper/genesis.go\<close>.  \<open>MaxCap\<close>: limits and totals of \<open>keeper/keeper.go\<close>.
  \<^item> \<open>Scheduler\<close>: \<open>keeper/scheduler.go\<close>.  \<open>TaskQueue\<close> is its abstract specification, a map from height and
    contract to a flag; \<open>TaskRun\<close> the simulation of the code by it; \<open>SchedulerProps\<close> the properties.
  \<^item> \<open>Contract\<close>: \<open>contract/*.go\<close> and \<open>keeper/wasm.go\<close>.  \<open>Valset\<close>: \<open>keeper/valset_updates.go\<close> and
    \<open>keeper/staking_hooks.go\<close>; \<open>ValsetReport\<close> and \<open>ValsetProps\<close> what becomes of a change.
  \<^item> \<open>Stake\<close>: \<open>keeper/stake.go\<close>, with \<open>StakeProps\<close>.  \<open>Handlers\<close>: \<open>keeper/handler_plugin.go\<close>,
    \<open>keeper/query_plugin.go\<close>, \<open>keeper/querier.go\<close>, \<open>keeper/msg_server.go\<close>, with \<open>HandlerProps\<close>.
  \<^item> \<open>EndBlock\<close>: \<open>abci.go\<close>, the decorators of \<open>keeper/adapter.go\<close> and the genesis of \<open>module.go\<close>, with
    \<open>EndBlockProps\<close>.  \<open>Module\<close>: the rest of \<open>module.go\<close> and the constructors of servers and decorators.
  \<^item> \<open>Stable\<close>, \<open>Books\<close>, \<open>System\<close>, \<open>SystemProps\<close>: the module in its chain, a step relation over the
    operations with the invariant of all reachable states; \<open>BlockTasks\<close>: what a block leaves of the
    schedule.  \<open>Ledger\<close> is the abstract ledger that the
    chain refines, \<open>StoreTypes\<close> the typing of the store; \<open>Supply\<close> compares the totals with what the bank mints
    and burns.
  \<^item> \<open>Client\<close>: \<open>types/query.pb.gw.go\<close> and \<open>client/cli\<close>.  \<open>App\<close>: the parts of \<open>demo/app/app.go\<close>,
    \<open>demo/app/ante.go\<close> and \<open>demo/app/upgrades.go\<close> that concern the module, with \<open>AppProps\<close>.  \<open>Export\<close>:
    \<open>demo/app/export.go\<close>, with \<open>ExportProps\<close>.
  \<^item> \<open>Lifecycle\<close>: the calls of the consensus engine in \<open>demo/app/app.go\<close>, which go through the SDK's module
    manager, and the upgrade handlers of \<open>demo/app/upgrades.go\<close>, with \<open>LifecycleProps\<close>; \<open>Timing\<close>: that
    its tasks run on time.  \<open>Wiring\<close>: the
    construction of the keepers and of the IBC stacks in \<open>NewMeshApp\<close>, as data.  \<open>Node\<close>: its control flow,
    \<open>demo/cmd/meshd\<close>, \<open>demo/app/genesis.go\<close> and \<open>demo/app/wasm.go\<close>, with \<open>NodeProps\<close>.
  \<^item> \<open>Encoding\<close>: \<open>types/codec.go\<close>, \<open>demo/app/encoding.go\<close> and \<open>demo/app/params\<close>: what is registered in codecs,
    which are objects in a store because several others point to them; with \<open>EncodingProps\<close>.
  \<^item> \<open>Example\<close>: one instance of all parameters that satisfies every law; the witnesses evaluate on it.

  \<^bold>\<open>State and operations.\<close>  A context (\<open>ctx\<close>) carries the module's two stores, the block height, the gas
  meter, the events and the rest of the chain, of an arbitrary type.  An operation of the code is a
  definition of the same name that takes the keeper (a record of the interfaces it calls and its
  authority) and returns a result with the new context; where a method of another type has that name,
  a prefix tells them apart (\<open>Params_\<close>, \<open>query_\<close>, \<open>decorator_\<close>, \<open>module_\<close>, \<open>app_\<close>).  A closure of the code,
  such as the body of an iteration, is a definition of its own (\<open>exec_task\<close>, \<open>report_op\<close>).  A branch
  of the state (\<open>CacheContext\<close>) is \<open>cached\<close>: written back or dropped as the code does.

  \<^bold>\<open>What the lemmas show.\<close>
  The locale \<open>kv_contract\<close> states what an ordered store promises and is interpreted on the model's
  store; \<open>task_queue\<close> states the queue of tasks and is interpreted on the keys and values that the
  scheduler writes, from which every property of a run follows; \<open>wire_message\<close> is the contract of a
  generated message type, with one interpretation per message; \<open>store_invariant\<close> and
  \<open>task_invariant\<close> carry a predicate through branches, schedules and the whole end blocker, and
  \<open>chain_invariant\<close>, which extends it, through all steps of the chain; they are interpreted on the
  invariant \<open>books\<close>, \<open>chain_invariant\<close> also on \<open>within\<close>, the books with a predicate on the ledger, and
  on \<open>typed\<close>, the typing of the store.  A predicate that looks at the height as well falls under the
  more general \<open>height_invariant\<close>, \<open>timely_invariant\<close> and \<open>module_invariant\<close> (what contracts and hooks do
  in a block) or \<open>scheduling_invariant\<close> and \<open>block_invariant\<close> (also the authority), of which those are
  instances (\<open>sublocale\<close>); \<open>timed\<close>, what is still to be done in a block, is an interpretation of them.
  Weakest are \<open>report_invariant\<close> and \<open>callback_invariant\<close>, which only ask that the report of a change may
  be scheduled at the current height; \<open>tracked\<close>, the exact schedule within a callback, interprets them.
  The properties are: the invariant of all reachable states, the refinement of the ledger, the types
  of what is stored and that no block halts the chain (\<open>SystemProps\<close>); that the bank's supply moves with the
  totals of the contracts (\<open>Supply\<close>); what is left of the schedule when a block has ended (\<open>BlockTasks\<close>); the same for the demo chain from
  its genesis on, with all its modules (\<open>LifecycleProps\<close>), and that its tasks run on time (\<open>Timing\<close>); the execution of
  tasks, the calls of the callbacks exactly once and isolated from failures, and the scheduling operations (\<open>SchedulerProps\<close>); limits, bonding and unbonding on every branch
  (\<open>StakeProps\<close>); keys, reports and clearing of validator-set changes (\<open>ValsetProps\<close>); what the
  contracts are told of slashes, and when they are told nothing (\<open>EndBlockProps\<close>); who may do what, and queries (\<open>HandlerProps\<close>);
  decoders, round trips and the genesis (\<open>CodecProps\<close>); routing of messages and the ways to query
  (\<open>AppProps\<close>); the validators of a zero height export (\<open>ExportProps\<close>); that
  the codecs do not depend on the order in which the modules are visited (\<open>EncodingProps\<close>).

  \<^bold>\<open>Laws of the parameters.\<close>  \<open>int_laws\<close>, \<open>coin_laws\<close>, \<open>layout_laws\<close> and \<open>validate_laws\<close>: integers of 256
  bits that panic on overflow, coins that panic on different denominations and negative amounts,
  length prefixes and big-endian numbers, validated coins.  \<open>coin_ok\<close>: the codec of a coin inverts
  itself.  \<open>only_hooks\<close> and \<open>only_messages\<close>: other modules and contracts reach the module's stores only
  through its hooks and messages.  (\<open>sudo_laws\<close>, that the callbacks of a chain cause no changes of
  validators, is not a law but a condition of what is said of the in-memory store after a block.)
  \<open>dec_laws\<close>: decimals of 18 places that round to a neighbour.  \<open>chain_laws\<close>: wasmd's chain of handlers
  hands a message on at \<open>ErrUnknownMsg\<close>, bare or wrapped.
  \<open>manager_laws\<close>: the SDK's module manager calls the modules in the order it was given.
  \<open>other_modules\<close>: the other modules of the demo chain reach this one at both ends of a block only by steps
  that transactions have as well, and in their geneses only by its hooks; \<open>upgrade_laws\<close>: the versions of
  modules are not kept in its store.  \<open>supply_laws\<close>: the bank mints, burns and offsets exactly what it is
  told to, and sending and delegating leave the supply as it is; \<open>count_laws\<close>: the list made of one coin counts
  as that coin.  \<open>amino_laws\<close> and \<open>registry_laws\<close>: a codec refuses to register a type or a
  name twice, and a registry a type that does not implement its interface or whose URL stands for another.

  \<^bold>\<open>Bounds.\<close>  Heights, gas, lengths and enumerations have their widths of 64, 32, 16 and 8 bits, with the
  wrap-around of the code (\<open>longest_address_panics\<close> is about one that matters); indices into slices are
  natural numbers, and where the code's \<open>int\<close> could overflow the test for a negative index is a test
  for \<open>2 ^ 63\<close>.  There is no fuel: iterations run over the finite content of the store, and the loops of
  the codec are recursive with a measure, the bytes that are left or the value that is shifted out.

  \<^bold>\<open>Not modelled.\<close>  Logging, telemetry and help texts.  The generated gRPC plumbing of
  \<open>types/query.pb.go\<close> and \<open>types/tx.pb.go\<close>, which only calls its libraries.  Of the demo chain the
  constructors of the SDK's, IBC's and wasmd's own keepers and modules, whose code is not in the
  repository (their order and arguments are in \<open>Wiring\<close>), the simulation manager, the
  AutoCLI and reflection services, and the test helpers.  The gas that store accesses consume is left out: the meter
  moves where the code sets it, and running out of it is one of the ways in which a callback may panic.
  The JSON decoder is a parameter; JSON that the module writes is modelled.
\<close>

end
